(* ===== verification/Sandbox_Prelude.thy ===== *)
theory Sandbox_Prelude
  imports Main "HOL-Library.Word" "HOL-Library.Sublist"
begin

text \<open>
  Shared vocabulary of the development: the names of the C types the client uses, the collections
  of rewrite rules the component theories fill, generic facts on lists and words, and the
  first-match interface that the three rule tables of the client (path rules, fd-write rules,
  network rules) implement.

  C strings are lists of characters without the terminating NUL; a buffer of \<open>n\<close> bytes therefore
  holds a string of at most \<open>n - 1\<close> characters. \<open>size_t\<close>, \<open>uint64\<close> and \<open>reg_t\<close> are 64-bit words on
  the x86-64 target, \<open>int\<close> is the value of a signed 32-bit word.
\<close>

unbundle bit_operations_syntax

type_synonym reg_t = "64 word"
type_synonym size_t = "64 word"
type_synonym uint64 = "64 word"

text \<open>Field lemmas of operations that leave part of the client state alone.\<close>

named_theorems frame_simps

text \<open>Facts that unfold the handlers of the syscall events.\<close>

named_theorems handler_defs

text \<open>Length bounds of the C buffers.\<close>

named_theorems buffer_bounds

text \<open>The cast \<open>(int) r\<close> of a 64-bit register: the low 32 bits, read as two's complement.\<close>

definition int_of_reg :: "reg_t \<Rightarrow> int" where
  "int_of_reg r = sint (ucast r :: 32 word)"

text \<open>Decimal output of \<open>%u\<close>, \<open>%llu\<close>, \<open>%d\<close> and \<open>%ld\<close>.\<close>

definition digit_char :: "nat \<Rightarrow> char" where
  "digit_char d = char_of (48 + d)"

fun show_nat :: "nat \<Rightarrow> string" where
  "show_nat n = (if n < 10 then [digit_char n] else show_nat (n div 10) @ [digit_char (n mod 10)])"

declare show_nat.simps [simp del]

definition show_int :: "int \<Rightarrow> string" where
  "show_int i = (if i < 0 then CHR ''-'' # show_nat (nat (- i)) else show_nat (nat i))"

section \<open>Lists and words\<close>

lemma length_tl_dropWhile [termination_simp]:
  "dropWhile P xs \<noteq> [] \<Longrightarrow> length (tl (dropWhile P xs)) < length xs"
proof -
  assume "dropWhile P xs \<noteq> []"
  moreover have "length (dropWhile P xs) \<le> length xs" by (rule length_dropWhile_le)
  ultimately show ?thesis by (cases "dropWhile P xs") auto
qed

lemma dropWhile_neq_Nil_hd: "dropWhile P xs \<noteq> [] \<Longrightarrow> \<not> P (hd (dropWhile P xs))"
  by (induction xs) auto

lemma takeWhile_dropWhile_span:
  "\<forall>x \<in> set xs. P x \<Longrightarrow> ys = [] \<or> \<not> P (hd ys) \<Longrightarrow>
    takeWhile P (xs @ ys) = xs \<and> dropWhile P (xs @ ys) = ys"
  by (induction xs) (cases ys; auto)+

lemma take_eq_iff_prefix: "take (length xs) ys = xs \<longleftrightarrow> prefix xs ys"
  by (metis append_eq_conv_conj prefix_def take_is_prefix)

lemma digit_char_inj: "d < 10 \<Longrightarrow> of_char (digit_char d) = (48 + d :: nat)"
  by (simp add: digit_char_def)

lemma digit_char_table [simp]:
  "digit_char 0 = CHR ''0''"
  "digit_char (Suc 0) = CHR ''1''"
  "digit_char 2 = CHR ''2''"
  "digit_char 3 = CHR ''3''"
  "digit_char 4 = CHR ''4''"
  "digit_char 5 = CHR ''5''"
  "digit_char 6 = CHR ''6''"
  "digit_char 7 = CHR ''7''"
  "digit_char 8 = CHR ''8''"
  "digit_char 9 = CHR ''9''"
  by code_simp+

lemma show_nat_nonempty [simp]: "show_nat n \<noteq> []"
  by (subst show_nat.simps) simp

lemma show_nat_hd: "\<exists>d < 10. hd (show_nat n) = digit_char d"
proof (induction n rule: show_nat.induct)
  case (1 n)
  then show ?case by (subst show_nat.simps) auto
qed

lemma uint_sub_le: "b \<le> a \<Longrightarrow> uint (a - b :: 'a::len word) = uint a - uint b"
  by (simp add: uint_sub_if' word_le_def)

lemma unat_sub_le: "b \<le> a \<Longrightarrow> unat (a - b :: 'a::len word) = unat a - unat b"
  by (rule unat_sub)

lemma unat_add_no_wrap:
  fixes a b m :: "'a::len word"
  assumes "b \<le> m - a" and "a \<le> m"
  shows "unat (a + b) = unat a + unat b" and "a + b \<le> m"
proof -
  have "unat b \<le> unat m - unat a"
    using assms by (simp add: word_le_nat_alt unat_sub_le)
  moreover have "unat a \<le> unat m" using assms(2) by (simp add: word_le_nat_alt)
  ultimately have sum: "unat a + unat b \<le> unat m" by simp
  then have "unat a + unat b < 2 ^ LENGTH('a)"
    using unsigned_less [of m] by (simp add: order_le_less_trans)
  then show eq: "unat (a + b) = unat a + unat b"
    by (simp add: unat_word_ariths)
  show "a + b \<le> m" using sum eq by (simp add: word_le_nat_alt)
qed

section \<open>First-match tables\<close>

text \<open>
  What a client of a rule table relies on: a matching predicate, the action of a rule and a lookup
  that agrees with scanning the table in order. The lemmas are the facts an operator uses when
  writing policies: an entry decides exactly when no earlier one matches, rules behind a catch-all
  are dead, and the default is reached only when nothing matches.
\<close>

locale rule_table =
  fixes matches :: "'r \<Rightarrow> 'k \<Rightarrow> bool"
    and action :: "'r \<Rightarrow> 'a"
    and dflt :: 'a
    and lookup :: "'r list \<Rightarrow> 'k \<Rightarrow> 'a"
  assumes lookup_empty: "lookup [] k = dflt"
    and lookup_cons: "lookup (r # rs) k = (if matches r k then action r else lookup rs k)"
begin

lemma lookup_skip: "\<forall>r \<in> set rs. \<not> matches r k \<Longrightarrow> lookup (rs @ rs') k = lookup rs' k"
  by (induction rs) (auto simp: lookup_cons)

lemma lookup_default: "\<forall>r \<in> set rs. \<not> matches r k \<Longrightarrow> lookup rs k = dflt"
  using lookup_skip [of rs k "[]"] by (simp add: lookup_empty)

lemma lookup_decided:
  "\<forall>r \<in> set rs. \<not> matches r k \<Longrightarrow> matches r k \<Longrightarrow> lookup (rs @ r # rs') k = action r"
  by (simp add: lookup_skip lookup_cons)

lemma lookup_catch_all:
  "matches r k \<Longrightarrow> lookup (rs @ r # rs') k = lookup (rs @ [r]) k"
  by (induction rs) (auto simp: lookup_cons)

lemma lookup_find:
  "lookup rs k = (case find (\<lambda>r. matches r k) rs of None \<Rightarrow> dflt | Some r \<Rightarrow> action r)"
  by (induction rs) (simp_all add: lookup_empty lookup_cons)

lemma lookup_result: "lookup rs k = dflt \<or> (\<exists>r \<in> set rs. matches r k \<and> lookup rs k = action r)"
  by (induction rs) (auto simp: lookup_empty lookup_cons)

end

end
