(* ===== verification/CLib.thy ===== *)
theory CLib
  imports Sandbox_Prelude
begin

text \<open>
  The C standard library functions the client calls on strings: \<open>strtoull\<close> and \<open>strtol\<close> in base 10
  (leading white space, an optional sign, saturation on overflow, the end pointer as the rest of
  the string) and \<open>strstr\<close> used as a test. A result \<open>None\<close> of a conversion stands for
  \<open>endp == value\<close>, no digits were found. The lemmas show that printing a number and converting it
  back gives the number, which the environment parsers and the \<open>/proc/self/fd\<close> recogniser rest on.
\<close>

section \<open>Definitions\<close>

definition c_isspace :: "char \<Rightarrow> bool" where
  "c_isspace c = (c = CHR '' '' \<or> (9 \<le> (of_char c :: nat) \<and> (of_char c :: nat) \<le> 13))"

definition c_isdigit :: "char \<Rightarrow> bool" where
  "c_isdigit c = (48 \<le> (of_char c :: nat) \<and> (of_char c :: nat) \<le> 57)"

definition digits_value :: "string \<Rightarrow> nat" where
  "digits_value ds = foldl (\<lambda>acc c. 10 * acc + (of_char c - 48)) 0 ds"

text \<open>The optional sign: whether it is a minus, and what follows.\<close>

definition split_sign :: "string \<Rightarrow> bool \<times> string" where
  "split_sign s = (case s of [] \<Rightarrow> (False, [])
     | c # r \<Rightarrow> if c = CHR ''-'' then (True, r) else if c = CHR ''+'' then (False, r)
               else (False, s))"

text \<open>Sign, value of the digits and rest, \<open>None\<close> when there is no digit.\<close>

definition scan_number :: "string \<Rightarrow> (bool \<times> nat \<times> string) option" where
  "scan_number s =
     (let (neg, r) = split_sign (dropWhile c_isspace s); ds = takeWhile c_isdigit r
      in if ds = [] then None else Some (neg, digits_value ds, dropWhile c_isdigit r))"

definition strtoull10 :: "string \<Rightarrow> (uint64 \<times> string) option" where
  "strtoull10 s = (case scan_number s of None \<Rightarrow> None
     | Some (neg, v, rest) \<Rightarrow>
         Some (if v \<ge> 2 ^ 64 then - 1 else if neg then - word_of_nat v else word_of_nat v, rest))"

definition strtol10 :: "string \<Rightarrow> (int \<times> string) option" where
  "strtol10 s = (case scan_number s of None \<Rightarrow> None
     | Some (neg, v, rest) \<Rightarrow>
         Some (if neg then max (- (2 ^ 63)) (- int v) else min (2 ^ 63 - 1) (int v), rest))"

fun strstr :: "string \<Rightarrow> string \<Rightarrow> bool" where
  "strstr [] needle = (needle = [])"
| "strstr (c # cs) needle = (take (length needle) (c # cs) = needle \<or> strstr cs needle)"

section \<open>Facts\<close>

lemma strstr_iff_sublist: "strstr hay needle \<longleftrightarrow> sublist needle hay"
  by (induction hay) (auto simp: take_eq_iff_prefix sublist_Cons_right simp del: take_Suc_Cons)

lemma c_isdigit_digit_char [simp]: "d < 10 \<Longrightarrow> c_isdigit (digit_char d)"
  by (simp add: c_isdigit_def digit_char_inj)

lemma digit_char_not_space [simp]: "d < 10 \<Longrightarrow> \<not> c_isspace (digit_char d)"
proof -
  assume d: "d < 10"
  then have "digit_char d \<noteq> CHR '' ''" using digit_char_inj [of d] by auto
  with d show ?thesis by (simp add: c_isspace_def digit_char_inj)
qed

lemma digit_char_no_sign [simp]:
  assumes "d < 10" shows "digit_char d \<noteq> CHR ''-''" and "digit_char d \<noteq> CHR ''+''"
  using digit_char_inj [OF assms] by auto

lemma show_nat_digits: "c \<in> set (show_nat n) \<Longrightarrow> c_isdigit c"
proof (induction n rule: show_nat.induct)
  case (1 n)
  show ?case
  proof (cases "n < 10")
    case True
    with "1.prems" show ?thesis by (simp add: show_nat.simps [of n])
  next
    case False
    with "1.prems" have "c \<in> set (show_nat (n div 10)) \<or> c = digit_char (n mod 10)"
      by (auto simp: show_nat.simps [of n])
    with False "1.IH" show ?thesis by auto
  qed
qed

lemma digits_value_snoc: "digits_value (ds @ [c]) = 10 * digits_value ds + (of_char c - 48)"
  by (simp add: digits_value_def)

lemma digits_value_show_nat [simp]: "digits_value (show_nat n) = n"
proof (induction n rule: show_nat.induct)
  case (1 n)
  show ?case
  proof (cases "n < 10")
    case True
    then show ?thesis
      by (simp add: show_nat.simps [of n] digits_value_def digit_char_inj)
  next
    case False
    with "1.IH" show ?thesis
      by (simp add: show_nat.simps [of n] digits_value_snoc digit_char_inj)
  qed
qed

lemma split_sign_show_nat: "split_sign (show_nat n @ rest) = (False, show_nat n @ rest)"
proof -
  obtain d where d: "d < 10" "hd (show_nat n) = digit_char d" using show_nat_hd by blast
  obtain c cs where "show_nat n = c # cs" by (cases "show_nat n") auto
  with d show ?thesis by (auto simp: split_sign_def)
qed

lemma dropWhile_space_show_nat:
  "dropWhile c_isspace (show_nat n @ rest) = show_nat n @ rest"
proof -
  obtain d where d: "d < 10" "hd (show_nat n) = digit_char d" using show_nat_hd by blast
  obtain c cs where "show_nat n = c # cs" by (cases "show_nat n") auto
  with d show ?thesis by auto
qed

lemma scan_number_show_nat:
  assumes "rest = [] \<or> \<not> c_isdigit (hd rest)"
  shows "scan_number (show_nat n @ rest) = Some (False, n, rest)"
proof -
  have "takeWhile c_isdigit (show_nat n @ rest) = show_nat n"
    and "dropWhile c_isdigit (show_nat n @ rest) = rest"
    using takeWhile_dropWhile_span [of "show_nat n" c_isdigit rest] assms show_nat_digits by auto
  then show ?thesis
    by (simp add: scan_number_def dropWhile_space_show_nat split_sign_show_nat)
qed

lemma strtoull10_show_nat:
  assumes "n < 2 ^ 64" and "rest = [] \<or> \<not> c_isdigit (hd rest)"
  shows "strtoull10 (show_nat n @ rest) = Some (word_of_nat n, rest)"
  using assms by (simp add: strtoull10_def scan_number_show_nat)

lemma strtol10_show_nat:
  assumes "n < 2 ^ 63" and "rest = [] \<or> \<not> c_isdigit (hd rest)"
  shows "strtol10 (show_nat n @ rest) = Some (int n, rest)"
  using assms by (simp add: strtol10_def scan_number_show_nat min_def)

lemma scan_number_rest: "scan_number s = Some (neg, v, rest) \<Longrightarrow> length rest < length s"
proof -
  assume a: "scan_number s = Some (neg, v, rest)"
  define r where "r = snd (split_sign (dropWhile c_isspace s))"
  have "length r \<le> length (dropWhile c_isspace s)"
    by (auto simp: r_def split_sign_def split: list.splits)
  then have r: "length r \<le> length s" using length_dropWhile_le [of c_isspace s] by linarith
  from a have "takeWhile c_isdigit r \<noteq> []" and rest: "rest = dropWhile c_isdigit r"
    by (auto simp: scan_number_def r_def Let_def split: prod.splits if_splits)
  then have "length rest < length r"
    by (metis add_less_same_cancel2 length_append length_greater_0_conv takeWhile_dropWhile_id
        less_add_same_cancel2)
  with r show ?thesis by linarith
qed

lemma strtol10_rest: "strtol10 s = Some (v, rest) \<Longrightarrow> length rest < length s"
  by (auto simp: strtol10_def split: option.splits dest: scan_number_rest)

text \<open>A string that is converted to its end is white space, an optional sign and digits.\<close>

lemma split_sign_eq:
  "split_sign s = (neg, r) \<longleftrightarrow>
    (if neg then s = CHR ''-'' # r
     else s = CHR ''+'' # r \<or> (s = r \<and> (\<forall>c. take 1 r = [c] \<longrightarrow> c \<noteq> CHR ''-'' \<and> c \<noteq> CHR ''+'')))"
  by (auto simp: split_sign_def split: list.splits if_splits)

lemma scan_number_whole:
  "scan_number s = Some (neg, v, []) \<longleftrightarrow>
    (\<exists>ws sgn ds. s = ws @ sgn @ ds \<and> (\<forall>c \<in> set ws. c_isspace c) \<and>
       (if neg then sgn = ''-'' else sgn = [] \<or> sgn = ''+'') \<and>
       ds \<noteq> [] \<and> (\<forall>c \<in> set ds. c_isdigit c) \<and> v = digits_value ds)" (is "_ \<longleftrightarrow> ?whole")
proof
  assume a: "scan_number s = Some (neg, v, [])"
  obtain r where sg: "split_sign (dropWhile c_isspace s) = (neg, r)" and ne: "takeWhile c_isdigit r \<noteq> []"
    and v: "v = digits_value (takeWhile c_isdigit r)" and e: "dropWhile c_isdigit r = []"
    using a by (auto simp: scan_number_def Let_def split: prod.splits if_splits)
  from e have all: "\<forall>c \<in> set r. c_isdigit c" by (simp add: dropWhile_eq_Nil_conv)
  then have r: "takeWhile c_isdigit r = r" by (simp add: takeWhile_eq_all_conv)
  obtain sgn where "dropWhile c_isspace s = sgn @ r" "if neg then sgn = ''-'' else sgn = [] \<or> sgn = ''+''"
    using sg unfolding split_sign_eq by (auto split: if_splits)
  moreover have "s = takeWhile c_isspace s @ dropWhile c_isspace s" by simp
  moreover have "\<forall>c \<in> set (takeWhile c_isspace s). c_isspace c" by (auto dest: set_takeWhileD)
  ultimately show ?whole using ne v all unfolding r by metis
next
  assume ?whole
  then obtain ws sgn ds where s: "s = ws @ sgn @ ds" and ws: "\<forall>c \<in> set ws. c_isspace c"
    and sg: "if neg then sgn = ''-'' else sgn = [] \<or> sgn = ''+''" and ne: "ds \<noteq> []"
    and ds: "\<forall>c \<in> set ds. c_isdigit c" and v: "v = digits_value ds" by blast
  obtain d ds' where d: "ds = d # ds'" using ne by (cases ds) auto
  then have dd: "c_isdigit d" using ds by simp
  then have nd: "d \<noteq> CHR ''-''" "d \<noteq> CHR ''+''" "\<not> c_isspace d" by (auto simp: c_isdigit_def c_isspace_def)
  have "\<not> c_isspace (hd (sgn @ ds))" using sg nd d by (auto simp: c_isspace_def split: if_splits)
  then have "dropWhile c_isspace s = sgn @ ds"
    using takeWhile_dropWhile_span [of ws c_isspace "sgn @ ds"] ws ne unfolding s by simp
  moreover have "split_sign (sgn @ ds) = (neg, ds)" using sg nd d by (auto simp: split_sign_eq)
  ultimately show "scan_number s = Some (neg, v, [])"
    using ds ne v by (simp add: scan_number_def takeWhile_eq_all_conv [THEN iffD2])
qed

lemma strtol10_range: "strtol10 s = Some (v, rest) \<Longrightarrow> - (2 ^ 63) \<le> v \<and> v < 2 ^ 63"
  by (auto simp: strtol10_def split: option.splits if_splits)

end
