(* ===== verification/Syscalls.thy ===== *)
theory Syscalls
  imports Sandbox_Prelude
begin

text \<open>
  The Linux x86-64 syscall numbers as the client defines them, and the limits and constants of the
  C headers that the policy code compares with. The two tables hold every \<open>SYS_\<close> macro of the file
  in its order, by name and number; the input abbreviations name the numbers the policy code uses, and
  \<open>policy_macros\<close> ties them to the tables: each abbreviation has the number of its macro and no number
  is used twice.
\<close>

section \<open>Syscall numbers\<close>

definition syscall_macros_core :: "(string \<times> int) list" where
  "syscall_macros_core =
    [(''read'', 0), (''write'', 1), (''open'', 2), (''close'', 3), (''stat'', 4), (''fstat'', 5),
     (''lstat'', 6), (''poll'', 7), (''lseek'', 8), (''mmap'', 9), (''mprotect'', 10),
     (''munmap'', 11), (''brk'', 12), (''rt_sigaction'', 13), (''rt_sigprocmask'', 14),
     (''rt_sigreturn'', 15), (''ioctl'', 16), (''pread64'', 17), (''pwrite64'', 18),
     (''readv'', 19), (''writev'', 20), (''access'', 21), (''pipe'', 22), (''select'', 23),
     (''sched_yield'', 24), (''mremap'', 25), (''msync'', 26), (''dup'', 32), (''dup2'', 33),
     (''socket'', 41), (''connect'', 42), (''accept'', 43), (''sendto'', 44), (''recvfrom'', 45),
     (''sendmsg'', 46), (''recvmsg'', 47), (''shutdown'', 48), (''bind'', 49), (''listen'', 50),
     (''getsockname'', 51), (''getpeername'', 52), (''socketpair'', 53), (''setsockopt'', 54),
     (''getsockopt'', 55), (''clone'', 56), (''fork'', 57), (''vfork'', 58), (''execve'', 59),
     (''exit'', 60), (''wait4'', 61), (''kill'', 62), (''uname'', 63), (''fcntl'', 72),
     (''flock'', 73), (''fsync'', 74), (''fdatasync'', 75), (''truncate'', 76),
     (''ftruncate'', 77), (''getdents'', 78), (''getcwd'', 79), (''chdir'', 80),
     (''fchdir'', 81), (''rename'', 82), (''mkdir'', 83), (''rmdir'', 84), (''creat'', 85),
     (''link'', 86), (''unlink'', 87), (''symlink'', 88), (''readlink'', 89), (''chmod'', 90),
     (''fchmod'', 91), (''chown'', 92), (''fchown'', 93), (''lchown'', 94), (''umask'', 95),
     (''gettimeofday'', 96), (''getrlimit'', 97), (''getrusage'', 98), (''sysinfo'', 99),
     (''times'', 100), (''ptrace'', 101), (''getuid'', 102), (''syslog'', 103),
     (''getgid'', 104), (''setuid'', 105), (''setgid'', 106), (''geteuid'', 107),
     (''getegid'', 108), (''setpgid'', 109), (''getppid'', 110), (''getpgrp'', 111),
     (''setsid'', 112), (''setreuid'', 113), (''setregid'', 114), (''getgroups'', 115),
     (''setgroups'', 116), (''setresuid'', 117), (''getresuid'', 118), (''setresgid'', 119),
     (''getresgid'', 120), (''getpgid'', 121), (''setfsuid'', 122), (''setfsgid'', 123),
     (''getsid'', 124), (''capget'', 125), (''capset'', 126), (''rt_sigsuspend'', 130),
     (''rt_sigpending'', 127), (''rt_sigtimedwait'', 128), (''rt_sigqueueinfo'', 129),
     (''sigaltstack'', 131), (''utime'', 132), (''mknod'', 133), (''personality'', 135),
     (''statfs'', 137), (''fstatfs'', 138), (''sysfs'', 139), (''getpriority'', 140),
     (''setpriority'', 141), (''sched_setparam'', 142), (''sched_getparam'', 143),
     (''sched_setscheduler'', 144), (''sched_getscheduler'', 145),
     (''sched_get_priority_max'', 146), (''sched_get_priority_min'', 147),
     (''sched_rr_get_interval'', 148), (''mlock'', 149), (''munlock'', 150), (''mlockall'', 151),
     (''munlockall'', 152), (''vhangup'', 153), (''pivot_root'', 155), (''prctl'', 157),
     (''arch_prctl'', 158), (''adjtimex'', 159), (''setrlimit'', 160), (''chroot'', 161),
     (''sync'', 162), (''acct'', 163), (''settimeofday'', 164), (''mount'', 165),
     (''umount2'', 166), (''swapon'', 167), (''swapoff'', 168), (''reboot'', 169),
     (''sethostname'', 170), (''setdomainname'', 171), (''iopl'', 172), (''ioperm'', 173)]"

definition syscall_macros_ext :: "(string \<times> int) list" where
  "syscall_macros_ext =
    [(''init_module'', 175), (''delete_module'', 176), (''futex'', 202),
     (''sched_setaffinity'', 203), (''sched_getaffinity'', 204), (''io_setup'', 206),
     (''io_destroy'', 207), (''io_getevents'', 208), (''io_submit'', 209), (''io_cancel'', 210),
     (''lookup_dcookie'', 212), (''epoll_create'', 213), (''remap_file_pages'', 216),
     (''getdents64'', 217), (''set_tid_address'', 218), (''restart_syscall'', 219),
     (''semtimedop'', 220), (''fadvise64'', 221), (''timer_create'', 222),
     (''timer_settime'', 223), (''timer_gettime'', 224), (''timer_getoverrun'', 225),
     (''timer_delete'', 226), (''clock_settime'', 227), (''clock_gettime'', 228),
     (''clock_getres'', 229), (''clock_nanosleep'', 230), (''exit_group'', 231),
     (''epoll_wait'', 232), (''epoll_ctl'', 233), (''tgkill'', 234), (''utimes'', 235),
     (''mbind'', 237), (''set_mempolicy'', 238), (''get_mempolicy'', 239), (''mq_open'', 240),
     (''mq_unlink'', 241), (''mq_timedsend'', 242), (''mq_timedreceive'', 243),
     (''mq_notify'', 244), (''mq_getsetattr'', 245), (''kexec_load'', 246), (''waitid'', 247),
     (''add_key'', 248), (''request_key'', 249), (''keyctl'', 250), (''ioprio_set'', 251),
     (''ioprio_get'', 252), (''inotify_init'', 253), (''inotify_add_watch'', 254),
     (''inotify_rm_watch'', 255), (''migrate_pages'', 256), (''openat'', 257),
     (''mkdirat'', 258), (''mknodat'', 259), (''fchownat'', 260), (''futimesat'', 261),
     (''fstatat'', 262), (''unlinkat'', 263), (''renameat'', 264), (''linkat'', 265),
     (''symlinkat'', 266), (''readlinkat'', 267), (''fchmodat'', 268), (''faccessat'', 269),
     (''pselect6'', 270), (''ppoll'', 271), (''unshare'', 272), (''set_robust_list'', 273),
     (''get_robust_list'', 274), (''splice'', 275), (''tee'', 276), (''sync_file_range'', 277),
     (''vmsplice'', 278), (''move_pages'', 279), (''utimensat'', 280), (''epoll_pwait'', 281),
     (''signalfd'', 282), (''timerfd_create'', 283), (''eventfd'', 284), (''fallocate'', 285),
     (''timerfd_settime'', 286), (''timerfd_gettime'', 287), (''accept4'', 288),
     (''signalfd4'', 289), (''eventfd2'', 290), (''epoll_create1'', 291), (''dup3'', 292),
     (''pipe2'', 293), (''inotify_init1'', 294), (''preadv'', 295), (''pwritev'', 296),
     (''rt_tgsigqueueinfo'', 297), (''perf_event_open'', 298), (''recvmmsg'', 299),
     (''fanotify_init'', 300), (''fanotify_mark'', 301), (''prlimit64'', 302),
     (''name_to_handle_at'', 303), (''open_by_handle_at'', 304), (''clock_adjtime'', 305),
     (''syncfs'', 306), (''sendmmsg'', 307), (''setns'', 308), (''getcpu'', 309),
     (''process_vm_readv'', 310), (''process_vm_writev'', 311), (''kcmp'', 312),
     (''finit_module'', 313), (''sched_setattr'', 314), (''sched_getattr'', 315),
     (''renameat2'', 316), (''seccomp'', 317), (''getrandom'', 318), (''memfd_create'', 319),
     (''kexec_file_load'', 320), (''bpf'', 321), (''execveat'', 322), (''userfaultfd'', 323),
     (''membarrier'', 324), (''mlock2'', 325), (''copy_file_range'', 326), (''preadv2'', 327),
     (''pwritev2'', 328), (''pkey_mprotect'', 329), (''pkey_alloc'', 330), (''pkey_free'', 331),
     (''statx'', 332), (''io_pgetevents'', 333), (''rseq'', 334), (''pidfd_send_signal'', 424),
     (''io_uring_setup'', 425), (''io_uring_enter'', 426), (''io_uring_register'', 427),
     (''open_tree'', 428), (''move_mount'', 429), (''fsopen'', 430), (''fsconfig'', 431),
     (''fsmount'', 432), (''fspick'', 433), (''pidfd_open'', 434), (''clone3'', 435),
     (''close_range'', 436), (''openat2'', 437), (''pidfd_getfd'', 438), (''faccessat2'', 439),
     (''process_madvise'', 440), (''nanosleep'', 35)]"

definition syscall_macros :: "(string \<times> int) list" where
  "syscall_macros = syscall_macros_core @ syscall_macros_ext"

abbreviation (input) SYS_read :: int where "SYS_read \<equiv> 0"
abbreviation (input) SYS_write :: int where "SYS_write \<equiv> 1"
abbreviation (input) SYS_open :: int where "SYS_open \<equiv> 2"
abbreviation (input) SYS_close :: int where "SYS_close \<equiv> 3"
abbreviation (input) SYS_stat :: int where "SYS_stat \<equiv> 4"
abbreviation (input) SYS_fstat :: int where "SYS_fstat \<equiv> 5"
abbreviation (input) SYS_lstat :: int where "SYS_lstat \<equiv> 6"
abbreviation (input) SYS_lseek :: int where "SYS_lseek \<equiv> 8"
abbreviation (input) SYS_mmap :: int where "SYS_mmap \<equiv> 9"
abbreviation (input) SYS_mprotect :: int where "SYS_mprotect \<equiv> 10"
abbreviation (input) SYS_munmap :: int where "SYS_munmap \<equiv> 11"
abbreviation (input) SYS_brk :: int where "SYS_brk \<equiv> 12"
abbreviation (input) SYS_rt_sigaction :: int where "SYS_rt_sigaction \<equiv> 13"
abbreviation (input) SYS_rt_sigprocmask :: int where "SYS_rt_sigprocmask \<equiv> 14"
abbreviation (input) SYS_rt_sigreturn :: int where "SYS_rt_sigreturn \<equiv> 15"
abbreviation (input) SYS_pread64 :: int where "SYS_pread64 \<equiv> 17"
abbreviation (input) SYS_pwrite64 :: int where "SYS_pwrite64 \<equiv> 18"
abbreviation (input) SYS_writev :: int where "SYS_writev \<equiv> 20"
abbreviation (input) SYS_access :: int where "SYS_access \<equiv> 21"
abbreviation (input) SYS_sched_yield :: int where "SYS_sched_yield \<equiv> 24"
abbreviation (input) SYS_mremap :: int where "SYS_mremap \<equiv> 25"
abbreviation (input) SYS_msync :: int where "SYS_msync \<equiv> 26"
abbreviation (input) SYS_dup :: int where "SYS_dup \<equiv> 32"
abbreviation (input) SYS_dup2 :: int where "SYS_dup2 \<equiv> 33"
abbreviation (input) SYS_socket :: int where "SYS_socket \<equiv> 41"
abbreviation (input) SYS_connect :: int where "SYS_connect \<equiv> 42"
abbreviation (input) SYS_accept :: int where "SYS_accept \<equiv> 43"
abbreviation (input) SYS_sendto :: int where "SYS_sendto \<equiv> 44"
abbreviation (input) SYS_recvfrom :: int where "SYS_recvfrom \<equiv> 45"
abbreviation (input) SYS_sendmsg :: int where "SYS_sendmsg \<equiv> 46"
abbreviation (input) SYS_recvmsg :: int where "SYS_recvmsg \<equiv> 47"
abbreviation (input) SYS_shutdown :: int where "SYS_shutdown \<equiv> 48"
abbreviation (input) SYS_bind :: int where "SYS_bind \<equiv> 49"
abbreviation (input) SYS_listen :: int where "SYS_listen \<equiv> 50"
abbreviation (input) SYS_getsockname :: int where "SYS_getsockname \<equiv> 51"
abbreviation (input) SYS_getpeername :: int where "SYS_getpeername \<equiv> 52"
abbreviation (input) SYS_socketpair :: int where "SYS_socketpair \<equiv> 53"
abbreviation (input) SYS_setsockopt :: int where "SYS_setsockopt \<equiv> 54"
abbreviation (input) SYS_getsockopt :: int where "SYS_getsockopt \<equiv> 55"
abbreviation (input) SYS_clone :: int where "SYS_clone \<equiv> 56"
abbreviation (input) SYS_fork :: int where "SYS_fork \<equiv> 57"
abbreviation (input) SYS_vfork :: int where "SYS_vfork \<equiv> 58"
abbreviation (input) SYS_execve :: int where "SYS_execve \<equiv> 59"
abbreviation (input) SYS_exit :: int where "SYS_exit \<equiv> 60"
abbreviation (input) SYS_uname :: int where "SYS_uname \<equiv> 63"
abbreviation (input) SYS_fcntl :: int where "SYS_fcntl \<equiv> 72"
abbreviation (input) SYS_flock :: int where "SYS_flock \<equiv> 73"
abbreviation (input) SYS_fsync :: int where "SYS_fsync \<equiv> 74"
abbreviation (input) SYS_fdatasync :: int where "SYS_fdatasync \<equiv> 75"
abbreviation (input) SYS_truncate :: int where "SYS_truncate \<equiv> 76"
abbreviation (input) SYS_ftruncate :: int where "SYS_ftruncate \<equiv> 77"
abbreviation (input) SYS_getdents :: int where "SYS_getdents \<equiv> 78"
abbreviation (input) SYS_getcwd :: int where "SYS_getcwd \<equiv> 79"
abbreviation (input) SYS_rename :: int where "SYS_rename \<equiv> 82"
abbreviation (input) SYS_mkdir :: int where "SYS_mkdir \<equiv> 83"
abbreviation (input) SYS_rmdir :: int where "SYS_rmdir \<equiv> 84"
abbreviation (input) SYS_creat :: int where "SYS_creat \<equiv> 85"
abbreviation (input) SYS_link :: int where "SYS_link \<equiv> 86"
abbreviation (input) SYS_unlink :: int where "SYS_unlink \<equiv> 87"
abbreviation (input) SYS_symlink :: int where "SYS_symlink \<equiv> 88"
abbreviation (input) SYS_readlink :: int where "SYS_readlink \<equiv> 89"
abbreviation (input) SYS_gettimeofday :: int where "SYS_gettimeofday \<equiv> 96"
abbreviation (input) SYS_getrlimit :: int where "SYS_getrlimit \<equiv> 97"
abbreviation (input) SYS_getrusage :: int where "SYS_getrusage \<equiv> 98"
abbreviation (input) SYS_getuid :: int where "SYS_getuid \<equiv> 102"
abbreviation (input) SYS_getgid :: int where "SYS_getgid \<equiv> 104"
abbreviation (input) SYS_geteuid :: int where "SYS_geteuid \<equiv> 107"
abbreviation (input) SYS_getegid :: int where "SYS_getegid \<equiv> 108"
abbreviation (input) SYS_getppid :: int where "SYS_getppid \<equiv> 110"
abbreviation (input) SYS_getpgrp :: int where "SYS_getpgrp \<equiv> 111"
abbreviation (input) SYS_getresuid :: int where "SYS_getresuid \<equiv> 118"
abbreviation (input) SYS_getresgid :: int where "SYS_getresgid \<equiv> 120"
abbreviation (input) SYS_getpgid :: int where "SYS_getpgid \<equiv> 121"
abbreviation (input) SYS_getsid :: int where "SYS_getsid \<equiv> 124"
abbreviation (input) SYS_rt_sigsuspend :: int where "SYS_rt_sigsuspend \<equiv> 130"
abbreviation (input) SYS_rt_sigpending :: int where "SYS_rt_sigpending \<equiv> 127"
abbreviation (input) SYS_sigaltstack :: int where "SYS_sigaltstack \<equiv> 131"
abbreviation (input) SYS_statfs :: int where "SYS_statfs \<equiv> 137"
abbreviation (input) SYS_sched_getparam :: int where "SYS_sched_getparam \<equiv> 143"
abbreviation (input) SYS_sched_getscheduler :: int where "SYS_sched_getscheduler \<equiv> 145"
abbreviation (input) SYS_sched_get_priority_max :: int where "SYS_sched_get_priority_max \<equiv> 146"
abbreviation (input) SYS_sched_get_priority_min :: int where "SYS_sched_get_priority_min \<equiv> 147"
abbreviation (input) SYS_prctl :: int where "SYS_prctl \<equiv> 157"
abbreviation (input) SYS_arch_prctl :: int where "SYS_arch_prctl \<equiv> 158"
abbreviation (input) SYS_futex :: int where "SYS_futex \<equiv> 202"
abbreviation (input) SYS_sched_getaffinity :: int where "SYS_sched_getaffinity \<equiv> 204"
abbreviation (input) SYS_getdents64 :: int where "SYS_getdents64 \<equiv> 217"
abbreviation (input) SYS_set_tid_address :: int where "SYS_set_tid_address \<equiv> 218"
abbreviation (input) SYS_restart_syscall :: int where "SYS_restart_syscall \<equiv> 219"
abbreviation (input) SYS_clock_gettime :: int where "SYS_clock_gettime \<equiv> 228"
abbreviation (input) SYS_clock_getres :: int where "SYS_clock_getres \<equiv> 229"
abbreviation (input) SYS_clock_nanosleep :: int where "SYS_clock_nanosleep \<equiv> 230"
abbreviation (input) SYS_exit_group :: int where "SYS_exit_group \<equiv> 231"
abbreviation (input) SYS_tgkill :: int where "SYS_tgkill \<equiv> 234"
abbreviation (input) SYS_openat :: int where "SYS_openat \<equiv> 257"
abbreviation (input) SYS_mkdirat :: int where "SYS_mkdirat \<equiv> 258"
abbreviation (input) SYS_fstatat :: int where "SYS_fstatat \<equiv> 262"
abbreviation (input) SYS_unlinkat :: int where "SYS_unlinkat \<equiv> 263"
abbreviation (input) SYS_renameat :: int where "SYS_renameat \<equiv> 264"
abbreviation (input) SYS_linkat :: int where "SYS_linkat \<equiv> 265"
abbreviation (input) SYS_symlinkat :: int where "SYS_symlinkat \<equiv> 266"
abbreviation (input) SYS_readlinkat :: int where "SYS_readlinkat \<equiv> 267"
abbreviation (input) SYS_faccessat :: int where "SYS_faccessat \<equiv> 269"
abbreviation (input) SYS_set_robust_list :: int where "SYS_set_robust_list \<equiv> 273"
abbreviation (input) SYS_get_robust_list :: int where "SYS_get_robust_list \<equiv> 274"
abbreviation (input) SYS_utimensat :: int where "SYS_utimensat \<equiv> 280"
abbreviation (input) SYS_fallocate :: int where "SYS_fallocate \<equiv> 285"
abbreviation (input) SYS_accept4 :: int where "SYS_accept4 \<equiv> 288"
abbreviation (input) SYS_dup3 :: int where "SYS_dup3 \<equiv> 292"
abbreviation (input) SYS_pipe2 :: int where "SYS_pipe2 \<equiv> 293"
abbreviation (input) SYS_recvmmsg :: int where "SYS_recvmmsg \<equiv> 299"
abbreviation (input) SYS_prlimit64 :: int where "SYS_prlimit64 \<equiv> 302"
abbreviation (input) SYS_sendmmsg :: int where "SYS_sendmmsg \<equiv> 307"
abbreviation (input) SYS_renameat2 :: int where "SYS_renameat2 \<equiv> 316"
abbreviation (input) SYS_getrandom :: int where "SYS_getrandom \<equiv> 318"
abbreviation (input) SYS_execveat :: int where "SYS_execveat \<equiv> 322"
abbreviation (input) SYS_membarrier :: int where "SYS_membarrier \<equiv> 324"
abbreviation (input) SYS_statx :: int where "SYS_statx \<equiv> 332"
abbreviation (input) SYS_rseq :: int where "SYS_rseq \<equiv> 334"
abbreviation (input) SYS_clone3 :: int where "SYS_clone3 \<equiv> 435"
abbreviation (input) SYS_faccessat2 :: int where "SYS_faccessat2 \<equiv> 439"
abbreviation (input) SYS_nanosleep :: int where "SYS_nanosleep \<equiv> 35"

text \<open>The macros the policy code uses, with the numbers the abbreviations stand for.\<close>

definition policy_macros :: "(string \<times> int) list" where
  "policy_macros =
    [(''read'', SYS_read), (''write'', SYS_write), (''open'', SYS_open), (''close'', SYS_close),
     (''stat'', SYS_stat), (''fstat'', SYS_fstat), (''lstat'', SYS_lstat), (''lseek'', SYS_lseek),
     (''mmap'', SYS_mmap), (''mprotect'', SYS_mprotect), (''munmap'', SYS_munmap), (''brk'',
     SYS_brk), (''rt_sigaction'', SYS_rt_sigaction), (''rt_sigprocmask'', SYS_rt_sigprocmask),
     (''rt_sigreturn'', SYS_rt_sigreturn), (''pread64'', SYS_pread64), (''pwrite64'', SYS_pwrite64),
     (''writev'', SYS_writev), (''access'', SYS_access), (''sched_yield'', SYS_sched_yield),
     (''mremap'', SYS_mremap), (''msync'', SYS_msync), (''dup'', SYS_dup), (''dup2'', SYS_dup2),
     (''socket'', SYS_socket), (''connect'', SYS_connect), (''accept'', SYS_accept), (''sendto'',
     SYS_sendto), (''recvfrom'', SYS_recvfrom), (''sendmsg'', SYS_sendmsg), (''recvmsg'',
     SYS_recvmsg), (''shutdown'', SYS_shutdown), (''bind'', SYS_bind), (''listen'', SYS_listen),
     (''getsockname'', SYS_getsockname), (''getpeername'', SYS_getpeername), (''socketpair'',
     SYS_socketpair), (''setsockopt'', SYS_setsockopt), (''getsockopt'', SYS_getsockopt),
     (''clone'', SYS_clone), (''fork'', SYS_fork), (''vfork'', SYS_vfork), (''execve'', SYS_execve),
     (''exit'', SYS_exit), (''uname'', SYS_uname), (''fcntl'', SYS_fcntl), (''flock'', SYS_flock),
     (''fsync'', SYS_fsync), (''fdatasync'', SYS_fdatasync), (''truncate'', SYS_truncate),
     (''ftruncate'', SYS_ftruncate), (''getdents'', SYS_getdents), (''getcwd'', SYS_getcwd),
     (''rename'', SYS_rename), (''mkdir'', SYS_mkdir), (''rmdir'', SYS_rmdir), (''creat'',
     SYS_creat), (''link'', SYS_link), (''unlink'', SYS_unlink), (''symlink'', SYS_symlink),
     (''readlink'', SYS_readlink), (''gettimeofday'', SYS_gettimeofday), (''getrlimit'',
     SYS_getrlimit), (''getrusage'', SYS_getrusage), (''getuid'', SYS_getuid), (''getgid'',
     SYS_getgid), (''geteuid'', SYS_geteuid), (''getegid'', SYS_getegid), (''getppid'',
     SYS_getppid), (''getpgrp'', SYS_getpgrp), (''getresuid'', SYS_getresuid), (''getresgid'',
     SYS_getresgid), (''getpgid'', SYS_getpgid), (''getsid'', SYS_getsid), (''rt_sigsuspend'',
     SYS_rt_sigsuspend), (''rt_sigpending'', SYS_rt_sigpending), (''sigaltstack'', SYS_sigaltstack),
     (''statfs'', SYS_statfs), (''sched_getparam'', SYS_sched_getparam), (''sched_getscheduler'',
     SYS_sched_getscheduler), (''sched_get_priority_max'', SYS_sched_get_priority_max),
     (''sched_get_priority_min'', SYS_sched_get_priority_min), (''prctl'', SYS_prctl),
     (''arch_prctl'', SYS_arch_prctl), (''futex'', SYS_futex), (''sched_getaffinity'',
     SYS_sched_getaffinity), (''getdents64'', SYS_getdents64), (''set_tid_address'',
     SYS_set_tid_address), (''restart_syscall'', SYS_restart_syscall), (''clock_gettime'',
     SYS_clock_gettime), (''clock_getres'', SYS_clock_getres), (''clock_nanosleep'',
     SYS_clock_nanosleep), (''exit_group'', SYS_exit_group), (''tgkill'', SYS_tgkill), (''openat'',
     SYS_openat), (''mkdirat'', SYS_mkdirat), (''fstatat'', SYS_fstatat), (''unlinkat'',
     SYS_unlinkat), (''renameat'', SYS_renameat), (''linkat'', SYS_linkat), (''symlinkat'',
     SYS_symlinkat), (''readlinkat'', SYS_readlinkat), (''faccessat'', SYS_faccessat),
     (''set_robust_list'', SYS_set_robust_list), (''get_robust_list'', SYS_get_robust_list),
     (''utimensat'', SYS_utimensat), (''fallocate'', SYS_fallocate), (''accept4'', SYS_accept4),
     (''dup3'', SYS_dup3), (''pipe2'', SYS_pipe2), (''recvmmsg'', SYS_recvmmsg), (''prlimit64'',
     SYS_prlimit64), (''sendmmsg'', SYS_sendmmsg), (''renameat2'', SYS_renameat2), (''getrandom'',
     SYS_getrandom), (''execveat'', SYS_execveat), (''membarrier'', SYS_membarrier), (''statx'',
     SYS_statx), (''rseq'', SYS_rseq), (''clone3'', SYS_clone3), (''faccessat2'', SYS_faccessat2),
     (''nanosleep'', SYS_nanosleep)]"

section \<open>Limits and header constants\<close>

abbreviation (input) MAX_PROCS :: int where "MAX_PROCS \<equiv> 5"
abbreviation (input) MAX_READ_BYTES :: size_t where "MAX_READ_BYTES \<equiv> 1048576"

definition SANDBOX_BASE :: string where
  "SANDBOX_BASE = ''/tmp/dr-sandbox/''"

text \<open>Values of \<open>errno.h\<close>, \<open>fcntl.h\<close> and \<open>sys/mman.h\<close> on x86-64 Linux.\<close>

abbreviation (input) EPERM :: nat where "EPERM \<equiv> 1"
abbreviation (input) ENOENT :: nat where "ENOENT \<equiv> 2"
abbreviation (input) EAGAIN :: nat where "EAGAIN \<equiv> 11"
abbreviation (input) ENOMEM :: nat where "ENOMEM \<equiv> 12"
abbreviation (input) EFAULT :: nat where "EFAULT \<equiv> 14"
abbreviation (input) EFBIG :: nat where "EFBIG \<equiv> 27"
abbreviation (input) ENETDOWN :: nat where "ENETDOWN \<equiv> 100"
abbreviation (input) ETIMEDOUT :: nat where "ETIMEDOUT \<equiv> 110"

abbreviation (input) O_WRONLY :: "32 word" where "O_WRONLY \<equiv> 1"
abbreviation (input) O_RDWR :: "32 word" where "O_RDWR \<equiv> 2"
abbreviation (input) O_ACCMODE :: "32 word" where "O_ACCMODE \<equiv> 3"
abbreviation (input) O_CREAT :: "32 word" where "O_CREAT \<equiv> 64"
abbreviation (input) O_TRUNC :: "32 word" where "O_TRUNC \<equiv> 512"
abbreviation (input) O_APPEND :: "32 word" where "O_APPEND \<equiv> 1024"

abbreviation (input) PROT_EXEC :: reg_t where "PROT_EXEC \<equiv> 4"
abbreviation (input) CLONE_THREAD :: reg_t where "CLONE_THREAD \<equiv> 65536"

section \<open>The tables\<close>

text \<open>No two macros have one number, so a comparison with a macro identifies the syscall.\<close>

lemma syscall_macros_numbers: "distinct (map snd syscall_macros)"
proof -
  have "successively (<) (foldr insort (map snd (syscall_macros_core @ syscall_macros_ext)) [])" by code_simp
  then have "sorted_wrt (<) (sort (map snd syscall_macros))"
    by (simp add: syscall_macros_def sort_key_def successively_conv_sorted_wrt)
  then show ?thesis by (simp add: strict_sorted_iff)
qed

text \<open>Every abbreviation has the number of its macro.\<close>

lemma policy_macros_listed: "set policy_macros \<subseteq> set syscall_macros"
proof -
  have "subseq policy_macros (syscall_macros_core @ syscall_macros_ext)" by code_simp
  then show ?thesis unfolding syscall_macros_def by (blast dest: list_emb_set)
qed

lemma SANDBOX_BASE_length: "length SANDBOX_BASE = 16"
  by (simp add: SANDBOX_BASE_def)

end
