(* ===== verification/Client_State.thy ===== *)
theory Client_State
  imports Syscalls
begin

text \<open>
  The data of the client: its enums and structs, the configuration globals that only
  \<open>dr_client_main\<close> writes (\<open>config\<close>), the globals the syscall events write together with what the
  events see and change of the application (\<open>sandbox\<close>), and the DynamoRIO runtime (\<open>dr_api\<close>).

  DynamoRIO is not part of the repository. Its functions are the fields of \<open>dr_api\<close>, an argument of
  every definition that calls them; what the client relies on is stated by \<open>safe_read_ok\<close>,
  \<open>safe_write_ok\<close>, \<open>alloc_ok\<close> and \<open>snprintf_ok\<close>, the documented behaviour of \<open>dr_safe_read\<close>,
  \<open>dr_safe_write\<close>, \<open>dr_global_alloc\<close> and \<open>dr_snprintf\<close>. \<open>plain_api\<close> is a concrete runtime with that behaviour. The parameters of the
  intercepted syscall (\<open>dr_syscall_get_param\<close>, \<open>dr_syscall_set_param\<close>), its forced result
  (\<open>dr_syscall_set_result_ex\<close>), the clock reading of the event, the directories created through
  \<open>dr_create_dir\<close> and the audit lines written through \<open>dr_write_file\<close> are data of the state.
  A rule array with its counter is a list; the human log (\<open>LOG\<close>) writes to stderr only and is left
  out.
\<close>

section \<open>Enums and structs\<close>

datatype sandbox_mode_t = MODE_OBSERVE | MODE_STRICT

datatype path_policy_action_t =
    PATH_POLICY_DEFAULT | PATH_POLICY_PASS | PATH_POLICY_READONLY | PATH_POLICY_PRIVATE
  | PATH_POLICY_BLOCK

record path_policy_rule_t =
  rule_action :: path_policy_action_t
  rule_prefix :: string

record fd_shadow_t =
  in_use :: bool
  block_write :: bool
  shadow_path :: string

record network_policy_rule_t =
  net_block :: bool
  net_any_ip :: bool
  net_ip :: string
  net_port :: int

record dr_syscall_result_info_t =
  succeeded :: bool
  res_value :: reg_t
  errno_value :: nat

section \<open>Memory and the DynamoRIO runtime\<close>

text \<open>Application memory: the bytes at the mapped addresses.\<close>

type_synonym mem = "reg_t \<Rightarrow> char option"

fun mem_load :: "mem \<Rightarrow> reg_t \<Rightarrow> nat \<Rightarrow> string option" where
  "mem_load m a 0 = Some []"
| "mem_load m a (Suc n) =
     (case m a of None \<Rightarrow> None | Some c \<Rightarrow> map_option ((#) c) (mem_load m (a + 1) n))"

fun mem_store :: "mem \<Rightarrow> reg_t \<Rightarrow> string \<Rightarrow> mem" where
  "mem_store m a [] = m"
| "mem_store m a (c # cs) = mem_store (m(a \<mapsto> c)) (a + 1) cs"

abbreviation (input) NUL :: char where "NUL \<equiv> CHR 0x00"

definition cstring_at :: "mem \<Rightarrow> reg_t \<Rightarrow> string \<Rightarrow> bool" where
  "cstring_at m a s = (NUL \<notin> set s \<and> mem_load m a (Suc (length s)) = Some (s @ [NUL]))"

record dr_api =
  dr_safe_read :: "mem \<Rightarrow> reg_t \<Rightarrow> nat \<Rightarrow> string option"
  dr_safe_write :: "mem \<Rightarrow> reg_t \<Rightarrow> string \<Rightarrow> bool \<times> mem"
  dr_global_alloc :: "mem \<Rightarrow> nat \<Rightarrow> (reg_t \<times> mem) option"
  dr_snprintf :: "nat \<Rightarrow> string \<Rightarrow> int \<times> string"

text \<open>
  \<open>dr_snprintf n text\<close> takes the expansion of the format; it gives the return value and the
  characters left in the buffer. Output shorter than the buffer is written whole with its
  terminator and its length is returned; output that does not fit gives a negative value, or \<open>n\<close>
  when exactly the terminator is missing.
\<close>

definition snprintf_ok :: "dr_api \<Rightarrow> bool" where
  "snprintf_ok api = (\<forall>n text.
     (length text < n \<longrightarrow> dr_snprintf api n text = (int (length text), text)) \<and>
     (n \<le> length text \<longrightarrow>
        fst (dr_snprintf api n text) < 0 \<or> fst (dr_snprintf api n text) = int n) \<and>
     length (snd (dr_snprintf api n text)) \<le> n)"

definition safe_read_ok :: "dr_api \<Rightarrow> bool" where
  "safe_read_ok api = (\<forall>m a n. dr_safe_read api m a n = mem_load m a n)"

definition safe_write_ok :: "dr_api \<Rightarrow> bool" where
  "safe_write_ok api = (\<forall>m a bs. fst (dr_safe_write api m a bs) \<longrightarrow>
     snd (dr_safe_write api m a bs) = mem_store m a bs)"

text \<open>
  \<open>dr_global_alloc\<close> hands out memory of its own heap: none of its bytes belongs to the application, and
  everything else stays as it is.
\<close>

definition alloc_ok :: "dr_api \<Rightarrow> bool" where
  "alloc_ok api = (\<forall>m n p m'. dr_global_alloc api m n = Some (p, m') \<longrightarrow>
     (\<forall>i < n. m (p + word_of_nat i) = None) \<and>
     (\<forall>x. (\<forall>i < n. x \<noteq> p + word_of_nat i) \<longrightarrow> m' x = m x))"

definition plain_api :: dr_api where
  "plain_api = \<lparr>dr_safe_read = mem_load,
     dr_safe_write = (\<lambda>m a bs. case mem_load m a (length bs) of None \<Rightarrow> (False, m)
                                | Some _ \<Rightarrow> (True, mem_store m a bs)),
     dr_global_alloc = (\<lambda>m n.
       if list_all (\<lambda>i. m (140000000000000 + word_of_nat i) = None) [0..<n]
       then Some (140000000000000, m) else None),
     dr_snprintf = (\<lambda>n s. if length s \<le> n then (int (length s), s) else (- 1, take n s))\<rparr>"

section \<open>The globals\<close>

record config =
  g_session_id :: string
  g_sandbox_root :: string
  g_mode :: sandbox_mode_t
  g_redirect_tmp :: bool
  g_audit_jsonl :: bool
  g_semantic_audit :: bool
  g_max_read_bytes :: size_t
  g_max_alloc_bytes :: size_t
  g_max_procs :: int
  g_block_network :: bool
  g_block_exec :: bool
  g_block_prot_exec :: bool
  g_stdio_only_writes :: bool
  g_max_stdout_bytes :: size_t
  g_max_stderr_bytes :: size_t
  g_output_truncate :: bool
  g_start_ms :: uint64
  g_max_cpu_ms :: uint64
  g_path_rules :: "path_policy_rule_t list"
  g_fd_write_rules :: "path_policy_rule_t list"
  g_network_rules :: "network_policy_rule_t list"

record sandbox =
  g_alloc_bytes :: size_t
  g_initial_brk :: reg_t
  g_current_brk :: reg_t
  g_stdout_bytes :: size_t
  g_stderr_bytes :: size_t
  g_proc_count :: "32 word"
  g_fd_shadow :: "int \<Rightarrow> fd_shadow_t"
  g_pending_open :: bool
  g_pending_open_block_write :: bool
  g_pending_open_path :: string
  g_last_sysnum :: int
  g_last_mmap_len :: size_t
  g_last_mremap_old_len :: size_t
  g_last_mremap_new_len :: size_t
  g_last_munmap_len :: size_t
  g_pending_dup :: bool
  g_pending_dup_src :: int
  g_pending_dup_dst :: int
  g_pending_dup_has_dst :: bool
  sys_params :: "nat \<Rightarrow> reg_t"
  sys_result :: "dr_syscall_result_info_t option"
  app_mem :: mem
  clock_ms :: uint64
  made_dirs :: "string list"
  audit_lines :: "string list"

text \<open>The state before the first event: the static initialisers, an empty address space.\<close>

definition empty_shadow :: fd_shadow_t where
  "empty_shadow = \<lparr>in_use = False, block_write = False, shadow_path = []\<rparr>"

definition initial_sandbox :: sandbox where
  "initial_sandbox = \<lparr>g_alloc_bytes = 0, g_initial_brk = 0, g_current_brk = 0, g_stdout_bytes = 0,
     g_stderr_bytes = 0, g_proc_count = 0, g_fd_shadow = (\<lambda>_. empty_shadow), g_pending_open = False,
     g_pending_open_block_write = False, g_pending_open_path = [], g_last_sysnum = 0,
     g_last_mmap_len = 0, g_last_mremap_old_len = 0, g_last_mremap_new_len = 0,
     g_last_munmap_len = 0, g_pending_dup = False, g_pending_dup_src = 0, g_pending_dup_dst = 0,
     g_pending_dup_has_dst = False, sys_params = (\<lambda>_. 0), sys_result = None,
     app_mem = (\<lambda>_. None), clock_ms = 0, made_dirs = [], audit_lines = []\<rparr>"

section \<open>Access to the syscall\<close>

definition get_param :: "sandbox \<Rightarrow> nat \<Rightarrow> reg_t" where
  "get_param s i = sys_params s i"

definition set_param :: "nat \<Rightarrow> reg_t \<Rightarrow> sandbox \<Rightarrow> sandbox" where
  "set_param i v s = s\<lparr>sys_params := (sys_params s)(i := v)\<rparr>"

definition set_errno_result :: "nat \<Rightarrow> sandbox \<Rightarrow> sandbox" where
  "set_errno_result err s =
     s\<lparr>sys_result := Some \<lparr>succeeded = False, res_value = 0, errno_value = err\<rparr>\<rparr>"

definition set_value_result :: "reg_t \<Rightarrow> sandbox \<Rightarrow> sandbox" where
  "set_value_result v s =
     s\<lparr>sys_result := Some \<lparr>succeeded = True, res_value = v, errno_value = 0\<rparr>\<rparr>"

definition failed_with :: "nat \<Rightarrow> sandbox \<Rightarrow> bool" where
  "failed_with err s =
     (sys_result s = Some \<lparr>succeeded = False, res_value = 0, errno_value = err\<rparr>)"

text \<open>
  The byte-wise copy of an application string into a buffer of \<open>bufsz\<close> bytes: it stops at the NUL,
  or silently after \<open>bufsz - 1\<close> characters.
\<close>

fun read_app_loop :: "dr_api \<Rightarrow> mem \<Rightarrow> reg_t \<Rightarrow> nat \<Rightarrow> string option" where
  "read_app_loop api m p 0 = Some []"
| "read_app_loop api m p (Suc n) =
     (case dr_safe_read api m p 1 of
        None \<Rightarrow> None
      | Some bs \<Rightarrow>
          (case bs of [] \<Rightarrow> None
           | c # _ \<Rightarrow> if c = NUL then Some []
                     else map_option ((#) c) (read_app_loop api m (p + 1) n)))"

definition read_app_string :: "dr_api \<Rightarrow> mem \<Rightarrow> reg_t \<Rightarrow> nat \<Rightarrow> string option" where
  "read_app_string api m p bufsz = read_app_loop api m p (bufsz - 1)"

section \<open>Facts\<close>

lemma plain_api_ok [simp]:
  "snprintf_ok plain_api" "safe_read_ok plain_api" "safe_write_ok plain_api" "alloc_ok plain_api"
  by (auto simp: plain_api_def snprintf_ok_def safe_read_ok_def safe_write_ok_def alloc_ok_def
      list_all_iff split: option.splits if_splits)

lemma failed_with_set_errno [simp]:
  "failed_with e (set_errno_result e' s) \<longleftrightarrow> e = e'"
  by (auto simp: failed_with_def set_errno_result_def)

lemma get_set_param [simp]: "get_param (set_param i v s) j = (if j = i then v else get_param s j)"
  by (simp add: get_param_def set_param_def)

lemma snprintf_fits:
  "snprintf_ok api \<Longrightarrow> length text < n \<Longrightarrow> dr_snprintf api n text = (int (length text), text)"
  by (simp add: snprintf_ok_def)

lemma mem_store_other:
  "\<forall>i < length bs. x \<noteq> a + word_of_nat i \<Longrightarrow> mem_store m a bs x = m x"
proof (induction bs arbitrary: m a)
  case Nil
  then show ?case by simp
next
  case (Cons c bs)
  have "\<forall>i < length bs. x \<noteq> a + 1 + word_of_nat i"
  proof (intro allI impI)
    fix i assume "i < length bs"
    then show "x \<noteq> a + 1 + word_of_nat i"
      using Cons.prems [rule_format, of "Suc i"] by (simp add: add.assoc)
  qed
  then have "mem_store (m(a \<mapsto> c)) (a + 1) bs x = (m(a \<mapsto> c)) x" by (rule Cons.IH)
  moreover have "x \<noteq> a" using Cons.prems [rule_format, of 0] by simp
  ultimately show ?case by simp
qed

lemma mem_load_store:
  "length bs < 2 ^ 64 \<Longrightarrow> mem_load (mem_store m a bs) a (length bs) = Some bs"
proof (induction bs arbitrary: m a)
  case Nil
  then show ?case by simp
next
  case (Cons c bs)
  have "\<forall>i < length bs. a \<noteq> a + 1 + word_of_nat i"
  proof (intro allI impI notI)
    fix i assume i: "i < length bs" and "a = a + 1 + word_of_nat i"
    then have "(word_of_nat (Suc i) :: 64 word) = 0" by (simp add: add.assoc)
    then have "unat (word_of_nat (Suc i) :: 64 word) = 0" by (simp only: unat_0)
    moreover have "Suc i < 2 ^ 64" using i Cons.prems by simp
    ultimately show False by (simp add: unat_of_nat del: of_nat_Suc)
  qed
  from mem_store_other [OF this] have "mem_store (m(a \<mapsto> c)) (a + 1) bs a = Some c" by simp
  with Cons show ?case by simp
qed

lemma cstring_at_store:
  "NUL \<notin> set s \<Longrightarrow> Suc (length s) < 2 ^ 64 \<Longrightarrow> cstring_at (mem_store m a (s @ [NUL])) a s"
  using mem_load_store [of "s @ [NUL]" m a] by (simp add: cstring_at_def)

lemma mem_load_length: "mem_load m a n = Some bs \<Longrightarrow> length bs = n"
  by (induction n arbitrary: a bs) (auto split: option.splits)

lemma mem_load_kept:
  "mem_load m a n = Some bs \<Longrightarrow> (\<And>x. m x \<noteq> None \<Longrightarrow> m' x = m x) \<Longrightarrow> mem_load m' a n = Some bs"
proof (induction n arbitrary: a bs)
  case (Suc n)
  then show ?case by (fastforce split: option.splits)
qed simp

lemma mem_load_append:
  "mem_load m a (Suc n) = Some (s @ [c]) \<Longrightarrow> length s = n \<Longrightarrow> mem_load m a n = Some s"
proof (induction s arbitrary: a n)
  case Nil
  then show ?case by simp
next
  case (Cons d s)
  then obtain k where k: "n = Suc k" "length s = k" by auto
  with Cons.prems(1) have "m a = Some d" "mem_load m (a + 1) (Suc k) = Some (s @ [c])"
    by (auto split: option.splits)
  with Cons.IH k show ?case by auto
qed

lemma read_app_loop_cstring:
  assumes "safe_read_ok api" and "NUL \<notin> set s"
    and "mem_load m a (Suc (length s)) = Some (s @ [NUL])"
  shows "read_app_loop api m a n = Some (take n s)"
  using assms(2,3)
proof (induction n arbitrary: a s)
  case 0
  then show ?case by simp
next
  case (Suc n)
  show ?case
  proof (cases s)
    case Nil
    with Suc.prems assms(1) show ?thesis by (auto simp: safe_read_ok_def split: option.splits)
  next
    case (Cons c cs)
    with Suc.prems have "m a = Some c" and "mem_load m (a + 1) (Suc (length cs)) = Some (cs @ [NUL])"
      by (auto split: option.splits)
    with Suc.IH [of cs "a + 1"] Suc.prems(1) Cons assms(1) show ?thesis
      by (auto simp: safe_read_ok_def)
  qed
qed

text \<open>A NUL-terminated string of the application is read up to the buffer's length.\<close>

lemma read_app_string_cstring:
  "safe_read_ok api \<Longrightarrow> cstring_at m a s \<Longrightarrow> read_app_string api m a n = Some (take (n - 1) s)"
  unfolding read_app_string_def cstring_at_def by (blast intro: read_app_loop_cstring)

lemma read_app_loop_bounds:
  "read_app_loop api m p n = Some s \<Longrightarrow> length s \<le> n \<and> NUL \<notin> set s"
  by (induction n arbitrary: p s) (auto split: option.splits list.splits if_splits)

lemma read_app_string_length [buffer_bounds]:
  "read_app_string api m p n = Some s \<Longrightarrow> length s \<le> n - 1"
  unfolding read_app_string_def using read_app_loop_bounds by blast

lemma read_app_string_no_nul: "read_app_string api m p n = Some s \<Longrightarrow> NUL \<notin> set s"
  unfolding read_app_string_def using read_app_loop_bounds by blast

end
