(* ===== verification/Env_Config.thy ===== *)
theory Env_Config
  imports CLib Client_State
begin

text \<open>
  The readers of the environment variables: the boolean switches and the three number parsers.
  A variable is \<open>None\<close> when \<open>getenv\<close> returns NULL. The size parser multiplies by its suffix in
  64-bit arithmetic, so a product can wrap around.
\<close>

section \<open>Definitions\<close>

definition env_is_false :: "string option \<Rightarrow> bool" where
  "env_is_false value = (case value of None \<Rightarrow> False
     | Some v \<Rightarrow> v = ''0'' \<or> v = ''false'' \<or> v = ''no'' \<or> v = ''allow'' \<or> v = ''off'')"

definition env_is_true :: "string option \<Rightarrow> bool" where
  "env_is_true value = (case value of None \<Rightarrow> False
     | Some v \<Rightarrow> v \<noteq> [] \<and> \<not> env_is_false value)"

definition env_policy_blocks :: "string option \<Rightarrow> bool \<Rightarrow> bool" where
  "env_policy_blocks value default_block = (case value of None \<Rightarrow> default_block
     | Some v \<Rightarrow>
         if v = [] then default_block
         else if env_is_false value then False
         else if v = ''block'' \<or> v = ''deny'' \<or> v = ''strict'' then True
         else env_is_true value)"

definition parse_size_env :: "string option \<Rightarrow> size_t \<Rightarrow> size_t" where
  "parse_size_env value fallback = (case value of None \<Rightarrow> fallback
     | Some v \<Rightarrow>
         if v = [] then fallback
         else (case strtoull10 v of None \<Rightarrow> fallback
           | Some (n, endp) \<Rightarrow>
               let n' = (case endp of [] \<Rightarrow> n
                 | c # _ \<Rightarrow>
                     if c = CHR ''k'' \<or> c = CHR ''K'' then n * 1024
                     else if c = CHR ''m'' \<or> c = CHR ''M'' then n * (1024 * 1024)
                     else if c = CHR ''g'' \<or> c = CHR ''G'' then n * (1024 * 1024 * 1024)
                     else n)
               in if n' > 0 then n' else fallback))"

definition parse_int_env :: "string option \<Rightarrow> int \<Rightarrow> int" where
  "parse_int_env value fallback = (case value of None \<Rightarrow> fallback
     | Some v \<Rightarrow>
         if v = [] then fallback
         else (case strtol10 v of None \<Rightarrow> fallback
           | Some (n, endp) \<Rightarrow> if n < 1 \<or> n > 100000 then fallback else n))"

definition parse_uint64_env :: "string option \<Rightarrow> uint64 \<Rightarrow> uint64" where
  "parse_uint64_env value fallback = (case value of None \<Rightarrow> fallback
     | Some v \<Rightarrow>
         if v = [] then fallback
         else (case strtoull10 v of None \<Rightarrow> fallback | Some (n, endp) \<Rightarrow> n))"

text \<open>The value a size suffix multiplies by.\<close>

definition suffix_factor :: "string \<Rightarrow> nat" where
  "suffix_factor suf =
     (if suf = ''k'' \<or> suf = ''K'' then 2 ^ 10 else if suf = ''m'' \<or> suf = ''M'' then 2 ^ 20
      else if suf = ''g'' \<or> suf = ''G'' then 2 ^ 30 else 1)"

section \<open>Facts\<close>

lemma env_is_true_not_false: "env_is_true v \<Longrightarrow> \<not> env_is_false v"
  by (auto simp: env_is_true_def split: option.splits)

lemma env_policy_blocks_cases:
  "env_policy_blocks v d =
     (if v = None \<or> v = Some [] then d else \<not> env_is_false v)"
  by (auto simp: env_policy_blocks_def env_is_true_def env_is_false_def split: option.splits)

lemma parse_int_env_range:
  "1 \<le> fb \<and> fb \<le> 100000 \<Longrightarrow> 1 \<le> parse_int_env v fb \<and> parse_int_env v fb \<le> 100000"
  by (auto simp: parse_int_env_def split: option.splits)

lemma parse_size_env_pos: "0 < fb \<Longrightarrow> 0 < parse_size_env v fb"
  by (auto simp: parse_size_env_def Let_def split: option.splits)

lemma suffix_word:
  assumes "n * suffix_factor suf < 2 ^ 64" and "suf \<in> {[], ''k'', ''K'', ''m'', ''M'', ''g'', ''G''}"
    and "0 < n"
  shows "parse_size_env (Some (show_nat n @ suf)) fb = word_of_nat (n * suffix_factor suf)"
proof -
  have n: "n < 2 ^ 64"
  proof -
    have "n \<le> n * suffix_factor suf" by (simp add: suffix_factor_def)
    with assms(1) show ?thesis by linarith
  qed
  have "suf = [] \<or> \<not> c_isdigit (hd suf)" using assms(2) by (auto simp: c_isdigit_def)
  then have st: "strtoull10 (show_nat n @ suf) = Some (word_of_nat n, suf)"
    using n by (rule strtoull10_show_nat [rotated])
  have "0 < n * suffix_factor suf" using assms(3) by (simp add: suffix_factor_def)
  then have "(word_of_nat (n * suffix_factor suf) :: 64 word) > 0"
    using assms(1) by (simp only: word_less_nat_alt unat_of_nat) simp
  with st assms(2) show ?thesis
    by (auto simp: parse_size_env_def suffix_factor_def Let_def)
qed

lemma suffix_wraps:
  assumes "suf \<in> {''g'', ''G''}" and "n < 2 ^ 64" and "2 ^ 34 dvd n"
  shows "parse_size_env (Some (show_nat n @ suf)) fb = fb"
proof -
  have "suf = [] \<or> \<not> c_isdigit (hd suf)" using assms(1) by (auto simp: c_isdigit_def)
  then have st: "strtoull10 (show_nat n @ suf) = Some (word_of_nat n, suf)"
    using assms(2) by (rule strtoull10_show_nat [rotated])
  have "(word_of_nat n :: 64 word) * 1073741824 = word_of_nat (n * 2 ^ 30)" by simp
  also have "\<dots> = 0"
  proof -
    from assms(3) obtain k where "n = 2 ^ 34 * k" by (rule dvdE)
    then have "n * 2 ^ 30 = 2 ^ 64 * k" by simp
    then have "2 ^ 64 dvd n * 2 ^ 30" by simp
    then show ?thesis by (simp add: word_of_nat_eq_0_iff del: of_nat_mult)
  qed
  finally show ?thesis using st assms(1) by (auto simp: parse_size_env_def Let_def)
qed

section \<open>Properties\<close>

text \<open>
  C34: A size is read as it is written. For every positive number whose product with its suffix fits 64
  bits, the text of the number with the suffix \<open>k\<close>, \<open>m\<close>, \<open>g\<close> (either case) or none gives exactly
  that product, whatever the fallback is.
\<close>
theorem size_env_roundtrip:
  assumes "0 < n" and "n * suffix_factor suf < 2 ^ 64"
    and "suf \<in> {[], ''k'', ''K'', ''m'', ''M'', ''g'', ''G''}"
  shows "unat (parse_size_env (Some (show_nat n @ suf)) fb) = n * suffix_factor suf"
proof -
  have "parse_size_env (Some (show_nat n @ suf)) fb = word_of_nat (n * suffix_factor suf)"
    using suffix_word [OF assms(2,3,1)] .
  then show ?thesis using assms(2) by (simp only: unat_of_nat) simp
qed

theorem size_env_roundtrip_witness: "unat (parse_size_env (Some ''64m'') 0) = 67108864"
  using size_env_roundtrip [of 64 "''m''" 0] by (simp add: suffix_factor_def show_nat.simps)

text \<open>
  A size that does not fit wraps around. The product with the suffix is taken in 64 bits without a
  check, so a multiple of \<open>2 ^ 34\<close> gibibytes comes out as zero and the fallback is used: a huge
  \<open>DR_MAX_ALLOC_BYTES\<close> switches the budget off.
\<close>
lemma size_env_wraps:
  assumes "2 ^ 34 dvd n" and "n < 2 ^ 64"
  shows "parse_size_env (Some (show_nat n @ ''G'')) fb = fb"
  by (rule suffix_wraps) (use assms in simp_all)

text \<open>
  The switches of \<open>DR_NETWORK\<close>, \<open>DR_EXEC\<close>, \<open>DR_PROT_EXEC\<close> and \<open>DR_FILE_WRITE\<close> block unless told
  otherwise: an unset or empty variable keeps the default of the mode, one of the five words for
  false allows, and every other text, known or not, blocks.
\<close>
lemma policy_switch_semantics:
  "env_policy_blocks v d \<longleftrightarrow>
     (if v = None \<or> v = Some [] then d
      else v \<notin> Some ` {''0'', ''false'', ''no'', ''allow'', ''off''})"
  by (auto simp: env_policy_blocks_cases env_is_false_def split: option.splits)

end
