(* ===== verification/Paths.thy ===== *)
theory Paths
  imports CLib Client_State
begin

text \<open>
  Path handling: the in-place canonicaliser with its 512-byte work buffer, its 128-entry stack of
  component positions and its bounded output buffer; prefix tests at component boundaries; the
  strict-mode blocklist; the private-write test; the join of a path onto the sandbox root and the
  creation of parent directories.

  The specification side is lexical resolution of component lists (\<open>lexical_resolve\<close>). The lemmas
  show that the buffer code computes it: positions in the stack are component boundaries, nothing is
  ever cut for absolute paths, and the only difference is the stack's capacity
  (\<open>capped_resolve\<close>).
\<close>

section \<open>Canonicalisation\<close>

definition not_slash :: "char \<Rightarrow> bool" where
  "not_slash c = (c \<noteq> CHR ''/'')"

abbreviation (input) is_slash :: "char \<Rightarrow> bool" where "is_slash \<equiv> \<lambda>c. c = CHR ''/''"

text \<open>
  The writer: the characters of \<open>out\<close> before \<open>w\<close>, and the stack \<open>parts\<close> as offsets into \<open>out\<close>.
\<close>

definition canon_push :: "nat \<Rightarrow> string \<Rightarrow> string \<times> nat list \<Rightarrow> string \<times> nat list" where
  "canon_push lim tok st =
     (let out = fst st; parts = snd st;
          parts' = (if length parts < 128 then parts @ [length out] else parts);
          out1 = (if length out < lim then out @ ''/'' else out);
          clen = (if length out1 + length tok > lim then lim - length out1 else length tok)
      in (out1 @ take clen tok, parts'))"

definition canon_pop :: "string \<times> nat list \<Rightarrow> string \<times> nat list" where
  "canon_pop st = (if snd st \<noteq> [] then (take (last (snd st)) (fst st), butlast (snd st)) else st)"

definition canon_component :: "nat \<Rightarrow> string \<times> nat list \<Rightarrow> string \<Rightarrow> string \<times> nat list" where
  "canon_component lim st tok =
     (if tok = [] \<or> tok = ''.'' then st
      else if tok = ''..'' then canon_pop st
      else canon_push lim tok st)"

function canon_loop :: "nat \<Rightarrow> string \<Rightarrow> string \<times> nat list \<Rightarrow> string \<times> nat list" where
  "canon_loop lim tok st =
     (if tok = [] then st
      else canon_loop lim (dropWhile is_slash (dropWhile not_slash tok))
             (canon_component lim st (takeWhile not_slash tok)))"
  by pat_completeness auto
termination
proof (relation "measure (\<lambda>(lim, tok, st). length tok)", goal_cases)
  case 1
  then show ?case by simp
next
  case (2 lim tok st)
  then obtain c cs where tok: "tok = c # cs" by (cases tok) auto
  have "length (dropWhile is_slash (dropWhile not_slash tok)) < length tok"
  proof (cases "not_slash c")
    case True
    have "length (dropWhile is_slash (dropWhile not_slash cs)) \<le> length cs"
      by (meson le_trans length_dropWhile_le)
    with True tok show ?thesis by simp
  next
    case False
    have "length (dropWhile is_slash cs) \<le> length cs" by (rule length_dropWhile_le)
    with False tok show ?thesis by (simp add: not_slash_def)
  qed
  then show ?case by simp
qed

declare canon_loop.simps [simp del]

definition canonicalize_path :: "string \<Rightarrow> nat \<Rightarrow> string" where
  "canonicalize_path path outsz =
     (let tmp = take 511 path;
          out = fst (canon_loop (outsz - 1) (dropWhile is_slash tmp) ([], []))
      in if out = [] then ''/'' else out)"

text \<open>
  The copy every policy test starts with: an absolute path canonicalised into a 512-byte buffer,
  any other path copied as it is.
\<close>

definition canonical_copy :: "string \<Rightarrow> string" where
  "canonical_copy path =
     (if path \<noteq> [] \<and> hd path = CHR ''/'' then canonicalize_path path 512 else take 511 path)"

definition path_has_prefix_component :: "string \<Rightarrow> string \<Rightarrow> bool" where
  "path_has_prefix_component path pre =
     (take (length pre) path = pre \<and>
      (case drop (length pre) path of [] \<Rightarrow> True | c # _ \<Rightarrow> c = CHR ''/''))"

section \<open>Blocklist and private writes\<close>

definition BLOCKED_PREFIXES :: "string list" where
  "BLOCKED_PREFIXES =
     [''/proc'', ''/sys'', ''/etc'', ''/dev'', ''/run'', ''/boot'', ''/root'', ''/home'', ''/var'',
      ''/usr'', ''/lib'', ''/lib64'', ''/bin'', ''/sbin'']"

definition BLOCKED_EXACT :: "string list" where
  "BLOCKED_EXACT = [''/etc/shadow'', ''/proc/self/maps'', ''/proc/self/mem'']"

definition path_is_blocked :: "string \<Rightarrow> bool" where
  "path_is_blocked path =
     (let canonical = canonical_copy path
      in list_ex (\<lambda>e. canonical = e) BLOCKED_EXACT \<or>
         list_ex (\<lambda>p. take (length p) canonical = p \<and>
                    (case drop (length p) canonical of [] \<Rightarrow> True | c # _ \<Rightarrow> c = CHR ''/''))
           BLOCKED_PREFIXES)"

definition path_is_private_write_candidate :: "string \<Rightarrow> bool" where
  "path_is_private_write_candidate path =
     (let canonical = canonical_copy path
      in if path_has_prefix_component canonical ''/tmp/MathLink'' \<or>
            path_has_prefix_component canonical ''/dev/shm'' then False
         else if path_has_prefix_component canonical ''/tmp'' \<or>
            path_has_prefix_component canonical ''/var/tmp'' then True
         else strstr canonical ''/.Wolfram'' \<or> strstr canonical ''/.cache'')"

definition open_flags_write_intent :: "32 word \<Rightarrow> bool" where
  "open_flags_write_intent flags =
     (let accmode = flags AND O_ACCMODE
      in accmode = O_WRONLY \<or> accmode = O_RDWR \<or>
         flags AND (O_CREAT OR O_TRUNC OR O_APPEND) \<noteq> 0)"

section \<open>Remapping\<close>

text \<open>\<open>None\<close> stands for a false return.\<close>

definition remap_path :: "dr_api \<Rightarrow> config \<Rightarrow> string \<Rightarrow> nat \<Rightarrow> string option" where
  "remap_path api cfg orig outsz =
     (let rel = dropWhile is_slash orig;
          (n, out) = dr_snprintf api outsz (g_sandbox_root cfg @ rel)
      in if n > 0 \<and> n < int outsz then Some out else None)"

text \<open>
  The loop over the slashes behind the root: each prefix that ends there, longer than the root, is
  passed to \<open>dr_create_dir\<close>.
\<close>

definition parent_dirs :: "nat \<Rightarrow> string \<Rightarrow> string list" where
  "parent_dirs root_len tmp =
     map (\<lambda>i. take i tmp)
       (filter (\<lambda>i. tmp ! i = CHR ''/'' \<and> i > root_len) [root_len..<length tmp])"

definition ensure_parent_dirs :: "config \<Rightarrow> string \<Rightarrow> sandbox \<Rightarrow> sandbox" where
  "ensure_parent_dirs cfg path s =
     s\<lparr>made_dirs := made_dirs s @ parent_dirs (length (g_sandbox_root cfg)) (take 511 path)\<rparr>"

definition ensure_private_dirs :: "dr_api \<Rightarrow> config \<Rightarrow> sandbox \<Rightarrow> sandbox" where
  "ensure_private_dirs api cfg s =
     s\<lparr>made_dirs := made_dirs s @
         [SANDBOX_BASE, g_sandbox_root cfg,
          snd (dr_snprintf api 256 (g_sandbox_root cfg @ ''tmp'')),
          snd (dr_snprintf api 256 (g_sandbox_root cfg @ ''var'')),
          snd (dr_snprintf api 256 (g_sandbox_root cfg @ ''var/tmp''))]\<rparr>"

section \<open>Lexical resolution\<close>

text \<open>The components of a path: its maximal runs of characters other than the slash.\<close>

function components :: "string \<Rightarrow> string list" where
  "components s =
     (let t = dropWhile is_slash s
      in if t = [] then [] else takeWhile not_slash t # components (dropWhile not_slash t))"
  by pat_completeness auto
termination
proof (relation "measure length", goal_cases)
  case 1
  then show ?case by simp
next
  case (2 s t)
  obtain c cs where t: "t = c # cs" using 2(2) by (meson neq_Nil_conv)
  have "not_slash (hd t)"
    using dropWhile_neq_Nil_hd [of is_slash s] 2 by (simp only: not_slash_def not_False_eq_True)
  then have "not_slash c" using t by simp
  moreover have "length t \<le> length s" using 2(1) by (simp add: length_dropWhile_le)
  moreover have "length (dropWhile not_slash cs) \<le> length cs" by (rule length_dropWhile_le)
  ultimately show ?case using t by simp
qed

declare components.simps [simp del]

definition resolve_step :: "string list \<Rightarrow> string \<Rightarrow> string list" where
  "resolve_step cs c = (if c = ''.'' then cs else if c = ''..'' then butlast cs else cs @ [c])"

definition lexical_resolve :: "string list \<Rightarrow> string list" where
  "lexical_resolve cs = foldl resolve_step [] cs"

definition capped_step :: "string list \<Rightarrow> string \<Rightarrow> string list" where
  "capped_step cs c =
     (if c = ''.'' then cs else if c = ''..'' then take (min 128 (length cs) - 1) cs
      else cs @ [c])"

definition capped_resolve :: "string list \<Rightarrow> string list" where
  "capped_resolve cs = foldl capped_step [] cs"

definition render :: "string list \<Rightarrow> string" where
  "render cs = concat (map (\<lambda>c. CHR ''/'' # c) cs)"

definition abs_path :: "string list \<Rightarrow> string" where
  "abs_path cs = (if cs = [] then ''/'' else render cs)"

text \<open>Components as a canonical path has them.\<close>

definition plain_component :: "string \<Rightarrow> bool" where
  "plain_component c = (c \<noteq> [] \<and> CHR ''/'' \<notin> set c \<and> c \<noteq> ''.'' \<and> c \<noteq> ''..'')"

text \<open>What the stack of the canonicaliser holds: the offset of each of the first 128 components.\<close>

definition stack_offsets :: "string list \<Rightarrow> nat list" where
  "stack_offsets cs = map (\<lambda>i. length (render (take i cs))) [0..<min 128 (length cs)]"

text \<open>The root of a session with identifier \<open>sid\<close>, as \<open>dr_client_main\<close> builds it.\<close>

definition session_root :: "string \<Rightarrow> string" where
  "session_root sid = SANDBOX_BASE @ sid @ ''/''"

text \<open>A configuration in the default observe mode, for session \<open>s1\<close>.\<close>

definition demo_config :: config where
  "demo_config = \<lparr>g_session_id = ''s1'', g_sandbox_root = session_root ''s1'', g_mode = MODE_OBSERVE,
     g_redirect_tmp = True, g_audit_jsonl = False, g_semantic_audit = False,
     g_max_read_bytes = MAX_READ_BYTES, g_max_alloc_bytes = 0, g_max_procs = MAX_PROCS,
     g_block_network = False, g_block_exec = False, g_block_prot_exec = False,
     g_stdio_only_writes = False, g_max_stdout_bytes = 0, g_max_stderr_bytes = 0,
     g_output_truncate = False, g_start_ms = 1, g_max_cpu_ms = 0, g_path_rules = [],
     g_fd_write_rules = [], g_network_rules = []\<rparr>"

section \<open>Components and rendering\<close>

lemma components_Nil [simp]: "components [] = []"
  by (simp add: components.simps)

lemma components_slash [simp]: "components (CHR ''/'' # s) = components s"
  by (subst (1 2) components.simps) simp

lemma components_drop_slashes [simp]: "components (dropWhile is_slash s) = components s"
  by (subst (1 2) components.simps) simp

lemma components_word:
  "not_slash c \<Longrightarrow>
    components (c # s) = takeWhile not_slash (c # s) # components (dropWhile not_slash s)"
  by (subst components.simps) (simp add: not_slash_def)

lemma components_join:
  assumes "c \<noteq> []" and "CHR ''/'' \<notin> set c" and "r = [] \<or> hd r = CHR ''/''"
  shows "components (c @ r) = c # components r"
proof -
  obtain x xs where c: "c = x # xs" using assms(1) by (cases c) auto
  have w: "\<forall>y \<in> set c. not_slash y" using assms(2) by (auto simp: not_slash_def)
  have span: "takeWhile not_slash (c @ r) = c \<and> dropWhile not_slash (c @ r) = r"
    by (rule takeWhile_dropWhile_span) (use w assms(3) in \<open>auto simp: not_slash_def\<close>)
  show ?thesis
    using components_word [of x "xs @ r"] w span c by simp
qed

text \<open>Induction along a path: nothing, a slash, or a maximal run of other characters.\<close>

lemma path_induct [case_names empty slash word]:
  assumes "P []" and "\<And>s. P s \<Longrightarrow> P (CHR ''/'' # s)"
    and "\<And>w r. w \<noteq> [] \<Longrightarrow> CHR ''/'' \<notin> set w \<Longrightarrow> r = [] \<or> hd r = CHR ''/'' \<Longrightarrow> P r \<Longrightarrow> P (w @ r)"
  shows "P s"
proof (induction s rule: length_induct)
  case (1 s)
  show ?case
  proof (cases s)
    case Nil
    with assms(1) show ?thesis by simp
  next
    case (Cons c cs)
    show ?thesis
    proof (cases "not_slash c")
      case False
      with Cons 1 assms(2) show ?thesis by (simp add: not_slash_def)
    next
      case True
      define w r where "w = takeWhile not_slash s" and "r = dropWhile not_slash s"
      have "w \<noteq> []" using True Cons by (simp add: w_def)
      moreover have "CHR ''/'' \<notin> set w"
        using set_takeWhileD [of "CHR ''/''" not_slash s] by (auto simp: w_def not_slash_def)
      moreover have "r = [] \<or> hd r = CHR ''/''"
        using dropWhile_neq_Nil_hd [of not_slash s] by (auto simp: r_def not_slash_def)
      moreover have s: "s = w @ r" by (simp add: w_def r_def)
      ultimately show ?thesis using 1 assms(3) [of w r] by simp
    qed
  qed
qed

lemma components_no_slash: "c \<in> set (components s) \<Longrightarrow> c \<noteq> [] \<and> CHR ''/'' \<notin> set c"
  by (induction s rule: path_induct) (auto simp: components_join)

lemma render_Nil [simp]: "render [] = []"
  and render_Cons [simp]: "render (c # cs) = CHR ''/'' # c @ render cs"
  and render_append [simp]: "render (cs @ ds) = render cs @ render ds"
  by (simp_all add: render_def)

lemma render_eq_Nil [simp]: "render cs = [] \<longleftrightarrow> cs = []"
  by (cases cs) simp_all

lemma render_hd: "render cs = [] \<or> hd (render cs) = CHR ''/''"
  by (cases cs) simp_all

lemma components_render_append:
  "\<forall>c \<in> set cs. c \<noteq> [] \<and> CHR ''/'' \<notin> set c \<Longrightarrow> r = [] \<or> hd r = CHR ''/'' \<Longrightarrow>
    components (render cs @ r) = cs @ components r"
proof (induction cs)
  case Nil
  then show ?case by simp
next
  case (Cons c cs)
  have "render cs @ r = [] \<or> hd (render cs @ r) = CHR ''/''"
    using Cons.prems(2) render_hd [of cs] by (cases cs) auto
  with Cons.prems(1) have "components (c @ render cs @ r) = c # components (render cs @ r)"
    by (intro components_join) auto
  with Cons show ?case by simp
qed

lemma components_abs_path:
  "\<forall>c \<in> set cs. c \<noteq> [] \<and> CHR ''/'' \<notin> set c \<Longrightarrow> components (abs_path cs) = cs"
  using components_render_append [of cs "[]"] by (simp add: abs_path_def)

text \<open>An absolute path is at least as long as its rendered components.\<close>

lemma length_render_components:
  "length (render (components s)) \<le> length s + (if s = [] \<or> hd s = CHR ''/'' then 0 else 1)"
proof (induction s rule: path_induct)
  case (word w r)
  then have "length (render (components r)) \<le> length r" by auto
  moreover have "hd (w @ r) \<noteq> CHR ''/''" using word.hyps(1,2) by (cases w) auto
  ultimately show ?case using word by (simp add: components_join)
qed (auto split: if_splits)

section \<open>The canonicaliser computes lexical resolution\<close>

lemma canon_loop_components:
  "canon_loop lim (dropWhile is_slash s) st = foldl (canon_component lim) st (components s)"
proof (induction s arbitrary: st rule: path_induct)
  case empty
  then show ?case by (simp add: canon_loop.simps)
next
  case (slash s)
  then show ?case by simp
next
  case (word w r)
  then have w: "\<forall>c \<in> set w. not_slash c" and r: "r = [] \<or> \<not> not_slash (hd r)"
    by (auto simp: not_slash_def)
  from takeWhile_dropWhile_span [OF w r]
  have span: "takeWhile not_slash (w @ r) = w" "dropWhile not_slash (w @ r) = r" by auto
  have "dropWhile is_slash (w @ r) = w @ r"
    using word.hyps(1) w by (cases w) (auto simp: not_slash_def)
  then have "canon_loop lim (dropWhile is_slash (w @ r)) st =
      canon_loop lim (dropWhile is_slash r) (canon_component lim st w)"
    using word.hyps(1) span by (subst canon_loop.simps) simp
  then show ?case using word by (simp add: components_join)
qed

lemma take_render: "i \<le> length cs \<Longrightarrow> take (length (render (take i cs))) (render cs) = render (take i cs)"
  by (metis append_eq_conv_conj append_take_drop_id render_append)

lemma stack_offsets_pop:
  assumes "cs \<noteq> []"
  shows "last (stack_offsets cs) = length (render (take (min 128 (length cs) - 1) cs))"
    and "butlast (stack_offsets cs) = stack_offsets (take (min 128 (length cs) - 1) cs)"
proof -
  define n where "n = min 128 (length cs) - 1"
  have n: "min 128 (length cs) = Suc n" "n < length cs" using assms by (cases cs; auto simp: n_def)+
  then show "last (stack_offsets cs) = length (render (take (min 128 (length cs) - 1) cs))"
    by (simp add: stack_offsets_def)
  have "min 128 (length (take n cs)) = n" using n by simp
  then show "butlast (stack_offsets cs) = stack_offsets (take (min 128 (length cs) - 1) cs)"
    using n by (simp add: stack_offsets_def min_absorb1 flip: n_def)
qed

lemma canon_component_capped:
  assumes "c \<noteq> []" and "length (render cs) + Suc (length c) \<le> lim"
  shows "canon_component lim (render cs, stack_offsets cs) c =
    (render (capped_step cs c), stack_offsets (capped_step cs c))"
proof -
  consider (dot) "c = ''.''" | (up) "c = ''..''" | (name) "c \<noteq> ''.''" "c \<noteq> ''..''" by blast
  then show ?thesis
  proof cases
    case dot
    then show ?thesis by (simp add: canon_component_def capped_step_def)
  next
    case up
    show ?thesis
    proof (cases "cs = []")
      case True
      with up show ?thesis
        by (simp add: canon_component_def capped_step_def canon_pop_def stack_offsets_def)
    next
      case False
      then have "stack_offsets cs \<noteq> []" by (simp add: stack_offsets_def)
      with up False show ?thesis
        by (simp add: canon_component_def capped_step_def canon_pop_def stack_offsets_pop take_render)
    qed
  next
    case name
    have "stack_offsets (cs @ [c]) =
        (if length cs < 128 then stack_offsets cs @ [length (render cs)] else stack_offsets cs)"
      by (cases "length cs < 128") (auto simp: stack_offsets_def)
    moreover have "length (stack_offsets cs) < 128 \<longleftrightarrow> length cs < 128"
      by (auto simp: stack_offsets_def)
    ultimately show ?thesis
      using name assms by (simp add: canon_component_def capped_step_def canon_push_def Let_def)
  qed
qed

lemma length_capped_step: "length (render (capped_step cs c)) \<le> length (render cs) + Suc (length c)"
proof -
  have "length (render (take i cs)) \<le> length (render cs)" for i
    by (metis append_take_drop_id length_append le_add1 render_append)
  then show ?thesis by (auto simp: capped_step_def intro: le_SucI trans_le_add1)
qed

lemma canon_fold_capped:
  "\<forall>c \<in> set xs. c \<noteq> [] \<Longrightarrow> length (render cs) + length (render xs) \<le> lim \<Longrightarrow>
    foldl (canon_component lim) (render cs, stack_offsets cs) xs =
      (render (foldl capped_step cs xs), stack_offsets (foldl capped_step cs xs))"
proof (induction xs arbitrary: cs)
  case Nil
  then show ?case by simp
next
  case (Cons c xs)
  then have "canon_component lim (render cs, stack_offsets cs) c =
      (render (capped_step cs c), stack_offsets (capped_step cs c))"
    by (intro canon_component_capped) auto
  moreover have "length (render (capped_step cs c)) + length (render xs) \<le> lim"
    using length_capped_step [of cs c] Cons.prems(2) by simp
  ultimately show ?case using Cons by simp
qed

lemma canonicalize_capped:
  assumes "path \<noteq> []" and "hd path = CHR ''/''" and "length (take 511 path) < outsz"
  shows "canonicalize_path path outsz = abs_path (capped_resolve (components (take 511 path)))"
proof -
  let ?t = "take 511 path"
  have "length (render (components ?t)) \<le> length ?t"
    using length_render_components [of ?t] assms(1,2) by (cases path) auto
  then have "length (render []) + length (render (components ?t)) \<le> outsz - 1"
    using assms(3) by (simp only: render_Nil list.size)
  then have "foldl (canon_component (outsz - 1)) (render [], stack_offsets []) (components ?t) =
      (render (capped_resolve (components ?t)), stack_offsets (capped_resolve (components ?t)))"
    unfolding capped_resolve_def by (intro canon_fold_capped) (use components_no_slash in blast)
  then show ?thesis
    by (simp add: canonicalize_path_def canon_loop_components abs_path_def stack_offsets_def)
qed

lemma capped_step_lexical: "length cs \<le> 128 \<Longrightarrow> capped_step cs c = resolve_step cs c"
  by (simp add: capped_step_def resolve_step_def butlast_conv_take min_absorb2)

lemma length_resolve_step: "length (resolve_step cs c) \<le> Suc (length cs)"
  by (simp add: resolve_step_def) arith

lemma fold_capped_lexical:
  "length cs + length xs \<le> 128 \<Longrightarrow> foldl capped_step cs xs = foldl resolve_step cs xs"
proof (induction xs arbitrary: cs)
  case (Cons c xs)
  moreover have "length (resolve_step cs c) + length xs \<le> 128"
    using Cons.prems length_resolve_step [of cs c] by simp
  ultimately show ?case by (simp add: capped_step_lexical)
qed simp

lemma capped_resolve_lexical: "length xs \<le> 128 \<Longrightarrow> capped_resolve xs = lexical_resolve xs"
  by (simp add: capped_resolve_def lexical_resolve_def fold_capped_lexical)

lemma capped_step_plain:
  "\<forall>x \<in> set cs. plain_component x \<Longrightarrow> c \<noteq> [] \<and> CHR ''/'' \<notin> set c \<Longrightarrow>
    \<forall>x \<in> set (capped_step cs c). plain_component x"
  by (auto simp: capped_step_def plain_component_def dest: in_set_takeD)

lemma fold_capped_keeps_plain:
  "\<forall>x \<in> set cs. plain_component x \<Longrightarrow> \<forall>c \<in> set xs. c \<noteq> [] \<and> CHR ''/'' \<notin> set c \<Longrightarrow>
    \<forall>c \<in> set (foldl capped_step cs xs). plain_component c"
proof (induction xs arbitrary: cs)
  case Nil
  then show ?case by simp
next
  case (Cons c xs)
  have "\<forall>x \<in> set (capped_step cs c). plain_component x"
    using Cons.prems by (intro capped_step_plain) auto
  with Cons.IH [of "capped_step cs c"] Cons.prems(2) show ?case by simp
qed

lemma capped_resolve_plain: "\<forall>c \<in> set (capped_resolve (components s)). plain_component c"
  unfolding capped_resolve_def
  by (rule fold_capped_keeps_plain) (auto dest: components_no_slash)

lemma fold_capped_plain:
  "\<forall>c \<in> set xs. plain_component c \<Longrightarrow> foldl capped_step cs xs = cs @ xs"
  by (induction xs arbitrary: cs) (auto simp: capped_step_def plain_component_def)

lemma plain_no_slash:
  "\<forall>c \<in> set cs. plain_component c \<Longrightarrow> \<forall>c \<in> set cs. c \<noteq> [] \<and> CHR ''/'' \<notin> set c"
  by (simp add: plain_component_def)

lemma abs_path_absolute [simp]: "abs_path cs \<noteq> []" "hd (abs_path cs) = CHR ''/''"
  by (cases cs; simp add: abs_path_def)+

lemma length_capped_resolve:
  "length (render (capped_resolve xs)) \<le> length (render xs)"
proof -
  have "length (render (foldl capped_step cs xs)) \<le> length (render cs) + length (render xs)" for cs
  proof (induction xs arbitrary: cs)
    case (Cons c xs)
    show ?case using Cons [of "capped_step cs c"] length_capped_step [of cs c] by simp
  qed simp
  from this [of "[]"] show ?thesis by (simp add: capped_resolve_def)
qed

lemma length_abs_capped:
  assumes "s \<noteq> []" and "hd s = CHR ''/''"
  shows "length (abs_path (capped_resolve (components s))) \<le> length s"
proof -
  have "length (render (capped_resolve (components s))) \<le> length s"
    using length_capped_resolve [of "components s"] length_render_components [of s] assms by simp
  then show ?thesis using assms(1) by (cases s) (auto simp: abs_path_def)
qed

lemma canonical_copy_abs:
  assumes "path \<noteq> []" and "hd path = CHR ''/''"
  shows "canonical_copy path = abs_path (capped_resolve (components (take 511 path)))"
  using assms by (simp add: canonical_copy_def canonicalize_capped)

lemma canonical_copy_length [buffer_bounds]: "length (canonical_copy path) \<le> 511"
proof (cases "path \<noteq> [] \<and> hd path = CHR ''/''")
  case True
  then have "take 511 path \<noteq> []" "hd (take 511 path) = CHR ''/''" by auto
  from length_abs_capped [OF this] True show ?thesis by (simp add: canonical_copy_abs)
qed (auto simp: canonical_copy_def)

section \<open>Component prefixes\<close>

lemma path_has_prefix_component_iff:
  "path_has_prefix_component path pre \<longleftrightarrow>
    (\<exists>r. path = pre @ r \<and> (r = [] \<or> hd r = CHR ''/''))"
proof
  assume a: "path_has_prefix_component path pre"
  define r where "r = drop (length pre) path"
  have "path = pre @ r"
    using a append_take_drop_id [of "length pre" path]
    by (simp add: path_has_prefix_component_def r_def)
  moreover have "r = [] \<or> hd r = CHR ''/''"
    using a by (cases r) (auto simp: path_has_prefix_component_def r_def)
  ultimately show "\<exists>r. path = pre @ r \<and> (r = [] \<or> hd r = CHR ''/'')" by blast
next
  assume "\<exists>r. path = pre @ r \<and> (r = [] \<or> hd r = CHR ''/'')"
  then show "path_has_prefix_component path pre"
    by (auto simp: path_has_prefix_component_def split: list.splits)
qed

lemma prefix_component_abs:
  assumes "\<forall>c \<in> set cs. plain_component c" and "\<forall>c \<in> set ps. plain_component c" and "ps \<noteq> []"
  shows "path_has_prefix_component (abs_path cs) (abs_path ps) \<longleftrightarrow> prefix ps cs"
proof
  assume "path_has_prefix_component (abs_path cs) (abs_path ps)"
  then obtain r where r: "abs_path cs = abs_path ps @ r" "r = [] \<or> hd r = CHR ''/''"
    by (auto simp: path_has_prefix_component_iff)
  have "cs = components (abs_path cs)"
    using components_abs_path [OF plain_no_slash [OF assms(1)]] by simp
  also have "\<dots> = ps @ components r"
    using r assms(3) components_render_append [OF plain_no_slash [OF assms(2)], of r]
    by (simp add: abs_path_def)
  finally show "prefix ps cs" by (auto simp: prefix_def)
next
  assume "prefix ps cs"
  then obtain qs where "cs = ps @ qs" by (auto simp: prefix_def)
  moreover have "render qs = [] \<or> hd (render qs) = CHR ''/''" by (rule render_hd)
  ultimately show "path_has_prefix_component (abs_path cs) (abs_path ps)"
    using assms(3) by (auto simp: path_has_prefix_component_iff abs_path_def)
qed

lemma prefix_component_root:
  "\<forall>c \<in> set cs. plain_component c \<Longrightarrow> path_has_prefix_component (abs_path cs) ''/'' \<longleftrightarrow> cs = []"
proof (cases cs)
  case Nil
  then show ?thesis by (simp add: path_has_prefix_component_def abs_path_def)
next
  case (Cons c ds)
  moreover assume "\<forall>c \<in> set cs. plain_component c"
  ultimately obtain x xs where "c = x # xs" "x \<noteq> CHR ''/''"
    by (cases c) (auto simp: plain_component_def)
  with Cons show ?thesis by (simp add: path_has_prefix_component_def abs_path_def)
qed

section \<open>Remapping\<close>

lemma remap_path_Some:
  assumes "snprintf_ok api" and "remap_path api cfg orig n = Some out"
  shows "out = g_sandbox_root cfg @ dropWhile is_slash orig \<and> length out < n"
proof -
  let ?text = "g_sandbox_root cfg @ dropWhile is_slash orig"
  obtain k o' where k: "dr_snprintf api n ?text = (k, o')" by (cases "dr_snprintf api n ?text")
  with assms(2) have "k > 0" "k < int n" "out = o'"
    by (auto simp: remap_path_def Let_def split: if_splits)
  moreover have "length ?text < n"
  proof (rule ccontr)
    assume "\<not> length ?text < n"
    with assms(1) have "fst (dr_snprintf api n ?text) < 0 \<or> fst (dr_snprintf api n ?text) = int n"
      unfolding snprintf_ok_def by auto
    with k \<open>k > 0\<close> \<open>k < int n\<close> show False by simp
  qed
  ultimately show ?thesis using snprintf_fits [OF assms(1), of ?text n] k by simp
qed

lemma remap_path_fits:
  assumes "snprintf_ok api" and "g_sandbox_root cfg \<noteq> []"
    and "length (g_sandbox_root cfg @ dropWhile is_slash orig) < n"
  shows "remap_path api cfg orig n = Some (g_sandbox_root cfg @ dropWhile is_slash orig)"
proof -
  define joined where "joined = g_sandbox_root cfg @ dropWhile is_slash orig"
  have "joined \<noteq> []" using assms(2) by (simp add: joined_def)
  then have "0 < int (length joined)" by simp
  moreover have "dr_snprintf api n joined = (int (length joined), joined)"
    using snprintf_fits [OF assms(1,3)] by (simp add: joined_def)
  ultimately show ?thesis
    using assms(3) by (simp add: remap_path_def Let_def flip: joined_def)
qed

lemma session_root_render:
  "session_root sid @ r = render [''tmp'', ''dr-sandbox'', sid] @ CHR ''/'' # r"
  by (simp add: session_root_def SANDBOX_BASE_def)

lemma components_session_path:
  assumes "plain_component sid"
  shows "components (session_root sid @ r) = [''tmp'', ''dr-sandbox'', sid] @ components r"
proof -
  have "\<forall>c \<in> set [''tmp'', ''dr-sandbox'', sid]. c \<noteq> [] \<and> CHR ''/'' \<notin> set c"
    using assms by (simp add: plain_component_def)
  from components_render_append [OF this, of "CHR ''/'' # r"] show ?thesis
    by (simp add: session_root_render)
qed

lemma lexical_resolve_no_up:
  "''..'' \<notin> set ys \<Longrightarrow> foldl resolve_step xs ys = xs @ filter (\<lambda>c. c \<noteq> ''.'') ys"
  by (induction ys arbitrary: xs) (auto simp: resolve_step_def)

lemma parent_dirs_iff:
  "d \<in> set (parent_dirs n p) \<longleftrightarrow> (\<exists>r. p = d @ CHR ''/'' # r \<and> n < length d)"
proof
  assume "d \<in> set (parent_dirs n p)"
  then obtain i where i: "d = take i p" "p ! i = CHR ''/''" "n < i" "i < length p"
    by (auto simp: parent_dirs_def)
  then have "p = d @ CHR ''/'' # drop (Suc i) p" using id_take_nth_drop [OF i(4)] by simp
  with i show "\<exists>r. p = d @ CHR ''/'' # r \<and> n < length d" by auto
next
  assume "\<exists>r. p = d @ CHR ''/'' # r \<and> n < length d"
  then obtain r where "p = d @ CHR ''/'' # r" "n < length d" by blast
  then show "d \<in> set (parent_dirs n p)"
    by (auto simp: parent_dirs_def nth_append intro!: image_eqI [where x = "length d"])
qed

section \<open>Properties\<close>

text \<open>
  C7: On every absolute path with at most 128 components in its first 511 characters, the in-place
  canonicaliser with its work buffer, stack of offsets and bounded output computes exactly the
  lexical resolution of the components (drop \<open>.\<close>, let \<open>..\<close> remove the component before it, stop at
  the root) and renders it with single slashes.
\<close>

theorem canonicalize_path_lexical:
  assumes "path \<noteq> []" and "hd path = CHR ''/''" and "length (components (take 511 path)) \<le> 128"
  shows "canonicalize_path path 512 = abs_path (lexical_resolve (components (take 511 path)))"
  using canonicalize_capped [OF assms(1,2), of 512] capped_resolve_lexical [OF assms(3)] by simp

theorem canonicalize_path_lexical_witness:
  "canonicalize_path ''/tmp/.//x/../../etc/passwd'' 512 = ''/etc/passwd''"
proof -
  have "length (components (take 511 ''/tmp/.//x/../../etc/passwd'')) \<le> 128" by code_simp
  from canonicalize_path_lexical [OF _ _ this]
  have "canonicalize_path ''/tmp/.//x/../../etc/passwd'' 512 =
      abs_path (lexical_resolve (components (take 511 ''/tmp/.//x/../../etc/passwd'')))" by simp
  also have "\<dots> = ''/etc/passwd''" by code_simp
  finally show ?thesis .
qed

text \<open>
  C8: The canonical form of any absolute path is absolute, at most 511 characters long, and made of
  plain components only: no empty component, no \<open>.\<close>, no \<open>..\<close> survives, so a policy test on it
  cannot be steered by traversal sequences. Canonicalising it again changes nothing.
\<close>

theorem canonicalize_path_normal_form:
  assumes "path \<noteq> []" and "hd path = CHR ''/''"
  shows "(\<exists>cs. canonicalize_path path 512 = abs_path cs \<and> (\<forall>c \<in> set cs. plain_component c)) \<and>
    length (canonicalize_path path 512) \<le> 511 \<and>
    canonicalize_path (canonicalize_path path 512) 512 = canonicalize_path path 512"
proof -
  define cs where "cs = capped_resolve (components (take 511 path))"
  have can: "canonicalize_path path 512 = abs_path cs"
    using canonicalize_capped [OF assms, of 512] by (simp add: cs_def)
  have plain: "\<forall>c \<in> set cs. plain_component c"
    unfolding cs_def by (rule capped_resolve_plain)
  have len: "length (abs_path cs) \<le> 511"
    using canonical_copy_length [of path] assms can by (simp add: canonical_copy_def)
  have "canonicalize_path (abs_path cs) 512 = abs_path (capped_resolve (components (abs_path cs)))"
    using canonicalize_capped [of "abs_path cs" 512] len by simp
  also have "\<dots> = abs_path cs"
    using components_abs_path [OF plain_no_slash [OF plain]] fold_capped_plain [OF plain, of "[]"]
    by (simp add: capped_resolve_def)
  finally show ?thesis using can plain len by auto
qed

theorem canonicalize_path_normal_form_witness:
  "canonicalize_path (canonicalize_path ''/a//../b/./c'' 512) 512 = canonicalize_path ''/a//../b/./c'' 512 \<and>
    canonicalize_path ''/a//../b/./c'' 512 = ''/b/c''"
proof
  show "canonicalize_path (canonicalize_path ''/a//../b/./c'' 512) 512 = canonicalize_path ''/a//../b/./c'' 512"
    using canonicalize_path_normal_form [of "''/a//../b/./c''"] by simp
  show "canonicalize_path ''/a//../b/./c'' 512 = ''/b/c''" by code_simp
qed

text \<open>
  C20: In strict mode an absolute path is on the blocklist exactly when its resolution starts with
  one of the fourteen blocked top-level directories, whatever \<open>.\<close>, \<open>..\<close> and repeated slashes the
  path contains; a name that only begins like one of them (\<open>/etcetera\<close>) is not. Resolution is
  \<open>capped_resolve\<close> of the first 511 characters, with the 128-entry stack of the code; up to 128
  components it is lexical resolution.
\<close>

theorem path_is_blocked_iff_top_dir:
  assumes "path \<noteq> []" and "hd path = CHR ''/''"
  shows "path_is_blocked path \<longleftrightarrow>
    (case capped_resolve (components (take 511 path)) of [] \<Rightarrow> False
     | c # _ \<Rightarrow> c \<in> {''proc'', ''sys'', ''etc'', ''dev'', ''run'', ''boot'', ''root'', ''home'',
                  ''var'', ''usr'', ''lib'', ''lib64'', ''bin'', ''sbin''})"
proof -
  define cs where "cs = capped_resolve (components (take 511 path))"
  have can: "canonical_copy path = abs_path cs"
    using canonical_copy_abs [OF assms] by (simp add: cs_def)
  have plain: "\<forall>c \<in> set cs. plain_component c" unfolding cs_def by (rule capped_resolve_plain)
  have top: "path_has_prefix_component (abs_path cs) (CHR ''/'' # c) \<longleftrightarrow> cs \<noteq> [] \<and> hd cs = c"
    if "plain_component c" for c
    using prefix_component_abs [OF plain, of "[c]"] that
    by (cases cs) (auto simp: abs_path_def)
  have "path_is_blocked path \<longleftrightarrow>
      (\<exists>e \<in> set BLOCKED_EXACT. abs_path cs = e) \<or>
      (\<exists>p \<in> set BLOCKED_PREFIXES. path_has_prefix_component (abs_path cs) p)"
    by (simp add: path_is_blocked_def can list_ex_iff path_has_prefix_component_def Let_def)
  also have "\<dots> \<longleftrightarrow> (\<exists>p \<in> set BLOCKED_PREFIXES. path_has_prefix_component (abs_path cs) p)"
  proof -
    have "path_has_prefix_component ''/etc/shadow'' ''/etc''"
      and "path_has_prefix_component ''/proc/self/maps'' ''/proc''"
      and "path_has_prefix_component ''/proc/self/mem'' ''/proc''"
      by (simp_all add: path_has_prefix_component_def)
    then show ?thesis by (auto simp: BLOCKED_EXACT_def BLOCKED_PREFIXES_def)
  qed
  also have "\<dots> \<longleftrightarrow> cs \<noteq> [] \<and> CHR ''/'' # hd cs \<in> set BLOCKED_PREFIXES"
    by (simp add: BLOCKED_PREFIXES_def top plain_component_def) blast
  finally show ?thesis
    by (cases cs) (auto simp: BLOCKED_PREFIXES_def simp flip: cs_def)
qed

theorem path_is_blocked_iff_top_dir_witness:
  "path_is_blocked ''/tmp/..//etc/passwd'' \<and> \<not> path_is_blocked ''/etcetera/x''"
proof -
  have "capped_resolve (components (take 511 ''/tmp/..//etc/passwd'')) = [''etc'', ''passwd'']"
    and "capped_resolve (components (take 511 ''/etcetera/x'')) = [''etcetera'', ''x'']"
    by code_simp+
  then show ?thesis
    using path_is_blocked_iff_top_dir [of "''/tmp/..//etc/passwd''"]
      path_is_blocked_iff_top_dir [of "''/etcetera/x''"] by simp
qed

text \<open>
  C21: A path without \<open>..\<close> components that is joined onto the session root resolves below that root:
  the remapped path is the session directory followed by the components of the original one.
\<close>

theorem remap_path_confined:
  assumes "snprintf_ok api" and "g_sandbox_root cfg = session_root sid" and "plain_component sid"
    and "''..'' \<notin> set (components orig)" and "remap_path api cfg orig 512 = Some out"
  shows "lexical_resolve (components out) =
    [''tmp'', ''dr-sandbox'', sid] @ filter (\<lambda>c. c \<noteq> ''.'') (components orig)"
proof -
  have out: "out = session_root sid @ dropWhile is_slash orig"
    using remap_path_Some [OF assms(1,5)] assms(2) by simp
  have "components out = [''tmp'', ''dr-sandbox'', sid] @ components orig"
    using components_session_path [OF assms(3)] by (simp add: out)
  moreover have "''..'' \<notin> set ([''tmp'', ''dr-sandbox'', sid] @ components orig)"
    using assms(3,4) by (auto simp: plain_component_def)
  ultimately show ?thesis
    using lexical_resolve_no_up [of "components out" "[]"] assms(3)
    by (simp add: lexical_resolve_def plain_component_def)
qed

theorem remap_path_confined_witness:
  "lexical_resolve (components ''/tmp/dr-sandbox/s1/tmp/./a'') = [''tmp'', ''dr-sandbox'', ''s1'', ''tmp'', ''a'']"
proof -
  have c: "components ''tmp/./a'' = [''tmp'', ''.'', ''a'']" by code_simp
  have "remap_path plain_api demo_config ''/tmp/./a'' 512 = Some ''/tmp/dr-sandbox/s1/tmp/./a''"
    by code_simp
  from remap_path_confined [OF _ _ _ _ this, of "''s1''"] show ?thesis
    by (simp add: demo_config_def plain_component_def c)
qed

text \<open>
  C37: The join uses the path as the application wrote it, not its canonical form. A path that
  canonicalises into \<open>/tmp\<close> and is therefore remapped can carry enough \<open>..\<close> components to climb out
  of the session root again: for every session, \<open>/../../../../tmp/x\<close> is a private-write candidate
  and its remapped form resolves to the shared \<open>/tmp/x\<close>.
\<close>

theorem remap_path_escapes_session_root:
  assumes "snprintf_ok api" and "g_sandbox_root cfg = session_root sid" and "plain_component sid"
    and "length sid \<le> 63"
  shows "path_is_private_write_candidate ''/../../../../tmp/x'' \<and>
    (\<exists>out. remap_path api cfg ''/../../../../tmp/x'' 512 = Some out \<and>
       lexical_resolve (components out) = [''tmp'', ''x''])"
proof
  show "path_is_private_write_candidate ''/../../../../tmp/x''" by code_simp
  let ?rel = "''../../../../tmp/x''"
  have "length (g_sandbox_root cfg @ dropWhile is_slash ''/../../../../tmp/x'') < 512"
    using assms(2,4) by (simp add: session_root_def SANDBOX_BASE_def)
  moreover have "g_sandbox_root cfg \<noteq> []"
    using assms(2) by (simp add: session_root_def SANDBOX_BASE_def)
  ultimately have "remap_path api cfg ''/../../../../tmp/x'' 512 = Some (session_root sid @ ?rel)"
    using remap_path_fits [OF assms(1)] assms(2) by simp
  moreover have "components ?rel = [''..'', ''..'', ''..'', ''..'', ''tmp'', ''x'']" by code_simp
  then have "lexical_resolve (components (session_root sid @ ?rel)) = [''tmp'', ''x'']"
    using components_session_path [OF assms(3)] assms(3)
    by (simp add: lexical_resolve_def resolve_step_def plain_component_def)
  ultimately show "\<exists>out. remap_path api cfg ''/../../../../tmp/x'' 512 = Some out \<and>
       lexical_resolve (components out) = [''tmp'', ''x'']" by blast
qed

theorem remap_path_escapes_session_root_witness:
  "\<exists>out. remap_path plain_api demo_config ''/../../../../tmp/x'' 512 = Some out \<and>
     lexical_resolve (components out) = [''tmp'', ''x'']"
  using remap_path_escapes_session_root [of plain_api demo_config "''s1''"]
  by (simp add: demo_config_def plain_component_def)

text \<open>
  The position stack has 128 entries and components pushed beyond them are not recorded, so a
  \<open>..\<close> after the 129th component removes two components: on 129 directories followed by \<open>..\<close> the
  canonicaliser returns 127 of them where resolution gives 128.
\<close>

lemma canonicalize_depth_cap:
  "canonicalize_path (render (replicate 129 ''a'' @ [''..''])) 512 = abs_path (replicate 127 ''a'') \<and>
   lexical_resolve (replicate 129 ''a'' @ [''..'']) = replicate 128 ''a''"
proof
  let ?xs = "replicate 129 ''a''"
  let ?p = "render (?xs @ [''..''])"
  have len: "length ?p = 261" by (simp add: render_def length_concat sum_list_replicate)
  have "components ?p = ?xs @ [''..'']"
    using components_render_append [of "?xs @ [''..'']" "[]"] by simp
  moreover have "foldl capped_step [] ?xs = ?xs"
    using fold_capped_plain [of ?xs "[]"] by (simp add: plain_component_def)
  ultimately have "capped_resolve (components (take 511 ?p)) = take 127 ?xs"
    using len by (simp add: capped_resolve_def capped_step_def)
  moreover have "canonicalize_path ?p 512 = abs_path (capped_resolve (components (take 511 ?p)))"
    by (rule canonicalize_capped) (use len render_hd [of "?xs @ [''..'']"] in auto)
  ultimately show "canonicalize_path ?p 512 = abs_path (replicate 127 ''a'')" by simp
  have "foldl resolve_step [] ?xs = ?xs"
    using lexical_resolve_no_up [of ?xs "[]"] by simp
  then show "lexical_resolve (?xs @ [''..'']) = replicate 128 ''a''"
    by (simp add: lexical_resolve_def resolve_step_def butlast_conv_take)
qed

text \<open>
  \<open>ensure_parent_dirs\<close> asks for exactly the proper parent directories of the remapped path that
  lie below the session root, parents before children, and changes nothing else.
\<close>

lemma ensure_parent_dirs_exact:
  assumes "length path \<le> 511"
  shows "\<exists>ds. ensure_parent_dirs cfg path s = s\<lparr>made_dirs := made_dirs s @ ds\<rparr> \<and>
    (\<forall>d. d \<in> set ds \<longleftrightarrow> (\<exists>r. path = d @ CHR ''/'' # r \<and> length (g_sandbox_root cfg) < length d)) \<and>
    sorted_wrt (\<lambda>a b. length a < length b) ds"
proof (intro exI conjI)
  let ?n = "length (g_sandbox_root cfg)"
  show "ensure_parent_dirs cfg path s = s\<lparr>made_dirs := made_dirs s @ parent_dirs ?n path\<rparr>"
    using assms by (simp add: ensure_parent_dirs_def)
  show "\<forall>d. d \<in> set (parent_dirs ?n path) \<longleftrightarrow> (\<exists>r. path = d @ CHR ''/'' # r \<and> ?n < length d)"
    by (simp add: parent_dirs_iff)
  have "sorted_wrt (<) (filter (\<lambda>i. path ! i = CHR ''/'' \<and> ?n < i) [?n..<length path])"
    by (intro sorted_wrt_filter) simp
  then show "sorted_wrt (\<lambda>a b. length a < length b) (parent_dirs ?n path)"
    unfolding parent_dirs_def sorted_wrt_map
    by (rule sorted_wrt_mono_rel [rotated]) auto
qed

end
