(* ===== verification/Path_Policy.thy ===== *)
theory Path_Policy
  imports Paths
begin

text \<open>
  The path policy and the fd-write policy: the rule parser behind \<open>DR_PATH_POLICY\<close> and
  \<open>DR_FD_WRITE_POLICY\<close> (at most 32 rules, canonicalised prefixes of at most 255 characters), the
  first-match lookups, and the effective policy that falls back to private temp redirection.
\<close>

section \<open>Definitions\<close>

definition path_policy_action_name :: "path_policy_action_t \<Rightarrow> string" where
  "path_policy_action_name a =
     (case a of PATH_POLICY_PASS \<Rightarrow> ''pass'' | PATH_POLICY_READONLY \<Rightarrow> ''readonly''
      | PATH_POLICY_PRIVATE \<Rightarrow> ''private'' | PATH_POLICY_BLOCK \<Rightarrow> ''block''
      | PATH_POLICY_DEFAULT \<Rightarrow> ''default'')"

definition parse_path_policy_action :: "string \<Rightarrow> path_policy_action_t option" where
  "parse_path_policy_action name =
     (if name = ''ro'' \<or> name = ''read'' \<or> name = ''readonly'' then Some PATH_POLICY_READONLY
      else if name = ''rw'' \<or> name = ''pass'' \<or> name = ''allow'' then Some PATH_POLICY_PASS
      else if name = ''private'' \<or> name = ''remap'' then Some PATH_POLICY_PRIVATE
      else if name = ''block'' \<or> name = ''deny'' then Some PATH_POLICY_BLOCK
      else None)"

definition is_rule_separator :: "char \<Rightarrow> bool" where
  "is_rule_separator c =
     (c = CHR '';'' \<or> c = CHR '','' \<or> c = CHR '' '' \<or> c = CHR 0x09 \<or> c = CHR 0x0A)"

definition is_blank :: "char \<Rightarrow> bool" where
  "is_blank c = (c = CHR '' '' \<or> c = CHR 0x09 \<or> c = CHR 0x0A)"

definition in_action :: "char \<Rightarrow> bool" where
  "in_action c = (c \<noteq> CHR '':'' \<and> c \<noteq> CHR ''='')"

definition in_rule_path :: "char \<Rightarrow> bool" where
  "in_rule_path c = (c \<noteq> CHR '';'' \<and> c \<noteq> CHR '','')"

definition trim_right :: "string \<Rightarrow> string" where
  "trim_right p = rev (dropWhile is_blank (rev p))"

text \<open>The struct a rule is stored in: a copy into \<open>raw[256]\<close>, canonicalised when absolute.\<close>

definition make_rule :: "path_policy_action_t \<Rightarrow> string \<Rightarrow> path_policy_rule_t" where
  "make_rule action path =
     (let raw = take 255 path
      in \<lparr>rule_action = action,
          rule_prefix = (if raw \<noteq> [] \<and> hd raw = CHR ''/'' then canonicalize_path raw 256
                         else take 255 raw)\<rparr>)"

function parse_rules_loop :: "string \<Rightarrow> path_policy_rule_t list \<Rightarrow> path_policy_rule_t list" where
  "parse_rules_loop p rules =
     (if p = [] \<or> length rules \<ge> 32 then rules
      else
        let p1 = dropWhile is_rule_separator p;
            action = takeWhile in_action p1;
            p2 = dropWhile in_action p1
        in if p1 = [] then rules
           else if p2 = [] then rules
           else
             let path = trim_right (takeWhile in_rule_path (tl p2))
             in parse_rules_loop (dropWhile in_rule_path (tl p2))
                  (case parse_path_policy_action action of
                     None \<Rightarrow> rules
                   | Some a \<Rightarrow> if path \<noteq> [] then rules @ [make_rule a path] else rules))"
  by pat_completeness auto
termination
proof (relation "measure (\<lambda>(p, rules). length p)", goal_cases)
  case 1
  then show ?case by simp
next
  case (2 p rules p1 action p2 path)
  have "length (dropWhile in_rule_path (tl p2)) \<le> length (tl p2)" by (rule length_dropWhile_le)
  also have "\<dots> < length p2" using 2(6) by (cases p2) auto
  also have "\<dots> \<le> length p1" using 2(4) by (simp add: length_dropWhile_le)
  also have "\<dots> \<le> length p" using 2(2) by (simp add: length_dropWhile_le)
  finally show ?case by simp
qed

declare parse_rules_loop.simps [simp del]

definition parse_path_policy_rules :: "string option \<Rightarrow> path_policy_rule_t list" where
  "parse_path_policy_rules spec = (case spec of None \<Rightarrow> [] | Some sp \<Rightarrow> parse_rules_loop sp [])"

text \<open>The parser of the fd-write rules has the same body over its own array.\<close>

definition parse_fd_write_policy_rules :: "string option \<Rightarrow> path_policy_rule_t list" where
  "parse_fd_write_policy_rules spec = (case spec of None \<Rightarrow> [] | Some sp \<Rightarrow> parse_rules_loop sp [])"

text \<open>The loop over a rule array: the first rule whose prefix covers the canonical path.\<close>

fun scan_path_rules :: "path_policy_rule_t list \<Rightarrow> string \<Rightarrow> path_policy_action_t" where
  "scan_path_rules [] canonical = PATH_POLICY_DEFAULT"
| "scan_path_rules (r # rs) canonical =
     (if path_has_prefix_component canonical (rule_prefix r) then rule_action r
      else scan_path_rules rs canonical)"

definition fd_write_policy_for :: "config \<Rightarrow> string \<Rightarrow> path_policy_action_t" where
  "fd_write_policy_for cfg path =
     (if path = [] \<or> g_fd_write_rules cfg = [] then PATH_POLICY_DEFAULT
      else scan_path_rules (g_fd_write_rules cfg) (canonical_copy path))"

definition configured_path_policy_for :: "config \<Rightarrow> string \<Rightarrow> path_policy_action_t" where
  "configured_path_policy_for cfg path =
     (if g_path_rules cfg = [] then PATH_POLICY_DEFAULT
      else scan_path_rules (g_path_rules cfg) (canonical_copy path))"

definition effective_path_policy_for :: "config \<Rightarrow> string \<Rightarrow> path_policy_action_t" where
  "effective_path_policy_for cfg path =
     (let configured = configured_path_policy_for cfg path
      in if configured \<noteq> PATH_POLICY_DEFAULT then configured
         else if g_redirect_tmp cfg \<and> path_is_private_write_candidate path then PATH_POLICY_PRIVATE
         else PATH_POLICY_PASS)"

text \<open>The text an operator writes for a list of rules.\<close>

definition action_word :: "path_policy_action_t \<Rightarrow> string" where
  "action_word a =
     (case a of PATH_POLICY_PASS \<Rightarrow> ''rw'' | PATH_POLICY_READONLY \<Rightarrow> ''ro''
      | PATH_POLICY_PRIVATE \<Rightarrow> ''private'' | PATH_POLICY_BLOCK \<Rightarrow> ''block''
      | PATH_POLICY_DEFAULT \<Rightarrow> ''default'')"

definition show_rule :: "path_policy_rule_t \<Rightarrow> string" where
  "show_rule r = action_word (rule_action r) @ '':'' @ rule_prefix r"

definition show_rules :: "path_policy_rule_t list \<Rightarrow> string" where
  "show_rules rs = concat (map (\<lambda>r. show_rule r @ '';'') rs)"

text \<open>A rule as the parser stores it: a real action and a canonical prefix in its buffer.\<close>

definition stored_rule :: "path_policy_rule_t \<Rightarrow> bool" where
  "stored_rule r =
     (rule_action r \<noteq> PATH_POLICY_DEFAULT \<and> length (rule_prefix r) \<le> 255 \<and>
      (\<exists>cs. rule_prefix r = abs_path cs \<and> (\<forall>c \<in> set cs. plain_component c)))"

text \<open>A prefix that can be written in a rule list: no separator in it, no blank at its end.\<close>

definition writable_prefix :: "string \<Rightarrow> bool" where
  "writable_prefix p =
     (CHR '';'' \<notin> set p \<and> CHR '','' \<notin> set p \<and> p \<noteq> [] \<and> \<not> is_blank (last p))"

section \<open>Lookup\<close>

interpretation path_rules: rule_table
    "\<lambda>r k. path_has_prefix_component k (rule_prefix r)" rule_action PATH_POLICY_DEFAULT
    scan_path_rules
  by unfold_locales simp_all

lemma configured_path_policy_scan:
  "configured_path_policy_for cfg path = scan_path_rules (g_path_rules cfg) (canonical_copy path)"
  by (simp add: configured_path_policy_for_def)

lemma effective_path_policy_not_default [simp]:
  "effective_path_policy_for cfg path \<noteq> PATH_POLICY_DEFAULT"
  by (simp add: effective_path_policy_for_def Let_def)

lemma parse_action_not_default:
  "parse_path_policy_action n = Some a \<Longrightarrow> a \<noteq> PATH_POLICY_DEFAULT"
  by (auto simp: parse_path_policy_action_def split: if_splits)

lemma make_rule_bounds [buffer_bounds]: "length (rule_prefix (make_rule a p)) \<le> 255"
proof (cases "take 255 p \<noteq> [] \<and> hd (take 255 p) = CHR ''/''")
  case True
  let ?r = "take 255 p"
  have "canonicalize_path ?r 256 = abs_path (capped_resolve (components (take 511 ?r)))"
    using True by (intro canonicalize_capped) auto
  moreover have "length (abs_path (capped_resolve (components (take 511 ?r)))) \<le> length (take 511 ?r)"
    using True by (intro length_abs_capped) auto
  ultimately show ?thesis using True by (simp add: make_rule_def)
next
  case False
  then show ?thesis by (auto simp: make_rule_def)
qed

section \<open>The rule parser\<close>

lemma make_rule_action [simp]: "rule_action (make_rule a p) = a"
  by (simp add: make_rule_def Let_def)

text \<open>Whatever every appended rule keeps holds of the parsed rules.\<close>

lemma parse_rules_loop_invariant:
  assumes "P rules"
    and "\<And>rs name a path. P rs \<Longrightarrow> length rs < 32 \<Longrightarrow> parse_path_policy_action name = Some a \<Longrightarrow>
           P (rs @ [make_rule a path])"
  shows "P (parse_rules_loop p rules)"
  using assms(1)
proof (induction p rules rule: parse_rules_loop.induct)
  case (1 p rules)
  define p1 where "p1 = dropWhile is_rule_separator p"
  define p2 where "p2 = dropWhile in_action p1"
  define rules' where "rules' =
    (case parse_path_policy_action (takeWhile in_action p1) of None \<Rightarrow> rules
     | Some a \<Rightarrow> if trim_right (takeWhile in_rule_path (tl p2)) \<noteq> []
         then rules @ [make_rule a (trim_right (takeWhile in_rule_path (tl p2)))] else rules)"
  show ?case
  proof (cases "(p = [] \<or> length rules \<ge> 32) \<or> p1 = [] \<or> p2 = []")
    case True
    then have "parse_rules_loop p rules = rules"
      by (subst parse_rules_loop.simps) (auto simp: Let_def p1_def p2_def simp del: dropWhile_eq_Nil_conv)
    with "1.prems" show ?thesis by simp
  next
    case False
    then have "parse_rules_loop p rules = parse_rules_loop (dropWhile in_rule_path (tl p2)) rules'"
      by (subst parse_rules_loop.simps)
        (simp add: Let_def rules'_def flip: p1_def p2_def)
    moreover have "P rules'"
      using "1.prems" assms(2) False by (auto simp: rules'_def split: option.splits)
    ultimately show ?thesis
      using "1.IH" [of p1 _ p2] False by (simp add: p1_def p2_def rules'_def del: dropWhile_eq_Nil_conv if_split)
  qed
qed

lemma parse_rules_loop_bound: "length (parse_rules_loop p []) \<le> 32"
  by (rule parse_rules_loop_invariant) auto

lemma parse_rules_loop_stored:
  "\<forall>r \<in> set (parse_rules_loop p []).
     rule_action r \<noteq> PATH_POLICY_DEFAULT \<and> length (rule_prefix r) \<le> 255"
  by (rule parse_rules_loop_invariant) (auto simp: make_rule_bounds dest: parse_action_not_default)

lemma canonicalize_stored:
  assumes "\<forall>c \<in> set cs. plain_component c" and "length (abs_path cs) < n" and "n \<le> 512"
  shows "canonicalize_path (abs_path cs) n = abs_path cs"
proof -
  have "canonicalize_path (abs_path cs) n =
      abs_path (capped_resolve (components (take 511 (abs_path cs))))"
    using assms(2,3) by (intro canonicalize_capped) auto
  then show ?thesis
    using assms components_abs_path [OF plain_no_slash [OF assms(1)]]
      fold_capped_plain [OF assms(1), of "[]"]
    by (simp add: capped_resolve_def)
qed

lemma make_rule_stored:
  assumes "stored_rule r"
  shows "make_rule (rule_action r) (rule_prefix r) = r"
proof -
  obtain cs where cs: "rule_prefix r = abs_path cs" "\<forall>c \<in> set cs. plain_component c"
    and len: "length (rule_prefix r) \<le> 255"
    using assms by (auto simp: stored_rule_def)
  have "canonicalize_path (abs_path cs) 256 = abs_path cs"
    using cs len by (intro canonicalize_stored) auto
  then have "make_rule (rule_action r) (rule_prefix r) =
      \<lparr>rule_action = rule_action r, rule_prefix = rule_prefix r\<rparr>"
    using cs len by (simp add: make_rule_def)
  then show ?thesis by simp
qed

lemma action_word_parse:
  "a \<noteq> PATH_POLICY_DEFAULT \<Longrightarrow> parse_path_policy_action (action_word a) = Some a"
  by (cases a) (simp_all add: action_word_def parse_path_policy_action_def)

lemma action_word_chars:
  "a \<noteq> PATH_POLICY_DEFAULT \<Longrightarrow>
    action_word a \<noteq> [] \<and> \<not> is_rule_separator (hd (action_word a)) \<and> (\<forall>c \<in> set (action_word a). in_action c)"
  by (cases a) (simp_all add: action_word_def is_rule_separator_def in_action_def)

lemma trim_right_writable: "writable_prefix p \<Longrightarrow> trim_right p = p"
  by (cases p rule: rev_cases) (simp_all add: writable_prefix_def trim_right_def)

text \<open>One round of the parser on the text of one rule, a leading separator included.\<close>

lemma parse_rules_loop_step:
  assumes "stored_rule r" and "writable_prefix (rule_prefix r)" and "length rules < 32"
    and "\<forall>c \<in> set sep. is_rule_separator c"
  shows "parse_rules_loop (sep @ show_rule r @ CHR '';'' # rest) rules =
    parse_rules_loop (CHR '';'' # rest) (rules @ [r])"
proof -
  define w where "w = action_word (rule_action r)"
  define q where "q = rule_prefix r @ CHR '';'' # rest"
  have act: "rule_action r \<noteq> PATH_POLICY_DEFAULT" using assms(1) by (simp add: stored_rule_def)
  note w = action_word_chars [OF act, folded w_def]
  have shape: "sep @ show_rule r @ CHR '';'' # rest = sep @ w @ CHR '':'' # q"
    by (simp add: show_rule_def w_def q_def)
  have p1: "dropWhile is_rule_separator (sep @ w @ CHR '':'' # q) = w @ CHR '':'' # q"
    using takeWhile_dropWhile_span [of sep is_rule_separator "w @ CHR '':'' # q"] assms(4) w
    by (simp add: hd_append)
  have p2: "takeWhile in_action (w @ CHR '':'' # q) = w"
      "dropWhile in_action (w @ CHR '':'' # q) = CHR '':'' # q"
    using takeWhile_dropWhile_span [of w in_action "CHR '':'' # q"] w by (auto simp: in_action_def)
  have "\<forall>c \<in> set (rule_prefix r). in_rule_path c"
    using assms(2) by (auto simp: in_rule_path_def writable_prefix_def)
  moreover have "\<not> in_rule_path CHR '';''" by (simp add: in_rule_path_def)
  ultimately have p3: "takeWhile in_rule_path q = rule_prefix r"
      "dropWhile in_rule_path q = CHR '';'' # rest"
    using takeWhile_dropWhile_span [of "rule_prefix r" in_rule_path "CHR '';'' # rest"]
    by (simp_all add: q_def)
  have "parse_rules_loop (sep @ w @ CHR '':'' # q) rules =
      parse_rules_loop (CHR '';'' # rest) (rules @ [make_rule (rule_action r) (rule_prefix r)])"
    using assms(2,3) p1 p2 p3 w
    by (subst parse_rules_loop.simps)
      (simp add: Let_def trim_right_writable action_word_parse [OF act, folded w_def] writable_prefix_def)
  then show ?thesis by (simp add: shape make_rule_stored [OF assms(1)])
qed

lemma parse_rules_loop_blank:
  "\<forall>c \<in> set sep. is_rule_separator c \<Longrightarrow> parse_rules_loop sep rules = rules"
  by (subst parse_rules_loop.simps) (simp add: Let_def)

lemma parse_show_rules:
  "\<forall>r \<in> set rs. stored_rule r \<and> writable_prefix (rule_prefix r) \<Longrightarrow> length rules + length rs \<le> 32 \<Longrightarrow>
    \<forall>c \<in> set sep. is_rule_separator c \<Longrightarrow> parse_rules_loop (sep @ show_rules rs) rules = rules @ rs"
proof (induction rs arbitrary: rules sep)
  case Nil
  then show ?case by (simp add: show_rules_def parse_rules_loop_blank)
next
  case (Cons r rs)
  have "parse_rules_loop (sep @ show_rules (r # rs)) rules =
      parse_rules_loop (sep @ show_rule r @ CHR '';'' # show_rules rs) rules"
    by (simp add: show_rules_def)
  also have "\<dots> = parse_rules_loop (CHR '';'' # show_rules rs) (rules @ [r])"
    using Cons.prems by (intro parse_rules_loop_step) auto
  also have "\<dots> = (rules @ [r]) @ rs"
    using Cons.IH [of "rules @ [r]" "'';''"] Cons.prems by (simp add: is_rule_separator_def)
  finally show ?case by simp
qed

section \<open>Properties\<close>

text \<open>
  C10: For rules with canonical prefixes below the root, the configured policy of an absolute path is
  the action of the first rule whose components are an initial segment of the resolved path, and
  \<open>PATH_POLICY_DEFAULT\<close> when there is none: string prefixes that end inside a component never match
  and traversal sequences do not change the decision. Resolution is \<open>capped_resolve\<close> of the first 511
  characters, with the 128-entry stack of the code; up to 128 components it is lexical resolution.
\<close>

theorem configured_policy_first_covering_rule:
  assumes "path \<noteq> []" and "hd path = CHR ''/''"
    and rules: "\<forall>r \<in> set (g_path_rules cfg). \<exists>ps. rule_prefix r = abs_path ps \<and> ps \<noteq> [] \<and>
           (\<forall>c \<in> set ps. plain_component c)"
  shows "configured_path_policy_for cfg path =
    (case find (\<lambda>r. prefix (components (rule_prefix r)) (capped_resolve (components (take 511 path))))
            (g_path_rules cfg) of
       None \<Rightarrow> PATH_POLICY_DEFAULT
     | Some r \<Rightarrow> rule_action r)"
proof -
  define cs where "cs = capped_resolve (components (take 511 path))"
  have plain: "\<forall>c \<in> set cs. plain_component c" unfolding cs_def by (rule capped_resolve_plain)
  have can: "canonical_copy path = abs_path cs"
    using canonical_copy_abs [OF assms(1,2)] by (simp add: cs_def)
  have "find (\<lambda>r. path_has_prefix_component (abs_path cs) (rule_prefix r)) (g_path_rules cfg) =
      find (\<lambda>r. prefix (components (rule_prefix r)) cs) (g_path_rules cfg)"
  proof (intro find_cong refl)
    fix r assume "r \<in> set (g_path_rules cfg)"
    then obtain ps where ps: "rule_prefix r = abs_path ps" "ps \<noteq> []" "\<forall>c \<in> set ps. plain_component c"
      using rules by blast
    then show "path_has_prefix_component (abs_path cs) (rule_prefix r) =
        prefix (components (rule_prefix r)) cs"
      using prefix_component_abs [OF plain ps(3,2)] components_abs_path [OF plain_no_slash [OF ps(3)]]
      by simp
  qed
  then show ?thesis
    using path_rules.lookup_find [of "g_path_rules cfg" "abs_path cs"]
    by (simp add: configured_path_policy_scan can flip: cs_def)
qed

theorem configured_policy_first_covering_rule_witness:
  "configured_path_policy_for
     (demo_config\<lparr>g_path_rules := [\<lparr>rule_action = PATH_POLICY_READONLY, rule_prefix = ''/data/ref''\<rparr>,
        \<lparr>rule_action = PATH_POLICY_BLOCK, rule_prefix = ''/data''\<rparr>]\<rparr>) ''/x/../data/./secret'' =
   PATH_POLICY_BLOCK"
proof -
  let ?rs = "[\<lparr>rule_action = PATH_POLICY_READONLY, rule_prefix = ''/data/ref''\<rparr>,
        \<lparr>rule_action = PATH_POLICY_BLOCK, rule_prefix = ''/data''\<rparr>]"
  have "\<exists>ps. ''/data/ref'' = abs_path ps \<and> ps \<noteq> [] \<and> (\<forall>c \<in> set ps. plain_component c)"
    by (rule exI [of _ "[''data'', ''ref'']"]) (simp add: abs_path_def plain_component_def)
  moreover have "\<exists>ps. ''/data'' = abs_path ps \<and> ps \<noteq> [] \<and> (\<forall>c \<in> set ps. plain_component c)"
    by (rule exI [of _ "[''data'']"]) (simp add: abs_path_def plain_component_def)
  moreover have "components ''data/ref'' = [''data'', ''ref'']" "components ''data'' = [''data'']"
    "capped_resolve (components ''x/../data/./secret'') = [''data'', ''secret'']"
    by code_simp+
  ultimately show ?thesis
    using configured_policy_first_covering_rule [of "''/x/../data/./secret''"
        "demo_config\<lparr>g_path_rules := ?rs\<rparr>"]
    by (simp add: demo_config_def)
qed

text \<open>
  C11: Writing out stored rules and parsing the text gives the same rules back: for up to 32 rules with
  real actions and canonical prefixes of at most 255 characters (no \<open>;\<close> or \<open>,\<close>, no trailing blank),
  the parsers of \<open>DR_PATH_POLICY\<close> and \<open>DR_FD_WRITE_POLICY\<close> invert the printer.
\<close>

theorem policy_rules_roundtrip:
  assumes "length rs \<le> 32" and "\<forall>r \<in> set rs. stored_rule r \<and> writable_prefix (rule_prefix r)"
  shows "parse_path_policy_rules (Some (show_rules rs)) = rs \<and>
    parse_fd_write_policy_rules (Some (show_rules rs)) = rs"
  using parse_show_rules [of rs "[]" "[]"] assms
  by (simp add: parse_path_policy_rules_def parse_fd_write_policy_rules_def)

theorem policy_rules_roundtrip_witness:
  "parse_path_policy_rules (Some ''ro:/data/ref;block:/secrets;'') =
     [\<lparr>rule_action = PATH_POLICY_READONLY, rule_prefix = ''/data/ref''\<rparr>,
      \<lparr>rule_action = PATH_POLICY_BLOCK, rule_prefix = ''/secrets''\<rparr>]"
proof -
  let ?rs = "[\<lparr>rule_action = PATH_POLICY_READONLY, rule_prefix = ''/data/ref''\<rparr>,
      \<lparr>rule_action = PATH_POLICY_BLOCK, rule_prefix = ''/secrets''\<rparr>]"
  have "\<exists>cs. ''/data/ref'' = abs_path cs \<and> (\<forall>c \<in> set cs. plain_component c)"
    by (rule exI [of _ "[''data'', ''ref'']"]) (simp add: abs_path_def plain_component_def)
  moreover have "\<exists>cs. ''/secrets'' = abs_path cs \<and> (\<forall>c \<in> set cs. plain_component c)"
    by (rule exI [of _ "[''secrets'']"]) (simp add: abs_path_def plain_component_def)
  ultimately have "\<forall>r \<in> set ?rs. stored_rule r \<and> writable_prefix (rule_prefix r)"
    by (simp add: stored_rule_def writable_prefix_def is_blank_def)
  then show ?thesis
    using policy_rules_roundtrip [of ?rs] by (simp add: show_rules_def show_rule_def action_word_def)
qed

text \<open>
  Whatever the operator writes, a policy variable yields at most 32 rules, each with a real action
  and a prefix that fits its 256-byte buffer.
\<close>

lemma parsed_rules_bounded:
  "length (parse_path_policy_rules spec) \<le> 32 \<and>
   (\<forall>r \<in> set (parse_path_policy_rules spec).
      rule_action r \<noteq> PATH_POLICY_DEFAULT \<and> length (rule_prefix r) \<le> 255)"
  using parse_rules_loop_bound parse_rules_loop_stored
  by (cases spec) (simp_all add: parse_path_policy_rules_def)

text \<open>
  A rule for the root directory covers the root alone. With \<open>block:/\<close> as the only rule every
  absolute path that resolves below the root keeps the default policy.
\<close>

lemma root_rule_covers_only_root:
  assumes "path \<noteq> []" and "hd path = CHR ''/''" and "capped_resolve (components (take 511 path)) \<noteq> []"
    and "g_path_rules cfg = parse_path_policy_rules (Some ''block:/'')"
  shows "configured_path_policy_for cfg path = PATH_POLICY_DEFAULT"
proof -
  have "parse_path_policy_rules (Some ''block:/'') =
      [\<lparr>rule_action = PATH_POLICY_BLOCK, rule_prefix = ''/''\<rparr>]" by code_simp
  then show ?thesis
    using assms prefix_component_root [OF capped_resolve_plain]
    by (simp add: configured_path_policy_scan canonical_copy_abs)
qed

end
