(* ===== verification/Network_Policy.thy ===== *)
theory Network_Policy
  imports Path_Policy
begin

text \<open>
  The network policy: the rule parser behind \<open>DR_NETWORK_POLICY\<close> (an action, a host, an optional
  port), the reader of an IPv4 socket address in application memory, and the first-match decision
  for a known or an unknown peer. A port below zero in a rule stands for any port.
\<close>

section \<open>Definitions\<close>

definition bswap16 :: "16 word \<Rightarrow> 16 word" where
  "bswap16 v = drop_bit 8 v OR push_bit 8 v"

text \<open>The cast of a \<open>long\<close> to \<open>int\<close>.\<close>

definition int_of_long :: "int \<Rightarrow> int" where
  "int_of_long n = sint (word_of_int n :: 32 word)"

definition in_net_action :: "char \<Rightarrow> bool" where
  "in_net_action c = (c \<noteq> CHR '':'')"

definition in_net_host :: "char \<Rightarrow> bool" where
  "in_net_host c = (c \<noteq> CHR '':'' \<and> c \<noteq> CHR '';'' \<and> c \<noteq> CHR '','')"

text \<open>The port behind the host, and where the scan continues.\<close>

definition parse_net_port :: "string \<Rightarrow> int \<times> string" where
  "parse_net_port p =
     (case p of [] \<Rightarrow> (- 1, p)
      | c # q \<Rightarrow>
          if c = CHR '':'' then
            (case q of
               d # q' \<Rightarrow>
                 if d = CHR ''*'' then (- 1, q')
                 else (case strtol10 q of None \<Rightarrow> (0, q) | Some (n, r) \<Rightarrow> (int_of_long n, r))
             | [] \<Rightarrow> (0, q))
          else (- 1, p))"

definition make_net_rule :: "string \<Rightarrow> string \<Rightarrow> int \<Rightarrow> network_policy_rule_t" where
  "make_net_rule action host port =
     (let ip = take 63 host
      in \<lparr>net_block = (action = ''block'' \<or> action = ''deny''), net_any_ip = (ip = ''*''),
          net_ip = ip, net_port = port\<rparr>)"

lemma parse_net_port_shrinks: "length (snd (parse_net_port p)) \<le> length p"
  by (auto simp: parse_net_port_def split: list.splits option.splits dest: strtol10_rest)

function parse_network_loop ::
  "string \<Rightarrow> network_policy_rule_t list \<Rightarrow> network_policy_rule_t list" where
  "parse_network_loop p rules =
     (if p = [] \<or> length rules \<ge> 32 then rules
      else
        let p1 = dropWhile is_rule_separator p;
            action = takeWhile in_net_action p1;
            p2 = dropWhile in_net_action p1
        in if p1 = [] then rules
           else if p2 = [] then rules
           else
             let host = takeWhile in_net_host (tl p2);
                 pp = parse_net_port (dropWhile in_net_host (tl p2))
             in parse_network_loop (dropWhile in_rule_path (snd pp))
                  (if host = [] then rules else rules @ [make_net_rule action host (fst pp)]))"
  by pat_completeness auto
termination
proof (relation "measure (\<lambda>(p, rules). length p)", goal_cases)
  case 1
  then show ?case by simp
next
  case (2 p rules p1 action p2 host pp)
  have "length (dropWhile in_rule_path (snd pp)) \<le> length (snd pp)" by (rule length_dropWhile_le)
  also have "\<dots> \<le> length (dropWhile in_net_host (tl p2))"
    using 2(8) parse_net_port_shrinks by simp
  also have "\<dots> \<le> length (tl p2)" by (rule length_dropWhile_le)
  also have "\<dots> < length p2" using 2(6) by (cases p2) auto
  also have "\<dots> \<le> length p1" using 2(4) by (simp add: length_dropWhile_le)
  also have "\<dots> \<le> length p" using 2(2) by (simp add: length_dropWhile_le)
  finally show ?case by simp
qed

declare parse_network_loop.simps [simp del]

definition parse_network_policy_rules :: "string option \<Rightarrow> network_policy_rule_t list" where
  "parse_network_policy_rules spec = (case spec of None \<Rightarrow> [] | Some sp \<Rightarrow> parse_network_loop sp [])"

text \<open>The expansion of \<open>%u.%u.%u.%u\<close>, and the port of two bytes in memory order.\<close>

definition dotted :: "nat \<Rightarrow> nat \<Rightarrow> nat \<Rightarrow> nat \<Rightarrow> string" where
  "dotted a b c d = show_nat a @ ''.'' @ show_nat b @ ''.'' @ show_nat c @ ''.'' @ show_nat d"

definition peer_port :: "nat \<Rightarrow> nat \<Rightarrow> int" where
  "peer_port b2 b3 = uint (bswap16 (word_of_nat (b2 + 256 * b3)))"

text \<open>The peer text, the dotted address and the port; \<open>None\<close> for a false return.\<close>

definition read_ipv4_peer :: "dr_api \<Rightarrow> mem \<Rightarrow> reg_t \<Rightarrow> (string \<times> string \<times> int) option" where
  "read_ipv4_peer api m sockaddr_ptr =
     (case dr_safe_read api m sockaddr_ptr 16 of
        None \<Rightarrow> None
      | Some raw \<Rightarrow>
          let b = (\<lambda>i. of_char (raw ! i) :: nat);
              family = b 0 + 256 * b 1;
              port = peer_port (b 2) (b 3);
              ip = snd (dr_snprintf api 64 (dotted (b 4) (b 5) (b 6) (b 7)));
              peer = snd (dr_snprintf api 96 (ip @ '':'' @ show_int port))
          in if length raw < 16 \<or> family \<noteq> 2 then None else Some (peer, ip, port))"

definition net_rule_matches :: "network_policy_rule_t \<Rightarrow> string \<times> int \<Rightarrow> bool" where
  "net_rule_matches r k =
     ((net_any_ip r \<or> net_ip r = fst k) \<and> (net_port r < 0 \<or> net_port r = snd k))"

fun scan_network_rules :: "bool \<Rightarrow> network_policy_rule_t list \<Rightarrow> string \<times> int \<Rightarrow> bool" where
  "scan_network_rules d [] k = d"
| "scan_network_rules d (r # rs) k =
     (if net_rule_matches r k then net_block r else scan_network_rules d rs k)"

definition network_policy_blocks_peer :: "config \<Rightarrow> string \<Rightarrow> int \<Rightarrow> bool \<Rightarrow> bool" where
  "network_policy_blocks_peer cfg ip port default_block =
     (if g_network_rules cfg = [] then default_block
      else scan_network_rules default_block (g_network_rules cfg) (ip, port))"

definition network_policy_blocks_unknown_peer :: "config \<Rightarrow> bool" where
  "network_policy_blocks_unknown_peer cfg =
     network_policy_blocks_peer cfg ''*'' (- 1) (g_block_network cfg)"

text \<open>
  The bytes of a \<open>struct sockaddr_in\<close>, its port in network byte order; \<open>pad\<close> are the eight bytes of
  \<open>sin_zero\<close>, which may hold anything.
\<close>

definition sockaddr_in :: "nat \<Rightarrow> nat \<Rightarrow> nat \<Rightarrow> nat \<Rightarrow> nat \<Rightarrow> string \<Rightarrow> string" where
  "sockaddr_in port a b c d pad = map char_of [2, 0, port div 256, port mod 256, a, b, c, d] @ pad"

text \<open>The text of network rules and the rules that can be written.\<close>

definition show_net_rule :: "network_policy_rule_t \<Rightarrow> string" where
  "show_net_rule r =
     (if net_block r then ''block'' else ''allow'') @ '':'' @ net_ip r @ '':'' @
     (if net_port r < 0 then ''*'' else show_nat (nat (net_port r)))"

definition show_net_rules :: "network_policy_rule_t list \<Rightarrow> string" where
  "show_net_rules rs = concat (map (\<lambda>r. show_net_rule r @ '';'') rs)"

definition stored_net_rule :: "network_policy_rule_t \<Rightarrow> bool" where
  "stored_net_rule r =
     (net_ip r \<noteq> [] \<and> length (net_ip r) \<le> 63 \<and> (\<forall>c \<in> set (net_ip r). in_net_host c) \<and>
      net_any_ip r = (net_ip r = ''*'') \<and> - 1 \<le> net_port r \<and> net_port r < 2 ^ 31)"

section \<open>Lookup\<close>

interpretation net_rules: rule_table net_rule_matches net_block d "scan_network_rules d" for d
  by unfold_locales simp_all

lemma network_policy_blocks_peer_scan:
  "network_policy_blocks_peer cfg ip port d = scan_network_rules d (g_network_rules cfg) (ip, port)"
  by (simp add: network_policy_blocks_peer_def)

section \<open>The rule parser\<close>

lemma parse_network_loop_invariant:
  assumes "P rules"
    and "\<And>rs action host port. P rs \<Longrightarrow> length rs < 32 \<Longrightarrow> host \<noteq> [] \<Longrightarrow>
           P (rs @ [make_net_rule action host port])"
  shows "P (parse_network_loop p rules)"
  using assms(1)
proof (induction p rules rule: parse_network_loop.induct)
  case (1 p rules)
  define p1 where "p1 = dropWhile is_rule_separator p"
  define p2 where "p2 = dropWhile in_net_action p1"
  define pp where "pp = parse_net_port (dropWhile in_net_host (tl p2))"
  define rules' where "rules' =
    (if takeWhile in_net_host (tl p2) = [] then rules
     else rules @ [make_net_rule (takeWhile in_net_action p1) (takeWhile in_net_host (tl p2)) (fst pp)])"
  show ?case
  proof (cases "(p = [] \<or> length rules \<ge> 32) \<or> p1 = [] \<or> p2 = []")
    case True
    then have "parse_network_loop p rules = rules"
      by (subst parse_network_loop.simps) (auto simp: Let_def p1_def p2_def simp del: dropWhile_eq_Nil_conv)
    with "1.prems" show ?thesis by simp
  next
    case False
    then have "parse_network_loop p rules = parse_network_loop (dropWhile in_rule_path (snd pp)) rules'"
      by (subst parse_network_loop.simps)
        (simp add: Let_def rules'_def flip: p1_def p2_def pp_def)
    moreover have "P rules'" using "1.prems" assms(2) False by (simp add: rules'_def)
    ultimately show ?thesis
      using "1.IH" [of p1 _ p2 _ pp] False
      by (simp add: p1_def p2_def pp_def rules'_def del: dropWhile_eq_Nil_conv)
  qed
qed

lemma int_of_long_id: "0 \<le> n \<Longrightarrow> n < 2 ^ 31 \<Longrightarrow> int_of_long n = n"
  by (simp add: int_of_long_def signed_of_int signed_take_bit_int_eq_self)

lemma parse_net_port_show:
  assumes "- 1 \<le> port" and "port < 2 ^ 31"
  shows "parse_net_port (CHR '':'' # (if port < 0 then ''*'' else show_nat (nat port)) @ CHR '';'' # rest) =
    (port, CHR '';'' # rest)"
proof (cases "port < 0")
  case True
  with assms show ?thesis by (simp add: parse_net_port_def)
next
  case False
  obtain c cs where s: "show_nat (nat port) = c # cs" by (cases "show_nat (nat port)") auto
  then have "c_isdigit c" using show_nat_digits [of c "nat port"] by simp
  then have "c \<noteq> CHR ''*''" by (auto simp: c_isdigit_def)
  moreover have "strtol10 (show_nat (nat port) @ CHR '';'' # rest) = Some (port, CHR '';'' # rest)"
    using strtol10_show_nat [of "nat port" "CHR '';'' # rest"] False assms by (simp add: c_isdigit_def)
  ultimately show ?thesis
    using False s assms by (simp add: parse_net_port_def int_of_long_id)
qed

lemma make_net_rule_stored:
  assumes "stored_net_rule r"
  shows "make_net_rule (if net_block r then ''block'' else ''allow'') (net_ip r) (net_port r) = r"
  using assms by (cases r) (auto simp: make_net_rule_def stored_net_rule_def Let_def)

lemma parse_network_loop_step:
  assumes "stored_net_rule r" and "length rules < 32" and "\<forall>c \<in> set sep. is_rule_separator c"
  shows "parse_network_loop (sep @ show_net_rule r @ CHR '';'' # rest) rules =
    parse_network_loop (CHR '';'' # rest) (rules @ [r])"
proof -
  define w where "w = (if net_block r then ''block'' else ''allow'')"
  define pt where "pt = (if net_port r < 0 then ''*'' else show_nat (nat (net_port r)))"
  define q where "q = net_ip r @ CHR '':'' # pt @ CHR '';'' # rest"
  have w: "w \<noteq> []" "\<not> is_rule_separator (hd w)" "\<forall>c \<in> set w. in_net_action c"
    by (auto simp: w_def is_rule_separator_def in_net_action_def)
  have shape: "sep @ show_net_rule r @ CHR '';'' # rest = sep @ w @ CHR '':'' # q"
    by (simp add: show_net_rule_def w_def q_def pt_def)
  have p1: "dropWhile is_rule_separator (sep @ w @ CHR '':'' # q) = w @ CHR '':'' # q"
    using takeWhile_dropWhile_span [of sep is_rule_separator "w @ CHR '':'' # q"] assms(3) w
    by (simp add: hd_append)
  have p2: "takeWhile in_net_action (w @ CHR '':'' # q) = w"
      "dropWhile in_net_action (w @ CHR '':'' # q) = CHR '':'' # q"
    using takeWhile_dropWhile_span [of w in_net_action "CHR '':'' # q"] w
    by (simp_all add: in_net_action_def)
  have host: "\<forall>c \<in> set (net_ip r). in_net_host c" and ne: "net_ip r \<noteq> []"
    using assms(1) by (auto simp: stored_net_rule_def)
  have "\<not> in_net_host CHR '':''" by (simp add: in_net_host_def)
  with host have p3: "takeWhile in_net_host q = net_ip r"
      "dropWhile in_net_host q = CHR '':'' # pt @ CHR '';'' # rest"
    using takeWhile_dropWhile_span [of "net_ip r" in_net_host "CHR '':'' # pt @ CHR '';'' # rest"]
    by (simp_all add: q_def)
  have port: "parse_net_port (CHR '':'' # pt @ CHR '';'' # rest) = (net_port r, CHR '';'' # rest)"
    using parse_net_port_show [of "net_port r" rest] assms(1) by (simp add: stored_net_rule_def pt_def)
  have "dropWhile in_rule_path (CHR '';'' # rest) = CHR '';'' # rest" by (simp add: in_rule_path_def)
  then have "parse_network_loop (sep @ w @ CHR '':'' # q) rules =
      parse_network_loop (CHR '';'' # rest) (rules @ [make_net_rule w (net_ip r) (net_port r)])"
    using assms(2) p1 p2 p3 port w ne
    by (subst parse_network_loop.simps) (simp add: Let_def)
  then show ?thesis by (simp add: shape w_def make_net_rule_stored [OF assms(1)])
qed

lemma parse_show_net_rules:
  "\<forall>r \<in> set rs. stored_net_rule r \<Longrightarrow> length rules + length rs \<le> 32 \<Longrightarrow>
    \<forall>c \<in> set sep. is_rule_separator c \<Longrightarrow> parse_network_loop (sep @ show_net_rules rs) rules = rules @ rs"
proof (induction rs arbitrary: rules sep)
  case Nil
  then show ?case by (subst parse_network_loop.simps) (simp add: show_net_rules_def Let_def)
next
  case (Cons r rs)
  have "parse_network_loop (sep @ show_net_rules (r # rs)) rules =
      parse_network_loop (sep @ show_net_rule r @ CHR '';'' # show_net_rules rs) rules"
    by (simp add: show_net_rules_def)
  also have "\<dots> = parse_network_loop (CHR '';'' # show_net_rules rs) (rules @ [r])"
    using Cons.prems by (intro parse_network_loop_step) auto
  also have "\<dots> = (rules @ [r]) @ rs"
    using Cons.IH [of "rules @ [r]" "'';''"] Cons.prems by (simp add: is_rule_separator_def)
  finally show ?case by simp
qed

section \<open>Reading a peer\<close>

lemma bswap16_bytes:
  assumes "a < 256" and "b < 256"
  shows "bswap16 (word_of_nat (a + 256 * b)) = word_of_nat (b + 256 * a)"
proof -
  have dj: "(word_of_nat b :: 16 word) AND word_of_nat (256 * a) = 0"
  proof (rule bit_eqI)
    fix i assume "possible_bit TYPE(16 word) i"
    have "bit b i \<Longrightarrow> i < 8"
      using assms(2) take_bit_nat_eq_self [of b 8] bit_take_bit_iff [of 8 b i] by simp
    moreover have "256 * a = push_bit 8 a" by (simp add: push_bit_eq_mult)
    then have "bit (256 * a) i \<Longrightarrow> 8 \<le> i" by (simp add: bit_push_bit_iff_nat)
    ultimately show "bit ((word_of_nat b :: 16 word) AND word_of_nat (256 * a)) i = bit 0 i"
      by (auto simp: bit_and_iff bit_of_nat_iff simp del: of_nat_mult)
  qed
  have "unat (word_of_nat (a + 256 * b) :: 16 word) = a + 256 * b"
    using assms by (simp add: unat_of_nat del: of_nat_add of_nat_mult)
  then have "drop_bit 8 (word_of_nat (a + 256 * b) :: 16 word) = word_of_nat b"
    using assms by (simp add: word_unat_eq_iff unsigned_drop_bit_eq drop_bit_nat_def unat_of_nat
        take_bit_nat_eq_self)
  moreover have "push_bit 8 (word_of_nat (a + 256 * b) :: 16 word) = word_of_nat (256 * a)"
  proof -
    have "push_bit 8 (word_of_nat (a + 256 * b) :: 16 word) = word_of_nat (256 * a + 65536 * b)"
      by (simp add: push_bit_eq_mult algebra_simps)
    also have "\<dots> = word_of_nat (256 * a)" by (simp add: word_unat_eq_iff unat_word_ariths)
    finally show ?thesis .
  qed
  ultimately show ?thesis
    using disjunctive_add_eq_or [OF dj] by (simp add: bswap16_def)
qed

lemma length_sockaddr_in [simp]: "length (sockaddr_in p a b c d pad) = 8 + length pad"
  by (simp add: sockaddr_in_def)

lemma length_show_nat_byte: "n < 1000 \<Longrightarrow> length (show_nat n) \<le> 3"
  by (auto simp: show_nat.simps [of n] show_nat.simps [of "n div 10"] show_nat.simps [of "n div 10 div 10"])

lemma length_dotted: "a < 256 \<Longrightarrow> b < 256 \<Longrightarrow> c < 256 \<Longrightarrow> d < 256 \<Longrightarrow> length (dotted a b c d) \<le> 15"
  using length_show_nat_byte [of a] length_show_nat_byte [of b] length_show_nat_byte [of c]
    length_show_nat_byte [of d] by (simp add: dotted_def)

lemma length_show_int_port: "0 \<le> p \<Longrightarrow> p < 65536 \<Longrightarrow> length (show_int p) \<le> 6"
proof -
  assume p: "0 \<le> p" "p < 65536"
  then have "length (show_nat (nat p div 10 div 10 div 10)) \<le> 3"
    by (intro length_show_nat_byte) linarith
  then have "length (show_nat (nat p)) \<le> 6"
    by (auto simp: show_nat.simps [of "nat p"] show_nat.simps [of "nat p div 10"]
        show_nat.simps [of "nat p div 10 div 10"])
  with p show ?thesis by (simp add: show_int_def)
qed

text \<open>
  Reading a peer inverts the layout of \<open>struct sockaddr_in\<close>; a socket address of another family, or
  unreadable memory, gives no peer.
\<close>

lemma peer_decoded:
  assumes "safe_read_ok api" and "snprintf_ok api"
    and "mem_load m ptr 16 = Some (sockaddr_in port a b c d pad)"
    and "port < 65536" and "a < 256" and "b < 256" and "c < 256" and "d < 256"
  shows "read_ipv4_peer api m ptr =
    Some (dotted a b c d @ '':'' @ show_int (int port), dotted a b c d, int port)"
proof -
  let ?raw = "sockaddr_in port a b c d pad"
  have pad: "length pad = 8" using mem_load_length [OF assms(3)] by simp
  have pq: "port div 256 < 256" using assms(4) by simp
  have bytes: "of_char (?raw ! 0) = (2::nat)" "of_char (?raw ! Suc 0) = (0::nat)"
    "of_char (?raw ! 2) = port div 256" "of_char (?raw ! 3) = port mod 256"
    "of_char (?raw ! 4) = a" "of_char (?raw ! 5) = b" "of_char (?raw ! 6) = c" "of_char (?raw ! 7) = d"
    using assms(5-8) pq by (simp_all add: sockaddr_in_def)
  have "bswap16 (word_of_nat (port div 256 + 256 * (port mod 256))) =
      word_of_nat (port mod 256 + 256 * (port div 256))"
    using pq by (intro bswap16_bytes) auto
  also have "port mod 256 + 256 * (port div 256) = port" by simp
  finally have swap: "peer_port (port div 256) (port mod 256) = int port"
    using assms(4) by (simp add: peer_port_def unsigned_of_nat take_bit_nat_eq_self del: of_nat_add of_nat_mult)
  have ip: "dr_snprintf api 64 (dotted a b c d) = (int (length (dotted a b c d)), dotted a b c d)"
    using length_dotted [OF assms(5-8)] by (intro snprintf_fits [OF assms(2)]) simp
  have peer: "dr_snprintf api 96 (dotted a b c d @ '':'' @ show_int (int port)) =
      (int (length (dotted a b c d @ '':'' @ show_int (int port))),
       dotted a b c d @ '':'' @ show_int (int port))"
    using length_dotted [OF assms(5-8)] length_show_int_port [of "int port"] assms(4)
    by (intro snprintf_fits [OF assms(2)]) simp
  show ?thesis
    using assms(1,3) ip peer
    by (simp add: read_ipv4_peer_def safe_read_ok_def Let_def bytes swap pad)
qed

lemma peer_absent:
  assumes "safe_read_ok api"
    and "case mem_load m ptr 16 of None \<Rightarrow> True | Some raw \<Rightarrow> take 2 raw \<noteq> [CHR 0x02, CHR 0x00]"
  shows "read_ipv4_peer api m ptr = None"
proof (cases "mem_load m ptr 16")
  case (Some raw)
  then have len: "length raw = 16" by (rule mem_load_length)
  then obtain x y rest where raw: "raw = x # y # rest" by (auto simp: numeral_eq_Suc length_Suc_conv)
  with Some assms(2) have "x \<noteq> CHR 0x02 \<or> y \<noteq> CHR 0x00" by auto
  moreover have "of_char CHR 0x02 = (2 :: nat)" "of_char CHR 0x00 = (0 :: nat)" by simp_all
  ultimately have "(of_char x :: nat) \<noteq> 2 \<or> (of_char y :: nat) \<noteq> 0" by (metis of_char_eq_iff)
  moreover have "(of_char x :: nat) < 256" by simp
  ultimately have "(of_char x :: nat) + 256 * of_char y \<noteq> 2" by presburger
  with Some assms(1) raw show ?thesis by (simp add: read_ipv4_peer_def safe_read_ok_def Let_def)
qed (use assms(1) in \<open>simp add: read_ipv4_peer_def safe_read_ok_def\<close>)

section \<open>Properties\<close>

text \<open>
  C28: A known peer is decided by the first rule whose address is \<open>*\<close> or equals the peer's and whose
  port is open or equals the peer's; without such a rule the \<open>DR_NETWORK\<close> default decides. A peer
  that cannot be read (another family, IPv6) is decided by the first any-address, any-port rule only,
  so a rule for one address never opens or closes the network for unreadable peers.
\<close>

theorem network_first_match:
  assumes "\<forall>r \<in> set (g_network_rules cfg). net_any_ip r = (net_ip r = ''*'')"
  shows "network_policy_blocks_peer cfg ip port dflt =
    (case find (\<lambda>r. (net_any_ip r \<or> net_ip r = ip) \<and> (net_port r < 0 \<or> net_port r = port))
       (g_network_rules cfg) of None \<Rightarrow> dflt | Some r \<Rightarrow> net_block r) \<and>
   network_policy_blocks_unknown_peer cfg =
    (case find (\<lambda>r. net_any_ip r \<and> net_port r < 0) (g_network_rules cfg) of
       None \<Rightarrow> g_block_network cfg | Some r \<Rightarrow> net_block r)"
proof
  show "network_policy_blocks_peer cfg ip port dflt =
    (case find (\<lambda>r. (net_any_ip r \<or> net_ip r = ip) \<and> (net_port r < 0 \<or> net_port r = port))
       (g_network_rules cfg) of None \<Rightarrow> dflt | Some r \<Rightarrow> net_block r)"
    using net_rules.lookup_find [of dflt "g_network_rules cfg" "(ip, port)"]
    by (simp add: network_policy_blocks_peer_scan net_rule_matches_def)
  have "find (\<lambda>r. net_rule_matches r (''*'', - 1)) (g_network_rules cfg) =
      find (\<lambda>r. net_any_ip r \<and> net_port r < 0) (g_network_rules cfg)"
    using assms by (intro find_cong) (auto simp: net_rule_matches_def)
  then show "network_policy_blocks_unknown_peer cfg =
    (case find (\<lambda>r. net_any_ip r \<and> net_port r < 0) (g_network_rules cfg) of
       None \<Rightarrow> g_block_network cfg | Some r \<Rightarrow> net_block r)"
    using net_rules.lookup_find [of "g_block_network cfg" "g_network_rules cfg" "(''*'', - 1)"]
    by (simp add: network_policy_blocks_unknown_peer_def network_policy_blocks_peer_scan)
qed

theorem network_first_match_witness:
  "network_policy_blocks_peer
     (demo_config\<lparr>g_network_rules := parse_network_policy_rules (Some ''allow:127.0.0.1:9;block:*'')\<rparr>)
     ''1.1.1.1'' 80 False \<and>
   network_policy_blocks_unknown_peer
     (demo_config\<lparr>g_network_rules := parse_network_policy_rules (Some ''allow:127.0.0.1:9;block:*'')\<rparr>)"
proof -
  let ?rs = "[\<lparr>net_block = False, net_any_ip = False, net_ip = ''127.0.0.1'', net_port = 9\<rparr>,
      \<lparr>net_block = True, net_any_ip = True, net_ip = ''*'', net_port = - 1\<rparr>]"
  have rs: "parse_network_policy_rules (Some ''allow:127.0.0.1:9;block:*'') = ?rs" by code_simp
  show ?thesis
    using network_first_match [of "demo_config\<lparr>g_network_rules := ?rs\<rparr>" "''1.1.1.1''" 80 False]
    by (simp add: rs demo_config_def)
qed

text \<open>
  C27: The parser of \<open>DR_NETWORK_POLICY\<close> inverts the printer on up to 32 rules with a host of at most
  63 characters and a port below \<open>2\<^sup>3\<^sup>1\<close> or open.
\<close>

theorem network_rules_roundtrip:
  assumes "length rs \<le> 32" and "\<forall>r \<in> set rs. stored_net_rule r"
  shows "parse_network_policy_rules (Some (show_net_rules rs)) = rs"
  using parse_show_net_rules [of rs "[]" "[]"] assms by (simp add: parse_network_policy_rules_def)

theorem network_rules_roundtrip_witness:
  "parse_network_policy_rules (Some ''block:10.0.0.1:443;allow:*:*;'') =
     [\<lparr>net_block = True, net_any_ip = False, net_ip = ''10.0.0.1'', net_port = 443\<rparr>,
      \<lparr>net_block = False, net_any_ip = True, net_ip = ''*'', net_port = - 1\<rparr>]"
proof -
  let ?rs = "[\<lparr>net_block = True, net_any_ip = False, net_ip = ''10.0.0.1'', net_port = 443\<rparr>,
      \<lparr>net_block = False, net_any_ip = True, net_ip = ''*'', net_port = - 1\<rparr>]"
  have "show_net_rules ?rs = ''block:10.0.0.1:443;allow:*:*;''" by code_simp
  moreover have "\<forall>r \<in> set ?rs. stored_net_rule r"
    by (simp add: stored_net_rule_def in_net_host_def)
  ultimately show ?thesis using network_rules_roundtrip [of ?rs] by simp
qed

end
