(* ===== verification/Audit_Log.thy ===== *)
theory Audit_Log
  imports Paths
begin

text \<open>
  The JSONL audit writer: bounded appends into a line buffer, JSON string escaping, the four event
  records and their write to the audit file. The content of a line buffer up to its write pointer is
  a string; \<open>lim\<close> is the distance of \<open>end\<close> from the start of the buffer, two bytes before its end.
  \<open>p += dr_snprintf(p, end - p, \<dots>)\<close> is \<open>audit_printf\<close>: a negative return value moves the pointer
  back.
\<close>

section \<open>Definitions\<close>

definition audit_append_raw :: "nat \<Rightarrow> string \<Rightarrow> string \<Rightarrow> string" where
  "audit_append_raw lim p str = p @ take (lim - length p) str"

definition hex_digit :: "nat \<Rightarrow> char" where
  "hex_digit d = (if d < 10 then char_of (48 + d) else char_of (87 + d))"

definition json_escape :: "dr_api \<Rightarrow> char \<Rightarrow> string" where
  "json_escape api c =
     (if c = CHR 0x5C then [CHR 0x5C, CHR 0x5C]
      else if c = CHR 0x22 then [CHR 0x5C, CHR 0x22]
      else if c = CHR 0x0A then [CHR 0x5C, CHR ''n'']
      else if c = CHR 0x0D then [CHR 0x5C, CHR ''r'']
      else if c = CHR 0x09 then [CHR 0x5C, CHR ''t'']
      else if of_char c < (32 :: nat) then
        snd (dr_snprintf api 8
               [CHR 0x5C, CHR ''u'', CHR ''0'', CHR ''0'', hex_digit (of_char c div 16),
                hex_digit (of_char c mod 16)])
      else [c])"

fun audit_json_loop :: "dr_api \<Rightarrow> nat \<Rightarrow> string \<Rightarrow> string \<Rightarrow> string" where
  "audit_json_loop api lim p [] = p"
| "audit_json_loop api lim p (c # cs) =
     (if length p < lim then audit_json_loop api lim (audit_append_raw lim p (json_escape api c)) cs
      else p)"

definition audit_append_json_string :: "dr_api \<Rightarrow> nat \<Rightarrow> string \<Rightarrow> string \<Rightarrow> string" where
  "audit_append_json_string api lim p str =
     (let p1 = (if length p < lim then p @ [CHR 0x22] else p);
          p2 = audit_json_loop api lim p1 str
      in if length p2 < lim then p2 @ [CHR 0x22] else p2)"

definition audit_printf :: "dr_api \<Rightarrow> nat \<Rightarrow> string \<Rightarrow> string \<Rightarrow> string" where
  "audit_printf api lim p txt =
     (let (n, out) = dr_snprintf api (lim - length p) txt
      in if n \<ge> 0 then p @ take (nat n) out else take (length p - nat (- n)) p)"

definition audit_write_line :: "string \<Rightarrow> sandbox \<Rightarrow> sandbox" where
  "audit_write_line line s = s\<lparr>audit_lines := audit_lines s @ [line]\<rparr>"

definition mode_name :: "config \<Rightarrow> string" where
  "mode_name cfg = (case g_mode cfg of MODE_STRICT \<Rightarrow> ''strict'' | MODE_OBSERVE \<Rightarrow> ''observe'')"

text \<open>A double-quoted word followed by a colon, and a quoted constant.\<close>

definition jkey :: "string \<Rightarrow> string" where
  "jkey k = CHR 0x22 # k @ [CHR 0x22, CHR '':'']"

definition jword :: "string \<Rightarrow> string" where
  "jword w = CHR 0x22 # w @ [CHR 0x22]"

definition audit_head :: "dr_api \<Rightarrow> config \<Rightarrow> nat \<Rightarrow> string \<Rightarrow> string \<Rightarrow> string" where
  "audit_head api cfg lim kind key =
     audit_printf api lim
       (audit_append_json_string api lim
          (audit_append_raw lim [] (''{'' @ jkey ''type'' @ jword kind @ '','' @ jkey ''session''))
          (g_session_id cfg))
       ('','' @ jkey ''mode'' @ jword (mode_name cfg) @ '','' @ jkey key)"

definition audit_path_line ::
  "dr_api \<Rightarrow> config \<Rightarrow> string \<Rightarrow> int \<Rightarrow> string \<Rightarrow> string \<Rightarrow> string \<Rightarrow> string" where
  "audit_path_line api cfg action sysnum label path remapped =
     (let lim = 2046;
          p1 = audit_append_json_string api lim (audit_head api cfg lim ''path'' ''action'') action;
          p2 = audit_printf api lim p1 ('','' @ jkey ''syscall'' @ show_int sysnum @ '','' @ jkey ''label'');
          p3 = audit_append_json_string api lim p2 label;
          p4 = audit_append_raw lim p3 ('','' @ jkey ''path'');
          p5 = audit_append_json_string api lim p4 path;
          p6 = (if remapped \<noteq> []
                then audit_append_json_string api lim (audit_append_raw lim p5 ('','' @ jkey ''remapped''))
                       remapped
                else p5)
      in audit_append_raw lim p6 [CHR ''}'', CHR 0x0A])"

definition audit_syscall_line :: "dr_api \<Rightarrow> config \<Rightarrow> string \<Rightarrow> int \<Rightarrow> string" where
  "audit_syscall_line api cfg action sysnum =
     (let lim = 510;
          p1 = audit_append_json_string api lim (audit_head api cfg lim ''syscall'' ''action'') action
      in audit_printf api lim p1 ('','' @ jkey ''syscall'' @ show_int sysnum @ [CHR ''}'', CHR 0x0A]))"

definition audit_resource_line ::
  "dr_api \<Rightarrow> config \<Rightarrow> string \<Rightarrow> string \<Rightarrow> int \<Rightarrow> uint64 \<Rightarrow> uint64 \<Rightarrow> string" where
  "audit_resource_line api cfg name action sysnum used limit =
     (let lim = 766;
          p1 = audit_append_json_string api lim (audit_head api cfg lim ''resource'' ''name'') name;
          p2 = audit_append_raw lim p1 ('','' @ jkey ''action'');
          p3 = audit_append_json_string api lim p2 action
      in audit_printf api lim p3
           ('','' @ jkey ''syscall'' @ show_int sysnum @ '','' @ jkey ''used'' @ show_nat (unat used) @
            '','' @ jkey ''limit'' @ show_nat (unat limit) @ [CHR ''}'', CHR 0x0A]))"

definition audit_semantic_line ::
  "dr_api \<Rightarrow> config \<Rightarrow> string \<Rightarrow> string \<Rightarrow> int \<Rightarrow> int \<Rightarrow> string \<Rightarrow> string \<Rightarrow> string" where
  "audit_semantic_line api cfg name action sysnum fd path peer =
     (let lim = 2046;
          p1 = audit_append_json_string api lim (audit_head api cfg lim ''semantic'' ''name'') name;
          p2 = audit_append_raw lim p1 ('','' @ jkey ''action'');
          p3 = audit_append_json_string api lim p2 action;
          p4 = audit_printf api lim p3 ('','' @ jkey ''syscall'' @ show_int sysnum);
          p5 = (if fd \<ge> 0 then audit_printf api lim p4 ('','' @ jkey ''fd'' @ show_int fd) else p4);
          p6 = (if path \<noteq> []
                then audit_append_json_string api lim (audit_append_raw lim p5 ('','' @ jkey ''path'')) path
                else p5);
          p7 = (if peer \<noteq> []
                then audit_append_json_string api lim (audit_append_raw lim p6 ('','' @ jkey ''peer'')) peer
                else p6)
      in audit_append_raw lim p7 [CHR ''}'', CHR 0x0A])"

text \<open>The events. An absent path, peer or remapped path is the empty string.\<close>

definition audit_path_event ::
  "dr_api \<Rightarrow> config \<Rightarrow> string \<Rightarrow> int \<Rightarrow> string \<Rightarrow> string \<Rightarrow> string \<Rightarrow> sandbox \<Rightarrow> sandbox" where
  "audit_path_event api cfg action sysnum label path remapped s =
     (if \<not> g_audit_jsonl cfg then s
      else audit_write_line (audit_path_line api cfg action sysnum label path remapped) s)"

definition audit_syscall_event :: "dr_api \<Rightarrow> config \<Rightarrow> string \<Rightarrow> int \<Rightarrow> sandbox \<Rightarrow> sandbox" where
  "audit_syscall_event api cfg action sysnum s =
     (if \<not> g_audit_jsonl cfg then s
      else audit_write_line (audit_syscall_line api cfg action sysnum) s)"

definition audit_resource_event ::
  "dr_api \<Rightarrow> config \<Rightarrow> string \<Rightarrow> string \<Rightarrow> int \<Rightarrow> uint64 \<Rightarrow> uint64 \<Rightarrow> sandbox \<Rightarrow> sandbox" where
  "audit_resource_event api cfg name action sysnum used limit s =
     (if \<not> g_audit_jsonl cfg then s
      else audit_write_line (audit_resource_line api cfg name action sysnum used limit) s)"

definition audit_semantic_event ::
  "dr_api \<Rightarrow> config \<Rightarrow> string \<Rightarrow> string \<Rightarrow> int \<Rightarrow> int \<Rightarrow> string \<Rightarrow> string \<Rightarrow> sandbox \<Rightarrow> sandbox" where
  "audit_semantic_event api cfg name action sysnum fd path peer s =
     (if \<not> g_semantic_audit cfg then s
      else audit_write_line (audit_semantic_line api cfg name action sysnum fd path peer) s)"

text \<open>
  The reader's side, after the JSON grammar: scanning a string from behind its opening quote. An
  unescaped quote ends the string, control characters and unknown escapes are errors, and an escape
  \<open>\u\<close> takes four hexadecimal digits (here of a one-byte character). The result is the string with
  what follows its closing quote.
\<close>

definition json_hex :: "char \<Rightarrow> nat option" where
  "json_hex c =
     (let n = of_char c in
      if 48 \<le> n \<and> n \<le> 57 then Some (n - 48)
      else if 97 \<le> n \<and> n \<le> 102 then Some (n - 87)
      else if 65 \<le> n \<and> n \<le> 70 then Some (n - 55)
      else None)"

definition json_code :: "char \<Rightarrow> char \<Rightarrow> char \<Rightarrow> char \<Rightarrow> char option" where
  "json_code a b c d =
     (case (json_hex a, json_hex b, json_hex c, json_hex d) of
        (Some 0, Some 0, Some x, Some y) \<Rightarrow> if x < 8 then Some (char_of (16 * x + y)) else None
      | _ \<Rightarrow> None)"

definition json_short_escapes :: "(char \<times> char) list" where
  "json_short_escapes =
     [(CHR 0x22, CHR 0x22), (CHR 0x5C, CHR 0x5C), (CHR ''/'', CHR ''/''), (CHR ''b'', CHR 0x08),
      (CHR ''f'', CHR 0x0C), (CHR ''n'', CHR 0x0A), (CHR ''r'', CHR 0x0D), (CHR ''t'', CHR 0x09)]"

fun json_scan :: "string \<Rightarrow> (string \<times> string) option" where
  "json_scan [] = None"
| "json_scan (c # cs) =
     (if c = CHR 0x22 then Some ([], cs)
      else if of_char c < (32 :: nat) then None
      else if c \<noteq> CHR 0x5C then map_option (apfst ((#) c)) (json_scan cs)
      else case cs of
        [] \<Rightarrow> None
      | d # ds \<Rightarrow>
          if d = CHR ''u'' then
            (case ds of
               a # b # x # y # es \<Rightarrow>
                 (case json_code a b x y of None \<Rightarrow> None
                  | Some ch \<Rightarrow> map_option (apfst ((#) ch)) (json_scan es))
             | _ \<Rightarrow> None)
          else case map_of json_short_escapes d of None \<Rightarrow> None
               | Some ch \<Rightarrow> map_option (apfst ((#) ch)) (json_scan ds))"

definition json_body :: "dr_api \<Rightarrow> string \<Rightarrow> string" where
  "json_body api str = concat (map (json_escape api) str)"

text \<open>The path record a line buffer of any length would hold.\<close>

definition quoted :: "dr_api \<Rightarrow> string \<Rightarrow> string" where
  "quoted api str = CHR 0x22 # json_body api str @ [CHR 0x22]"

definition path_record ::
  "dr_api \<Rightarrow> config \<Rightarrow> string \<Rightarrow> int \<Rightarrow> string \<Rightarrow> string \<Rightarrow> string \<Rightarrow> string" where
  "path_record api cfg action sysnum label path remapped =
     ''{'' @ jkey ''type'' @ jword ''path'' @ '','' @ jkey ''session'' @ quoted api (g_session_id cfg) @
     '','' @ jkey ''mode'' @ jword (mode_name cfg) @ '','' @ jkey ''action'' @ quoted api action @
     '','' @ jkey ''syscall'' @ show_int sysnum @ '','' @ jkey ''label'' @ quoted api label @
     '','' @ jkey ''path'' @ quoted api path @
     (if remapped \<noteq> [] then '','' @ jkey ''remapped'' @ quoted api remapped else []) @
     [CHR ''}'', CHR 0x0A]"

definition demo_audit :: config where
  "demo_audit = demo_config\<lparr>g_audit_jsonl := True, g_semantic_audit := True\<rparr>"

section \<open>Frame\<close>

text \<open>An audit event appends at most one line and touches nothing else.\<close>

lemma audit_events_frame [frame_simps]:
  "audit_path_event api cfg a n l p r s =
     s\<lparr>audit_lines := audit_lines s @ (if g_audit_jsonl cfg then [audit_path_line api cfg a n l p r] else [])\<rparr>"
  "audit_syscall_event api cfg a n s =
     s\<lparr>audit_lines := audit_lines s @ (if g_audit_jsonl cfg then [audit_syscall_line api cfg a n] else [])\<rparr>"
  "audit_resource_event api cfg nm a n u l' s =
     s\<lparr>audit_lines := audit_lines s @
         (if g_audit_jsonl cfg then [audit_resource_line api cfg nm a n u l'] else [])\<rparr>"
  "audit_semantic_event api cfg nm a n fd p pe s =
     s\<lparr>audit_lines := audit_lines s @
         (if g_semantic_audit cfg then [audit_semantic_line api cfg nm a n fd p pe] else [])\<rparr>"
  by (simp_all add: audit_path_event_def audit_syscall_event_def audit_resource_event_def
      audit_semantic_event_def audit_write_line_def)

section \<open>Bounds\<close>

lemma length_append_raw: "length p \<le> lim \<Longrightarrow> length (audit_append_raw lim p str) \<le> lim"
  by (simp add: audit_append_raw_def)

lemma length_json_loop: "length p \<le> lim \<Longrightarrow> length (audit_json_loop api lim p str) \<le> lim"
  by (induction str arbitrary: p) (simp_all add: length_append_raw)

lemma length_append_json: "length p \<le> lim \<Longrightarrow> length (audit_append_json_string api lim p str) \<le> lim"
  using length_json_loop [of "p @ [CHR 0x22]" lim api str] length_json_loop [of p lim api str]
  by (auto simp: audit_append_json_string_def Let_def)

lemma length_printf:
  assumes "snprintf_ok api" and "length p \<le> lim"
  shows "length (audit_printf api lim p txt) \<le> lim"
proof -
  obtain n out where sn: "dr_snprintf api (lim - length p) txt = (n, out)" by fastforce
  have "length (snd (dr_snprintf api (lim - length p) txt)) \<le> lim - length p"
    using assms(1) unfolding snprintf_ok_def by blast
  with sn assms(2) show ?thesis by (auto simp: audit_printf_def Let_def)
qed

lemmas length_audit [buffer_bounds] = length_append_raw length_append_json length_printf

lemma length_audit_head [buffer_bounds]:
  "snprintf_ok api \<Longrightarrow> length (audit_head api cfg lim k key) \<le> lim"
  by (simp add: audit_head_def length_audit)

section \<open>Truncation\<close>

text \<open>Every append is the concatenation, cut at the limit.\<close>

lemma append_raw_take: "length p \<le> lim \<Longrightarrow> audit_append_raw lim p str = take lim (p @ str)"
  by (simp add: audit_append_raw_def)

lemma json_loop_take:
  "length p \<le> lim \<Longrightarrow> audit_json_loop api lim p str = take lim (p @ json_body api str)"
proof (induction str arbitrary: p)
  case Nil
  then show ?case by (simp add: json_body_def)
next
  case (Cons c cs)
  show ?case
  proof (cases "length p < lim")
    case True
    let ?q = "take lim (p @ json_escape api c)"
    have "audit_json_loop api lim p (c # cs) = take lim (?q @ json_body api cs)"
      using True Cons.IH [of ?q] by (simp add: append_raw_take)
    also have "\<dots> = take lim ((p @ json_escape api c) @ json_body api cs)"
      by (simp add: min_def)
    finally show ?thesis by (simp add: json_body_def)
  next
    case False
    with Cons.prems show ?thesis by simp
  qed
qed

lemma append_json_take:
  "length p \<le> lim \<Longrightarrow> audit_append_json_string api lim p str = take lim (p @ quoted api str)"
  using json_loop_take [of "p @ [CHR 0x22]" lim api str] json_loop_take [of p lim api str]
  by (auto simp: audit_append_json_string_def Let_def quoted_def take_Cons' not_less min_def
      split: if_splits)

lemma printf_fits:
  "snprintf_ok api \<Longrightarrow> length p + length str < lim \<Longrightarrow> audit_printf api lim p str = p @ str"
  by (simp add: audit_printf_def snprintf_fits)

lemma take_lim_append: "take lim (take lim x @ y) = take lim (x @ y)"
  by (simp add: min_def)

section \<open>Escapes\<close>

lemma json_escape_unicode:
  "snprintf_ok api \<Longrightarrow>
   snd (dr_snprintf api 8 [a, b, c, d, e, f]) = [a, b, c, d, e, f]"
  by (simp add: snprintf_fits)

lemma json_escape_cases:
  assumes "snprintf_ok api"
  obtains (plain) "json_escape api c = [c]" "c \<noteq> CHR 0x5C" "c \<noteq> CHR 0x22" "of_char c \<ge> (32 :: nat)"
  | (self) "json_escape api c = [CHR 0x5C, c]" "c = CHR 0x5C \<or> c = CHR 0x22"
  | (letter) d where "json_escape api c = [CHR 0x5C, d]"
      "(c, d) \<in> {(CHR 0x0A, CHR ''n''), (CHR 0x0D, CHR ''r''), (CHR 0x09, CHR ''t'')}"
  | (hex) n where "json_escape api c =
      [CHR 0x5C, CHR ''u'', CHR ''0'', CHR ''0'', hex_digit (n div 16), hex_digit (n mod 16)]"
      "n < 32" "c = char_of n"
proof -
  consider "c \<in> {CHR 0x5C, CHR 0x22}" | "c \<in> {CHR 0x0A, CHR 0x0D, CHR 0x09}"
    | "c \<notin> {CHR 0x5C, CHR 0x22, CHR 0x0A, CHR 0x0D, CHR 0x09}" "of_char c < (32 :: nat)"
    | "c \<notin> {CHR 0x5C, CHR 0x22, CHR 0x0A, CHR 0x0D, CHR 0x09}" "of_char c \<ge> (32 :: nat)"
    by fastforce
  then show ?thesis
  proof cases
    case 1
    then show ?thesis using self by (auto simp: json_escape_def)
  next
    case 2
    then show ?thesis using letter by (auto simp: json_escape_def)
  next
    case 3
    then show ?thesis
      using hex [of "of_char c"] assms by (auto simp: json_escape_def json_escape_unicode)
  next
    case 4
    then show ?thesis using plain by (auto simp: json_escape_def)
  qed
qed

lemma hex_digit_read:
  "d < 16 \<Longrightarrow> of_char (hex_digit d) \<ge> (48 :: nat) \<and> json_hex (hex_digit d) = Some d"
  by (auto simp: hex_digit_def json_hex_def Let_def)

lemma json_scan_escape:
  assumes "snprintf_ok api"
  shows "json_scan (json_escape api c @ rest) = map_option (apfst ((#) c)) (json_scan rest)"
  using assms
proof (cases rule: json_escape_cases [where c = c])
  case (hex n)
  moreover from this have "n div 16 < 8" by simp
  moreover have "json_hex (CHR ''0'') = Some 0" by (simp add: json_hex_def)
  ultimately show ?thesis
    using hex_digit_read [of "n div 16"] hex_digit_read [of "n mod 16"] by (simp add: json_code_def)
qed (use assms in \<open>auto simp: json_short_escapes_def\<close>)

lemma json_escape_printable:
  assumes "snprintf_ok api" and "x \<in> set (json_escape api c)"
  shows "of_char x \<ge> (32 :: nat)"
  using assms(1)
proof (cases rule: json_escape_cases [where c = c])
  case (hex n)
  then have "n div 16 < 16" by linarith
  with hex show ?thesis
    using assms(2) hex_digit_read [of "n div 16"] hex_digit_read [of "n mod 16"] by auto
qed (use assms(2) in auto)

lemma length_json_escape:
  assumes "snprintf_ok api"
  shows "length (json_escape api c) \<le> 6"
  using assms by (cases rule: json_escape_cases [where c = c]) auto

lemma length_json_body: "snprintf_ok api \<Longrightarrow> length (json_body api str) \<le> 6 * length str"
proof (induction str)
  case Nil
  then show ?case by (simp add: json_body_def)
next
  case (Cons c cs)
  with length_json_escape [of api c] show ?case by (simp add: json_body_def)
qed

lemma json_body_printable:
  "snprintf_ok api \<Longrightarrow> x \<in> set (json_body api str) \<Longrightarrow> of_char x \<ge> (32 :: nat)"
  by (auto simp: json_body_def dest: json_escape_printable)

lemma json_scan_body:
  assumes "snprintf_ok api"
  shows "json_scan (json_body api str @ CHR 0x22 # rest) = Some (str, rest)"
proof (induction str)
  case (Cons c cs)
  have "json_body api (c # cs) = json_escape api c @ json_body api cs" by (simp add: json_body_def)
  with Cons show ?case by (simp add: json_scan_escape [OF assms])
qed (simp add: json_body_def)

section \<open>The path record\<close>

lemma length_show_int: "- 1000 < n \<Longrightarrow> n < 1000 \<Longrightarrow> length (show_int n) \<le> 4"
  by (auto simp: show_int_def show_nat.simps)

lemma length_quoted: "snprintf_ok api \<Longrightarrow> length (quoted api str) \<le> 2 + 6 * length str"
  using length_json_body [of api str] by (simp add: quoted_def)

lemma mode_name_length: "length (mode_name cfg) \<le> 7"
  by (cases "g_mode cfg") (simp_all add: mode_name_def)

lemma audit_head_fits:
  assumes "snprintf_ok api" and "length (g_session_id cfg) \<le> 63"
    and "length kind + length key \<le> 20" and "lim \<ge> 510"
  shows "audit_head api cfg lim kind key =
      ''{'' @ jkey ''type'' @ jword kind @ '','' @ jkey ''session'' @ quoted api (g_session_id cfg) @
      '','' @ jkey ''mode'' @ jword (mode_name cfg) @ '','' @ jkey key"
proof -
  have "length (quoted api (g_session_id cfg)) \<le> 380"
    using length_quoted [OF assms(1), of "g_session_id cfg"] assms(2) by linarith
  with assms mode_name_length [of cfg] show ?thesis
    by (simp add: audit_head_def append_raw_take append_json_take printf_fits jkey_def jword_def)
qed

lemma audit_path_line_cut:
  assumes "snprintf_ok api" and "length (g_session_id cfg) \<le> 63"
    and "length action \<le> 64" and "length label \<le> 64" and "- 1000 < sysnum" and "sysnum < 1000"
  shows "audit_path_line api cfg action sysnum label path remapped =
         take 2046 (path_record api cfg action sysnum label path remapped)"
proof -
  define h where "h = audit_head api cfg 2046 ''path'' ''action''"
  have h: "h = ''{'' @ jkey ''type'' @ jword ''path'' @ '','' @ jkey ''session'' @
      quoted api (g_session_id cfg) @ '','' @ jkey ''mode'' @ jword (mode_name cfg) @ '','' @ jkey ''action''"
    unfolding h_def by (rule audit_head_fits) (use assms in simp_all)
  have len: "length (quoted api (g_session_id cfg)) \<le> 380" "length (quoted api action) \<le> 386"
    "length (quoted api label) \<le> 386" "length (show_int sysnum) \<le> 4" "length (mode_name cfg) \<le> 7"
    using length_quoted [OF assms(1), of "g_session_id cfg"] length_quoted [OF assms(1), of action]
      length_quoted [OF assms(1), of label] length_show_int [OF assms(5,6)] mode_name_length [of cfg]
      assms(2-4)
    by linarith+
  then have lh: "length h \<le> 460" by (simp add: h jkey_def jword_def)
  let ?q = "h @ quoted api action @ '','' @ jkey ''syscall'' @ show_int sysnum @ '','' @ jkey ''label'' @
      quoted api label @ '','' @ jkey ''path''"
  have room: "length ?q \<le> 2046" using lh len by (simp add: jkey_def)
  have q: "audit_append_raw 2046 (audit_append_json_string api 2046 (audit_printf api 2046
      (audit_append_json_string api 2046 h action)
      ('','' @ jkey ''syscall'' @ show_int sysnum @ '','' @ jkey ''label'')) label) ('','' @ jkey ''path'') = ?q"
    using assms(1) lh len by (simp add: append_raw_take append_json_take printf_fits jkey_def)
  show ?thesis
    unfolding audit_path_line_def Let_def h_def [symmetric] q
    using room
    by (simp only: append_raw_take append_json_take take_lim_append length_take min.cobounded2
        min.cobounded1 path_record_def h if_distrib [of "take 2046"] split: if_splits)
       (simp add: min_def)
qed

lemma record_newline:
  assumes "snprintf_ok api"
  shows "CHR 0x0A \<notin> set (butlast (path_record api cfg action sysnum label path remapped))"
proof -
  have b: "CHR 0x0A \<notin> set (quoted api str)" for str
    using json_body_printable [OF assms, of "CHR 0x0A" str] by (auto simp: quoted_def)
  have "CHR 0x0A \<notin> set (show_int sysnum)" "CHR 0x0A \<notin> set (mode_name cfg)"
    by (auto simp: show_int_def mode_name_def c_isdigit_def dest: show_nat_digits
        split: sandbox_mode_t.splits)
  with b show ?thesis by (simp add: path_record_def butlast_append jkey_def jword_def)
qed

lemma last_in_take:
  assumes "xs \<noteq> []" and "last xs = c" and "c \<notin> set (butlast xs)"
  shows "c \<in> set (take n xs) \<longleftrightarrow> length xs \<le> n"
proof (cases xs rule: rev_cases)
  case (snoc ys y)
  with assms have "y = c" "c \<notin> set (take n ys)" by (auto dest: in_set_takeD)
  with snoc show ?thesis by (cases "n - length ys") auto
qed (use assms in simp)

lemma newline_in_cut_record:
  assumes "snprintf_ok api"
  shows "CHR 0x0A \<in> set (take n (path_record api cfg action sysnum label path remapped)) \<longleftrightarrow>
         length (path_record api cfg action sysnum label path remapped) \<le> n"
  by (rule last_in_take [OF _ _ record_newline [OF assms]]) (simp_all add: path_record_def)

section \<open>Properties\<close>

lemma audit_lines_fit_buffers_facts:
  assumes "snprintf_ok api"
  shows "length (audit_path_line api cfg action n label path remapped) \<le> 2048 - 2"
    and "length (audit_syscall_line api cfg action n) \<le> 512 - 2"
    and "length (audit_resource_line api cfg name action n used limit) \<le> 768 - 2"
    and "length (audit_semantic_line api cfg name action n fd path peer) \<le> 2048 - 2"
  using assms
  by (simp_all add: audit_path_line_def audit_syscall_line_def audit_resource_line_def
      audit_semantic_line_def Let_def buffer_bounds)

text \<open>
  C24: No audit record can overrun its line buffer. Whatever the session id, the labels and the
  application-controlled path or peer are, and even when \<open>dr_snprintf\<close> runs out of room, the write
  pointer stays at most two bytes before the end of the 2048, 512 and 768 byte buffers, so the final
  terminator is in range.
\<close>
theorem audit_lines_fit_buffers:
  assumes "snprintf_ok api"
  shows "length (audit_path_line api cfg action n label path remapped) \<le> 2048 - 2 \<and>
    length (audit_syscall_line api cfg action n) \<le> 512 - 2 \<and>
    length (audit_resource_line api cfg name action n used limit) \<le> 768 - 2 \<and>
    length (audit_semantic_line api cfg name action n fd path peer) \<le> 2048 - 2"
  by (intro conjI audit_lines_fit_buffers_facts [OF assms])

theorem audit_lines_fit_buffers_witness:
  "length (audit_path_line plain_api demo_audit ''block'' 2 ''open''
     (replicate 511 (CHR 0x01)) ''/tmp/x'') \<le> 2048 - 2"
  using audit_lines_fit_buffers [OF plain_api_ok(1), of demo_audit "''block''" 2 "''open''"
      "replicate 511 (CHR 0x01)" "''/tmp/x''"] by simp

text \<open>
  C22: JSON strings are escaped losslessly and cannot break out of their quotes. With room left in the
  buffer a string is appended between double quotes; a strict JSON reader that starts behind the
  opening quote stops exactly at the closing quote the client wrote, whatever follows it, and has read
  the string (so an unescaped quote, an unknown escape or a control character in the body is
  excluded), and the body has no control character, so an application path cannot inject a line break.
\<close>
theorem json_string_roundtrip:
  assumes "snprintf_ok api" and "length p + 6 * length str + 2 \<le> lim"
  shows "\<exists>body. audit_append_json_string api lim p str = p @ [CHR 0x22] @ body @ [CHR 0x22] \<and>
           (\<forall>rest. json_scan (body @ CHR 0x22 # rest) = Some (str, rest)) \<and>
           \<not> (\<exists>x \<in> set body. of_char x < (32 :: nat))"
proof -
  have "length (p @ quoted api str) \<le> lim"
    using assms length_quoted [of api str] by simp
  then have "audit_append_json_string api lim p str = p @ quoted api str"
    by (simp add: append_json_take)
  then show ?thesis
    using json_scan_body [OF assms(1), of str] json_body_printable [OF assms(1)]
    by (force simp: quoted_def not_less)
qed

theorem json_string_roundtrip_witness:
  "\<exists>body. audit_append_json_string plain_api 100 ''x'' [CHR 0x22, CHR 0x0A, CHR 0x01, CHR ''a''] =
       ''x'' @ [CHR 0x22] @ body @ [CHR 0x22] \<and>
     json_scan (body @ CHR 0x22 # '',next'') = Some ([CHR 0x22, CHR 0x0A, CHR 0x01, CHR ''a''], '',next'')"
  using json_string_roundtrip [OF plain_api_ok(1), of "''x''" "[CHR 0x22, CHR 0x0A, CHR 0x01, CHR ''a'']" 100]
  by fastforce

lemma audit_path_line_terminated_iff_facts:
  assumes "snprintf_ok api" and "length (g_session_id cfg) \<le> 63"
    and "length action \<le> 64" and "length label \<le> 64" and "- 1000 < n" and "n < 1000"
  shows "audit_path_line api cfg action n label path remapped =
           take 2046 (path_record api cfg action n label path remapped)"
    and "CHR 0x0A \<in> set (audit_path_line api cfg action n label path remapped) \<longleftrightarrow>
         length (path_record api cfg action n label path remapped) \<le> 2046"
  using audit_path_line_cut [OF assms] newline_in_cut_record [OF assms(1)] by simp_all

text \<open>
  C23: A path record is the complete JSON object or a prefix of it. For the session ids and labels the
  client uses, the line written is the record cut at 2046 bytes, and it holds a line break (then its
  last character) exactly when the record was not cut. So a long path whose characters are escaped
  runs two records of the JSONL file into one line.
\<close>
theorem audit_path_line_terminated_iff:
  assumes "snprintf_ok api" and "length (g_session_id cfg) \<le> 63"
    and "length action \<le> 64" and "length label \<le> 64" and "- 1000 < n" and "n < 1000"
  shows "audit_path_line api cfg action n label path remapped =
           take 2046 (path_record api cfg action n label path remapped) \<and>
    (CHR 0x0A \<in> set (audit_path_line api cfg action n label path remapped) \<longleftrightarrow>
         length (path_record api cfg action n label path remapped) \<le> 2046)"
  using audit_path_line_terminated_iff_facts [OF assms] by blast

theorem audit_path_line_terminated_iff_witness:
  "CHR 0x0A \<notin> set (audit_path_line plain_api demo_audit ''block'' 2 ''open''
     (replicate 511 (CHR 0x01)) [])"
proof -
  have "length (json_body plain_api (replicate 511 (CHR 0x01))) = 3066"
    by (simp add: json_body_def json_escape_def plain_api_def length_concat sum_list_replicate)
  then have "length (path_record plain_api demo_audit ''block'' 2 ''open'' (replicate 511 (CHR 0x01)) []) > 2046"
    by (simp add: path_record_def quoted_def)
  then show ?thesis
    using audit_path_line_terminated_iff [OF plain_api_ok(1), THEN conjunct2, of demo_audit "''block''" "''open''" 2
        "replicate 511 (CHR 0x01)" "[]"]
    by (simp add: demo_audit_def demo_config_def)
qed

end
