(* ===== verification/Fd_Shadow.thy ===== *)
theory Fd_Shadow
  imports Audit_Log
begin

text \<open>
  The shadow of the application's descriptor table: 1024 entries recording the path a descriptor was
  opened with and whether writes to it are blocked; recognition of \<open>/proc/self/fd/N\<close> paths; and
  copying entries for the \<open>dup\<close> family. The interface \<open>fd_table\<close> states what the syscall handlers
  rely on and follows an entry through sequences of copies.
\<close>

section \<open>Operations\<close>

abbreviation (input) fd_in_range :: "int \<Rightarrow> bool" where "fd_in_range fd \<equiv> 0 \<le> fd \<and> fd < 1024"

definition fd_shadow_clear :: "int \<Rightarrow> sandbox \<Rightarrow> sandbox" where
  "fd_shadow_clear fd s =
     (if fd \<ge> 0 \<and> fd < 1024 then s\<lparr>g_fd_shadow := (g_fd_shadow s)(fd := empty_shadow)\<rparr> else s)"

definition fd_shadow_set :: "int \<Rightarrow> string \<Rightarrow> bool \<Rightarrow> sandbox \<Rightarrow> sandbox" where
  "fd_shadow_set fd path block s =
     (if fd < 0 \<or> fd \<ge> 1024 then s
      else s\<lparr>g_fd_shadow := (g_fd_shadow s)
               (fd := \<lparr>in_use = True, block_write = block, shadow_path = take 511 path\<rparr>)\<rparr>)"

definition fd_shadow_get :: "sandbox \<Rightarrow> int \<Rightarrow> fd_shadow_t option" where
  "fd_shadow_get s fd =
     (if fd < 0 \<or> fd \<ge> 1024 \<or> \<not> in_use (g_fd_shadow s fd) then None else Some (g_fd_shadow s fd))"

definition proc_self_fd_target :: "string \<Rightarrow> int option" where
  "proc_self_fd_target path =
     (if take 14 path \<noteq> ''/proc/self/fd/'' then None
      else case strtol10 (drop 14 path) of
        None \<Rightarrow> None
      | Some (fd, rest) \<Rightarrow> if rest \<noteq> [] \<or> fd < 0 \<or> fd > 100000 then None else Some fd)"

definition fd_shadow_copy :: "dr_api \<Rightarrow> config \<Rightarrow> int \<Rightarrow> int \<Rightarrow> sandbox \<Rightarrow> sandbox" where
  "fd_shadow_copy api cfg dst src s =
     (case fd_shadow_get s src of
        None \<Rightarrow> fd_shadow_clear dst s
      | Some shadow \<Rightarrow>
          audit_semantic_event api cfg ''fd''
            (if block_write shadow then ''dup-track-block-write'' else ''dup-track'')
            (g_last_sysnum s) dst (shadow_path shadow) []
            (fd_shadow_set dst (shadow_path shadow) (block_write shadow) s))"

text \<open>
  The invariant of the table: paths fit their 512-byte arrays, and nothing outside of the 1024 entries
  has been written.
\<close>

definition shadow_ok :: "sandbox \<Rightarrow> bool" where
  "shadow_ok s = (\<forall>fd. length (shadow_path (g_fd_shadow s fd)) \<le> 511 \<and>
     (\<not> fd_in_range fd \<longrightarrow> g_fd_shadow s fd = empty_shadow))"

text \<open>A table in which descriptor 3 is open on a protected log file, for the examples.\<close>

definition demo_table :: sandbox where
  "demo_table = fd_shadow_set 3 ''/var/log/x'' True initial_sandbox"

section \<open>Descriptor tables\<close>

locale fd_table =
  fixes entry :: "'s \<Rightarrow> int \<Rightarrow> 'e option"
    and drop_fd :: "int \<Rightarrow> 's \<Rightarrow> 's"
    and copy :: "int \<Rightarrow> int \<Rightarrow> 's \<Rightarrow> 's"
    and inv :: "'s \<Rightarrow> bool"
    and tracked :: "int \<Rightarrow> bool"
  assumes entry_untracked: "\<not> tracked fd \<Longrightarrow> entry s fd = None"
    and entry_drop: "entry (drop_fd d s) fd = (if fd = d then None else entry s fd)"
    and entry_copy:
      "inv s \<Longrightarrow> entry (copy d src s) fd = (if fd = d \<and> tracked d then entry s src else entry s fd)"
    and inv_drop: "inv s \<Longrightarrow> inv (drop_fd d s)"
    and inv_copy: "inv s \<Longrightarrow> inv (copy d src s)"
begin

lemma inv_copies: "inv s \<Longrightarrow> inv (fold (\<lambda>(d, src). copy d src) cs s)"
  by (induction cs arbitrary: s) (auto simp: inv_copy)

lemma entry_kept:
  "inv s \<Longrightarrow> fd \<notin> fst ` set cs \<Longrightarrow> entry (fold (\<lambda>(d, src). copy d src) cs s) fd = entry s fd"
  by (induction cs arbitrary: s) (auto simp: inv_copy entry_copy)

lemma entry_origin:
  "inv s \<Longrightarrow> entry (fold (\<lambda>(d, src). copy d src) cs s) fd = Some e \<Longrightarrow> \<exists>fd0. entry s fd0 = Some e"
proof (induction cs arbitrary: s)
  case (Cons c cs)
  obtain d src where c: "c = (d, src)" by (cases c)
  with Cons.prems Cons.IH [of "copy d src s"] obtain fd0 where "entry (copy d src s) fd0 = Some e"
    by (auto simp: inv_copy)
  with Cons.prems(1) show ?case by (auto simp: entry_copy split: if_splits)
qed auto

text \<open>A chain \<open>d\<^sub>1 = dup(src), d\<^sub>2 = dup(d\<^sub>1), \<dots>\<close> carries the entry of \<open>src\<close> to the last descriptor.\<close>

lemma entry_chain:
  "inv s \<Longrightarrow> list_all tracked ds \<Longrightarrow>
    entry (fold (\<lambda>(d, src). copy d src) (zip ds (src # ds)) s) (last (src # ds)) = entry s src"
proof (induction ds arbitrary: s src)
  case (Cons d ds)
  then have "entry (fold (\<lambda>(d, src). copy d src) (zip ds (d # ds)) (copy d src s)) (last (d # ds)) =
      entry (copy d src s) d"
    by (simp add: inv_copy)
  with Cons.prems show ?case by (simp add: entry_copy)
qed simp

end

section \<open>The shadow is a descriptor table\<close>

lemma fd_shadow_frame [frame_simps]:
  "fd_shadow_clear fd s = s\<lparr>g_fd_shadow := g_fd_shadow (fd_shadow_clear fd s)\<rparr>"
  "fd_shadow_set fd p b s = s\<lparr>g_fd_shadow := g_fd_shadow (fd_shadow_set fd p b s)\<rparr>"
  by (simp_all add: fd_shadow_clear_def fd_shadow_set_def)

lemma fd_shadow_get_cong:
  "g_fd_shadow s = g_fd_shadow s' \<Longrightarrow> fd_shadow_get s = fd_shadow_get s'"
  by (simp add: fd_shadow_get_def fun_eq_iff)

lemma shadow_ok_cong: "g_fd_shadow s = g_fd_shadow s' \<Longrightarrow> shadow_ok s = shadow_ok s'"
  by (simp add: shadow_ok_def)

lemma get_clear: "fd_shadow_get (fd_shadow_clear d s) fd = (if fd = d then None else fd_shadow_get s fd)"
  by (auto simp: fd_shadow_get_def fd_shadow_clear_def empty_shadow_def)

lemma get_untracked: "\<not> fd_in_range fd \<Longrightarrow> fd_shadow_get s fd = None"
  by (auto simp: fd_shadow_get_def)

lemma get_set:
  "fd_shadow_get (fd_shadow_set d p b s) fd =
     (if fd = d \<and> fd_in_range d then Some \<lparr>in_use = True, block_write = b, shadow_path = take 511 p\<rparr>
      else fd_shadow_get s fd)"
  by (auto simp: fd_shadow_get_def fd_shadow_set_def)

lemma get_path_length:
  "shadow_ok s \<Longrightarrow> fd_shadow_get s fd = Some e \<Longrightarrow> length (shadow_path e) \<le> 511"
  by (auto simp: fd_shadow_get_def shadow_ok_def split: if_splits)

lemma get_in_use: "fd_shadow_get s fd = Some e \<Longrightarrow> in_use e \<and> fd_in_range fd"
  by (auto simp: fd_shadow_get_def split: if_splits)

lemma shadow_ok_clear: "shadow_ok s \<Longrightarrow> shadow_ok (fd_shadow_clear d s)"
  by (simp add: shadow_ok_def fd_shadow_clear_def empty_shadow_def)

lemma shadow_ok_set: "shadow_ok s \<Longrightarrow> shadow_ok (fd_shadow_set d p b s)"
  by (simp add: shadow_ok_def fd_shadow_set_def)

lemma g_fd_shadow_copy:
  "g_fd_shadow (fd_shadow_copy api cfg d src s) =
     g_fd_shadow (case fd_shadow_get s src of None \<Rightarrow> fd_shadow_clear d s
                  | Some e \<Rightarrow> fd_shadow_set d (shadow_path e) (block_write e) s)"
  by (simp add: fd_shadow_copy_def audit_events_frame split: option.splits)

lemma shadow_ok_copy: "shadow_ok s \<Longrightarrow> shadow_ok (fd_shadow_copy api cfg d src s)"
  unfolding shadow_ok_cong [OF g_fd_shadow_copy]
  by (simp add: shadow_ok_clear shadow_ok_set split: option.splits)

lemma get_copy:
  assumes "shadow_ok s"
  shows "fd_shadow_get (fd_shadow_copy api cfg d src s) fd =
         (if fd = d \<and> fd_in_range d then fd_shadow_get s src else fd_shadow_get s fd)"
proof (cases "fd_shadow_get s src")
  case None
  then show ?thesis
    using fd_shadow_get_cong [OF g_fd_shadow_copy, of api cfg d src s] get_untracked [of d s]
    by (auto simp: get_clear)
next
  case (Some e)
  then have "take 511 (shadow_path e) = shadow_path e" "in_use e"
    using get_path_length [OF assms] get_in_use by auto
  with Some show ?thesis
    using fd_shadow_get_cong [OF g_fd_shadow_copy, of api cfg d src s] by (auto simp: get_set)
qed

interpretation shadow_table: fd_table fd_shadow_get fd_shadow_clear "fd_shadow_copy api cfg" shadow_ok
    "\<lambda>fd. fd_in_range fd" for api cfg
  by unfold_locales
     (simp_all add: get_untracked get_clear get_copy shadow_ok_clear shadow_ok_copy)

lemma initial_shadow_ok: "shadow_ok initial_sandbox"
  by (simp add: shadow_ok_def initial_sandbox_def empty_shadow_def)

lemma demo_table_ok: "shadow_ok demo_table"
  by (simp add: demo_table_def shadow_ok_set initial_shadow_ok)

section \<open>Properties\<close>

text \<open>
  The shadow behaves as a bounded table. A set is seen by the next lookup of that descriptor (its
  path cut to 511 characters) and by no other, a clear removes exactly its descriptor, and a copy
  gives the destination what the source has, including nothing; descriptors outside of 0..1023 are
  never recorded and every operation keeps the invariant of the 1024-entry array.
\<close>
lemma fd_shadow_operations:
  assumes "shadow_ok s"
  shows "fd_shadow_get (fd_shadow_set d p b s) fd =
           (if fd = d \<and> 0 \<le> d \<and> d < 1024
            then Some \<lparr>in_use = True, block_write = b, shadow_path = take 511 p\<rparr> else fd_shadow_get s fd)"
    and "fd_shadow_get (fd_shadow_clear d s) fd = (if fd = d then None else fd_shadow_get s fd)"
    and "fd_shadow_get (fd_shadow_copy api cfg d src s) fd =
           (if fd = d \<and> 0 \<le> d \<and> d < 1024 then fd_shadow_get s src else fd_shadow_get s fd)"
    and "shadow_ok (fd_shadow_set d p b s)" and "shadow_ok (fd_shadow_clear d s)"
    and "shadow_ok (fd_shadow_copy api cfg d src s)"
  using assms by (simp_all add: get_set get_clear get_copy shadow_ok_set shadow_ok_clear shadow_ok_copy)

lemma dup_chain_keeps_entry_facts:
  assumes "shadow_ok s"
  shows "list_all (\<lambda>fd. 0 \<le> fd \<and> fd < 1024) ds \<Longrightarrow>
      fd_shadow_get (fold (\<lambda>(d, src). fd_shadow_copy api cfg d src) (zip ds (src # ds)) s)
        (last (src # ds)) = fd_shadow_get s src"
    and "fd_shadow_get (fold (\<lambda>(d, src). fd_shadow_copy api cfg d src) cs s) fd = Some e \<Longrightarrow>
      \<exists>fd0. fd_shadow_get s fd0 = Some e"
    and "fd \<notin> fst ` set cs \<Longrightarrow>
      fd_shadow_get (fold (\<lambda>(d, src). fd_shadow_copy api cfg d src) cs s) fd = fd_shadow_get s fd"
  using shadow_table.entry_chain [OF assms] shadow_table.entry_origin [OF assms]
    shadow_table.entry_kept [OF assms] by blast+

text \<open>
  C30: Copies carry the entry. Along any chain of copies the last descriptor has the entry of the first,
  with its path and its write block; whatever copies are made, an entry of the table comes from an
  entry that was there before, and a descriptor that is no destination keeps its own. This is about
  the table: that \<open>dup2\<close> and \<open>dup3\<close> clear their destination before the call is shown with the events.
\<close>
theorem dup_chain_keeps_entry:
  assumes "shadow_ok s"
  shows "(list_all (\<lambda>fd. 0 \<le> fd \<and> fd < 1024) ds \<longrightarrow>
      fd_shadow_get (fold (\<lambda>(d, src). fd_shadow_copy api cfg d src) (zip ds (src # ds)) s)
        (last (src # ds)) = fd_shadow_get s src) \<and>
    (fd_shadow_get (fold (\<lambda>(d, src). fd_shadow_copy api cfg d src) cs s) fd = Some e \<longrightarrow>
      (\<exists>fd0. fd_shadow_get s fd0 = Some e)) \<and>
    (fd \<notin> fst ` set cs \<longrightarrow>
      fd_shadow_get (fold (\<lambda>(d, src). fd_shadow_copy api cfg d src) cs s) fd = fd_shadow_get s fd)"
  using dup_chain_keeps_entry_facts [OF assms] by blast

theorem dup_chain_keeps_entry_witness:
  "fd_shadow_get (fold (\<lambda>(d, src). fd_shadow_copy plain_api demo_config d src)
     [(5, 3), (9, 5), (4, 9)] demo_table) 4 =
   Some \<lparr>in_use = True, block_write = True, shadow_path = ''/var/log/x''\<rparr>"
  using dup_chain_keeps_entry [OF demo_table_ok, of "[5, 9, 4]" plain_api demo_config 3]
  by (simp add: demo_table_def get_set)

lemma proc_self_fd_target_eq:
  "proc_self_fd_target path = Some fd \<longleftrightarrow>
    (\<exists>rest neg v. path = ''/proc/self/fd/'' @ rest \<and> scan_number rest = Some (neg, v, []) \<and>
       fd = (if neg then - int v else int v) \<and> 0 \<le> fd \<and> fd \<le> 100000)"
proof -
  have "path = ''/proc/self/fd/'' @ drop 14 path" if "take 14 path = ''/proc/self/fd/''"
    using append_take_drop_id [of 14 path] that by simp
  then show ?thesis
    by (fastforce simp: proc_self_fd_target_def strtol10_def min_def max_def
        split: option.splits prod.splits if_splits)
qed

lemma proc_self_fd_target_roundtrip_facts:
  "proc_self_fd_target (''/proc/self/fd/'' @ show_nat n) = (if n \<le> 100000 then Some (int n) else None)"
  "proc_self_fd_target path = Some fd \<longleftrightarrow>
    (\<exists>ws sgn ds. path = ''/proc/self/fd/'' @ ws @ sgn @ ds \<and> (\<forall>c \<in> set ws. c_isspace c) \<and>
       sgn \<in> {[], ''+'', ''-''} \<and> ds \<noteq> [] \<and> (\<forall>c \<in> set ds. c_isdigit c) \<and>
       fd = (if sgn = ''-'' then - int (digits_value ds) else int (digits_value ds)) \<and>
       0 \<le> fd \<and> fd \<le> 100000)"
proof -
  show "proc_self_fd_target (''/proc/self/fd/'' @ show_nat n) = (if n \<le> 100000 then Some (int n) else None)"
  proof (cases "n < 2 ^ 63")
    case True
    then have "strtol10 (show_nat n) = Some (int n, [])"
      using strtol10_show_nat [of n "[]"] by simp
    then show ?thesis by (simp add: proc_self_fd_target_def)
  next
    case False
    then have "strtol10 (show_nat n) = Some (2 ^ 63 - 1, [])"
      using scan_number_show_nat [of "[]" n] by (simp add: strtol10_def min_def)
    with False show ?thesis by (simp add: proc_self_fd_target_def)
  qed
  show "proc_self_fd_target path = Some fd \<longleftrightarrow>
    (\<exists>ws sgn ds. path = ''/proc/self/fd/'' @ ws @ sgn @ ds \<and> (\<forall>c \<in> set ws. c_isspace c) \<and>
       sgn \<in> {[], ''+'', ''-''} \<and> ds \<noteq> [] \<and> (\<forall>c \<in> set ds. c_isdigit c) \<and>
       fd = (if sgn = ''-'' then - int (digits_value ds) else int (digits_value ds)) \<and>
       0 \<le> fd \<and> fd \<le> 100000)" (is "_ \<longleftrightarrow> ?shape")
  proof
    assume "proc_self_fd_target path = Some fd"
    then obtain rest neg v where path: "path = ''/proc/self/fd/'' @ rest"
      and "scan_number rest = Some (neg, v, [])"
      and fd: "fd = (if neg then - int v else int v)" "0 \<le> fd" "fd \<le> 100000"
      unfolding proc_self_fd_target_eq by blast
    then obtain ws sgn ds where "rest = ws @ sgn @ ds" "\<forall>c \<in> set ws. c_isspace c"
      "if neg then sgn = ''-'' else sgn = [] \<or> sgn = ''+''" "ds \<noteq> []" "\<forall>c \<in> set ds. c_isdigit c"
      "v = digits_value ds" unfolding scan_number_whole by blast
    with path fd show ?shape by (intro exI [of _ ws] exI [of _ sgn] exI [of _ ds]) (auto split: if_splits)
  next
    assume ?shape
    then obtain ws sgn ds where path: "path = ''/proc/self/fd/'' @ ws @ sgn @ ds"
      and parts: "\<forall>c \<in> set ws. c_isspace c" "sgn \<in> {[], ''+'', ''-''}" "ds \<noteq> []" "\<forall>c \<in> set ds. c_isdigit c"
      and fd: "fd = (if sgn = ''-'' then - int (digits_value ds) else int (digits_value ds))"
        "0 \<le> fd" "fd \<le> 100000" by blast
    have "scan_number (ws @ sgn @ ds) = Some (sgn = ''-'', digits_value ds, [])"
      unfolding scan_number_whole using parts by (intro exI [of _ ws] exI [of _ sgn] exI [of _ ds]) auto
    with path fd show "proc_self_fd_target path = Some fd" unfolding proc_self_fd_target_eq by blast
  qed
qed

text \<open>
  C31: Exactly which paths name a descriptor. A path is recognised with number \<open>fd\<close> if and only if it is
  \<open>/proc/self/fd/\<close> followed, up to its end, by white space, an optional sign and decimal digits with
  the value \<open>fd\<close>, and \<open>0 \<le> fd \<le> 100000\<close>; so trailing text, a missing number and other directories
  give nothing. In particular the plain spelling of every number up to 100000 gives the number back,
  and larger numbers are not recognised.
\<close>
theorem proc_self_fd_target_roundtrip:
  "proc_self_fd_target (''/proc/self/fd/'' @ show_nat n) = (if n \<le> 100000 then Some (int n) else None) \<and>
   (proc_self_fd_target path = Some fd \<longleftrightarrow>
    (\<exists>ws sgn ds. path = ''/proc/self/fd/'' @ ws @ sgn @ ds \<and> (\<forall>c \<in> set ws. c_isspace c) \<and>
       sgn \<in> {[], ''+'', ''-''} \<and> ds \<noteq> [] \<and> (\<forall>c \<in> set ds. c_isdigit c) \<and>
       fd = (if sgn = ''-'' then - int (digits_value ds) else int (digits_value ds)) \<and>
       0 \<le> fd \<and> fd \<le> 100000))"
  using proc_self_fd_target_roundtrip_facts by blast

theorem proc_self_fd_target_roundtrip_witness:
  "proc_self_fd_target ''/proc/self/fd/7'' = Some 7 \<and> proc_self_fd_target ''/proc/self/fd/7junk'' = None"
proof
  show "proc_self_fd_target ''/proc/self/fd/7'' = Some 7"
    using proc_self_fd_target_roundtrip [of 7 "[]" 0] by (simp add: show_nat.simps)
  show "proc_self_fd_target ''/proc/self/fd/7junk'' = None"
  proof (rule ccontr)
    assume "proc_self_fd_target ''/proc/self/fd/7junk'' \<noteq> None"
    then obtain fd where "proc_self_fd_target ''/proc/self/fd/7junk'' = Some fd" by blast
    with proc_self_fd_target_roundtrip [of 0 "''/proc/self/fd/7junk''" fd]
    obtain ws sgn ds where eq: "''/proc/self/fd/7junk'' = ''/proc/self/fd/'' @ ws @ sgn @ ds"
      and ds: "ds \<noteq> []" "\<forall>c \<in> set ds. c_isdigit c" by blast
    have "last ds = last ''/proc/self/fd/7junk''" using ds(1) unfolding eq by simp
    then have "c_isdigit CHR ''k''" using ds last_in_set [OF ds(1)] by simp
    then show False by (simp add: c_isdigit_def)
  qed
qed

end
