(* ===== verification/Budget.thy ===== *)
theory Budget
  imports Paths
begin

text \<open>
  The allocation budget of \<open>DR_MAX_ALLOC_BYTES\<close> and the interface \<open>meter\<close> that it shares with the
  output counters: a usage word that charges move up to a limit and never beyond. The lemmas of the
  interface lift the laws of one charge to sequences of charges and to the natural numbers, where
  a sum cannot wrap around. The mutex of the C code serialises the updates, so each is one step.
\<close>

section \<open>Operations\<close>

definition alloc_budget_enabled :: "config \<Rightarrow> bool" where
  "alloc_budget_enabled cfg = (g_max_alloc_bytes cfg > 0)"

definition alloc_budget_has_room :: "config \<Rightarrow> size_t \<Rightarrow> sandbox \<Rightarrow> bool" where
  "alloc_budget_has_room cfg bytes s =
     (\<not> alloc_budget_enabled cfg \<or> bytes \<le> g_max_alloc_bytes cfg - g_alloc_bytes s)"

definition alloc_budget_add :: "config \<Rightarrow> size_t \<Rightarrow> sandbox \<Rightarrow> sandbox" where
  "alloc_budget_add cfg bytes s =
     (if \<not> alloc_budget_enabled cfg \<or> bytes = 0 then s
      else if bytes > g_max_alloc_bytes cfg - g_alloc_bytes s
      then s\<lparr>g_alloc_bytes := g_max_alloc_bytes cfg\<rparr>
      else s\<lparr>g_alloc_bytes := g_alloc_bytes s + bytes\<rparr>)"

definition alloc_budget_sub :: "config \<Rightarrow> size_t \<Rightarrow> sandbox \<Rightarrow> sandbox" where
  "alloc_budget_sub cfg bytes s =
     (if \<not> alloc_budget_enabled cfg \<or> bytes = 0 then s
      else if bytes > g_alloc_bytes s then s\<lparr>g_alloc_bytes := 0\<rparr>
      else s\<lparr>g_alloc_bytes := g_alloc_bytes s - bytes\<rparr>)"

text \<open>The invariant of the budget. Without a limit the usage is a high-water mark of the heap only.\<close>

definition budget_ok :: "config \<Rightarrow> sandbox \<Rightarrow> bool" where
  "budget_ok cfg s = (alloc_budget_enabled cfg \<longrightarrow> g_alloc_bytes s \<le> g_max_alloc_bytes cfg)"

definition demo_budget :: "size_t \<Rightarrow> config" where
  "demo_budget m = demo_config\<lparr>g_max_alloc_bytes := m\<rparr>"

section \<open>Meters\<close>

locale meter =
  fixes used :: "'s \<Rightarrow> size_t"
    and limit :: size_t
    and charge :: "'r \<Rightarrow> 's \<Rightarrow> 's"
    and amount :: "'r \<Rightarrow> size_t"
  assumes charge_fits:
      "used s \<le> limit \<Longrightarrow> amount r \<le> limit - used s \<Longrightarrow> used (charge r s) = used s + amount r"
    and charge_over:
      "used s \<le> limit \<Longrightarrow> \<not> amount r \<le> limit - used s \<Longrightarrow>
        used (charge r s) = used s \<or> used (charge r s) = limit"
begin

lemma charge_bounded: "used s \<le> limit \<Longrightarrow> used (charge r s) \<le> limit"
  using charge_fits [of s r] charge_over [of s r] unat_add_no_wrap(2) [of "amount r" limit "used s"]
  by (cases "amount r \<le> limit - used s") auto

lemma charge_mono:
  assumes "used s \<le> limit"
  shows "used s \<le> used (charge r s)"
proof (cases "amount r \<le> limit - used s")
  case True
  with assms show ?thesis
    using charge_fits [of s r] unat_add_no_wrap(1) [of "amount r" limit "used s"]
    by (simp add: word_le_nat_alt)
next
  case False
  then show ?thesis using charge_over [OF assms False] assms by auto
qed

lemma charges_bounded: "used s \<le> limit \<Longrightarrow> used (fold charge rs s) \<le> limit"
  by (induction rs arbitrary: s) (simp_all add: charge_bounded)

lemma charges_mono: "used s \<le> limit \<Longrightarrow> used s \<le> used (fold charge rs s)"
proof (induction rs arbitrary: s)
  case (Cons r rs)
  have "used s \<le> used (charge r s)" using Cons.prems by (rule charge_mono)
  also have "\<dots> \<le> used (fold charge rs (charge r s))"
    using Cons.IH charge_bounded [OF Cons.prems] .
  finally show ?case by simp
qed simp

text \<open>Charges that fit together are counted exactly.\<close>

lemma charges_exact:
  "used s \<le> limit \<Longrightarrow> unat (used s) + (\<Sum>r\<leftarrow>rs. unat (amount r)) \<le> unat limit \<Longrightarrow>
    unat (used (fold charge rs s)) = unat (used s) + (\<Sum>r\<leftarrow>rs. unat (amount r))"
proof (induction rs arbitrary: s)
  case (Cons r rs)
  then have fit: "amount r \<le> limit - used s"
    by (simp add: word_le_nat_alt unat_sub_le)
  then have "used (charge r s) = used s + amount r" and "unat (used s + amount r) = unat (used s) + unat (amount r)"
    using charge_fits Cons.prems(1) unat_add_no_wrap(1) by blast+
  with Cons charge_bounded [of s r] show ?case by simp
qed simp

end

section \<open>The budget is a meter\<close>

lemma alloc_budget_frame [frame_simps]:
  "alloc_budget_add cfg n s = s\<lparr>g_alloc_bytes := g_alloc_bytes (alloc_budget_add cfg n s)\<rparr>"
  "alloc_budget_sub cfg n s = s\<lparr>g_alloc_bytes := g_alloc_bytes (alloc_budget_sub cfg n s)\<rparr>"
  by (simp_all add: alloc_budget_add_def alloc_budget_sub_def)

lemma alloc_add_fits:
  assumes "g_alloc_bytes s \<le> g_max_alloc_bytes cfg" and "n \<le> g_max_alloc_bytes cfg - g_alloc_bytes s"
  shows "g_alloc_bytes (alloc_budget_add cfg n s) = g_alloc_bytes s + n"
proof (cases "alloc_budget_enabled cfg")
  case True
  with assms(2) show ?thesis by (auto simp: alloc_budget_add_def)
next
  case False
  then have "g_max_alloc_bytes cfg = 0" by (simp add: alloc_budget_enabled_def word_gt_0)
  with assms have "n = 0" by simp
  then show ?thesis by (simp add: alloc_budget_add_def)
qed

lemma alloc_add_over:
  assumes "\<not> n \<le> g_max_alloc_bytes cfg - g_alloc_bytes s"
  shows "g_alloc_bytes (alloc_budget_add cfg n s) = g_alloc_bytes s \<or>
         g_alloc_bytes (alloc_budget_add cfg n s) = g_max_alloc_bytes cfg"
  using assms by (auto simp: alloc_budget_add_def not_le)

interpretation alloc_meter: meter g_alloc_bytes "g_max_alloc_bytes cfg" "alloc_budget_add cfg" "\<lambda>n. n"
  for cfg
  by unfold_locales (use alloc_add_fits alloc_add_over in auto)

lemma alloc_budget_add_ok: "budget_ok cfg s \<Longrightarrow> budget_ok cfg (alloc_budget_add cfg n s)"
  using alloc_meter.charge_bounded by (simp add: budget_ok_def)

lemma alloc_budget_sub_le: "g_alloc_bytes (alloc_budget_sub cfg n s) \<le> g_alloc_bytes s"
  by (auto simp: alloc_budget_sub_def not_less word_le_nat_alt unat_sub_le)

lemma alloc_budget_sub_ok: "budget_ok cfg s \<Longrightarrow> budget_ok cfg (alloc_budget_sub cfg n s)"
  using alloc_budget_sub_le by (fastforce simp: budget_ok_def intro: order_trans)

lemma budget_ok_cong:
  "g_alloc_bytes s' = g_alloc_bytes s \<Longrightarrow> budget_ok cfg s' = budget_ok cfg s"
  by (simp add: budget_ok_def)

section \<open>Properties\<close>

lemma alloc_budget_arithmetic_facts:
  shows "alloc_budget_enabled cfg \<Longrightarrow> budget_ok cfg s \<Longrightarrow> alloc_budget_has_room cfg n s \<longleftrightarrow>
           unat (g_alloc_bytes s) + unat n \<le> unat (g_max_alloc_bytes cfg)"
    and "alloc_budget_enabled cfg \<Longrightarrow> budget_ok cfg s \<Longrightarrow>
           unat (g_alloc_bytes (alloc_budget_add cfg n s)) =
             min (unat (g_max_alloc_bytes cfg)) (unat (g_alloc_bytes s) + unat n)"
    and "alloc_budget_enabled cfg \<Longrightarrow>
           unat (g_alloc_bytes (alloc_budget_sub cfg n s)) = unat (g_alloc_bytes s) - unat n"
    and "\<not> alloc_budget_enabled cfg \<Longrightarrow> alloc_budget_has_room cfg n s \<and>
           alloc_budget_add cfg n s = s \<and> alloc_budget_sub cfg n s = s"
proof -
  let ?u = "g_alloc_bytes s" and ?m = "g_max_alloc_bytes cfg"
  show "\<not> alloc_budget_enabled cfg \<Longrightarrow> alloc_budget_has_room cfg n s \<and>
      alloc_budget_add cfg n s = s \<and> alloc_budget_sub cfg n s = s"
    by (simp add: alloc_budget_has_room_def alloc_budget_add_def alloc_budget_sub_def)
  assume en: "alloc_budget_enabled cfg"
  show "unat (g_alloc_bytes (alloc_budget_sub cfg n s)) = unat ?u - unat n"
    using en
    by (cases "n \<le> ?u") (auto simp: alloc_budget_sub_def unat_sub_le not_less not_le word_less_nat_alt)
  assume "budget_ok cfg s"
  then have le: "?u \<le> ?m" "unat ?u \<le> unat ?m" using en by (simp_all add: budget_ok_def word_le_nat_alt)
  have fits: "n \<le> ?m - ?u \<longleftrightarrow> unat ?u + unat n \<le> unat ?m"
    using le by (simp add: word_le_nat_alt unat_sub_le) linarith
  show "alloc_budget_has_room cfg n s \<longleftrightarrow> unat ?u + unat n \<le> unat ?m"
    using en by (simp add: alloc_budget_has_room_def fits)
  show "unat (g_alloc_bytes (alloc_budget_add cfg n s)) = min (unat ?m) (unat ?u + unat n)"
  proof (cases "n \<le> ?m - ?u")
    case True
    with alloc_add_fits [OF le(1)] unat_add_no_wrap(1) [OF True le(1)] fits show ?thesis by simp
  next
    case False
    then have "g_alloc_bytes (alloc_budget_add cfg n s) = ?m"
      using en by (auto simp: alloc_budget_add_def not_le)
    with False fits show ?thesis by simp
  qed
qed

text \<open>
  C29: The allocation budget is exact arithmetic although it is kept in machine words. With a limit
  set and the usage within it, the room test is the comparison of natural numbers, adding is addition
  cut at the limit, and releasing is subtraction cut at zero; neither wraps around and both keep the
  usage within the limit. With no limit configured there is always room and nothing is counted.
\<close>
theorem alloc_budget_arithmetic:
  shows "(alloc_budget_enabled cfg \<longrightarrow> budget_ok cfg s \<longrightarrow>
      (alloc_budget_has_room cfg n s \<longleftrightarrow>
           unat (g_alloc_bytes s) + unat n \<le> unat (g_max_alloc_bytes cfg))) \<and>
    (alloc_budget_enabled cfg \<longrightarrow> budget_ok cfg s \<longrightarrow>
      unat (g_alloc_bytes (alloc_budget_add cfg n s)) =
             min (unat (g_max_alloc_bytes cfg)) (unat (g_alloc_bytes s) + unat n)) \<and>
    (alloc_budget_enabled cfg \<longrightarrow>
      unat (g_alloc_bytes (alloc_budget_sub cfg n s)) = unat (g_alloc_bytes s) - unat n) \<and>
    (\<not> alloc_budget_enabled cfg \<longrightarrow> (alloc_budget_has_room cfg n s \<and>
           alloc_budget_add cfg n s = s \<and> alloc_budget_sub cfg n s = s))"
  using alloc_budget_arithmetic_facts by blast

theorem alloc_budget_arithmetic_witness:
  "alloc_budget_has_room (demo_budget 100) 30 (initial_sandbox\<lparr>g_alloc_bytes := 70\<rparr>) \<and>
   unat (g_alloc_bytes (alloc_budget_add (demo_budget 100) 31 (initial_sandbox\<lparr>g_alloc_bytes := 70\<rparr>))) = 100 \<and>
   unat (g_alloc_bytes (alloc_budget_sub (demo_budget 100) 71 (initial_sandbox\<lparr>g_alloc_bytes := 70\<rparr>))) = 0"
proof -
  let ?s = "initial_sandbox\<lparr>g_alloc_bytes := 70\<rparr>"
  have ok: "budget_ok (demo_budget 100) ?s" and en: "alloc_budget_enabled (demo_budget 100)"
    by (simp_all add: budget_ok_def demo_budget_def alloc_budget_enabled_def)
  show ?thesis
    using alloc_budget_arithmetic [of "demo_budget 100" ?s 30] alloc_budget_arithmetic [of "demo_budget 100" ?s 31]
      alloc_budget_arithmetic [of "demo_budget 100" ?s 71] ok en
    by (simp add: demo_budget_def)
qed

text \<open>
  A sequence of allocations that fits into the budget is accounted for exactly, byte by byte; and
  whatever sequence is charged, the usage never exceeds the limit and never decreases.
\<close>
lemma alloc_budget_sequence:
  assumes "g_alloc_bytes s \<le> g_max_alloc_bytes cfg"
  shows "g_alloc_bytes (fold (alloc_budget_add cfg) ns s) \<le> g_max_alloc_bytes cfg"
    and "g_alloc_bytes s \<le> g_alloc_bytes (fold (alloc_budget_add cfg) ns s)"
    and "unat (g_alloc_bytes s) + (\<Sum>n\<leftarrow>ns. unat n) \<le> unat (g_max_alloc_bytes cfg) \<Longrightarrow>
         unat (g_alloc_bytes (fold (alloc_budget_add cfg) ns s)) =
           unat (g_alloc_bytes s) + (\<Sum>n\<leftarrow>ns. unat n)"
  using alloc_meter.charges_bounded [OF assms] alloc_meter.charges_mono [OF assms]
    alloc_meter.charges_exact [OF assms] by blast+

end
