(* ===== verification/Limits.thy ===== *)
theory Limits
  imports Budget Audit_Log
begin

text \<open>
  The time budget checked on input/output syscalls and the byte limits on standard output and standard
  error. Each check returns whether the syscall may go on; a refused one leaves its result in the
  state. The two output counters are meters, so the bounds on sequences of writes come from the
  interface. The code takes no lock here; what is shown is about one write after the other, and
  overlapping writes of several threads are in \<open>Output_Race\<close>.
\<close>

section \<open>Operations\<close>

definition cpuish_sysnums :: "int list" where
  "cpuish_sysnums = [SYS_read, SYS_pread64, SYS_write, SYS_pwrite64, SYS_open, SYS_openat, SYS_creat]"

definition check_cpuish_budget :: "dr_api \<Rightarrow> config \<Rightarrow> int \<Rightarrow> sandbox \<Rightarrow> bool \<times> sandbox" where
  "check_cpuish_budget api cfg sysnum s =
     (if g_max_cpu_ms cfg = 0 \<or> g_start_ms cfg = 0 then (True, s)
      else if sysnum \<notin> set cpuish_sysnums then (True, s)
      else let elapsed = clock_ms s - g_start_ms cfg in
        if elapsed \<le> g_max_cpu_ms cfg then (True, s)
        else (False, set_errno_result ETIMEDOUT
                (audit_resource_event api cfg ''cpu-timeout'' ''block'' sysnum elapsed (g_max_cpu_ms cfg) s)))"

text \<open>The counter the C code points to: its limit, its label and how it is read and written.\<close>

definition output_counter ::
  "config \<Rightarrow> int \<Rightarrow> (size_t \<times> string \<times> (sandbox \<Rightarrow> size_t) \<times> (size_t \<Rightarrow> sandbox \<Rightarrow> sandbox)) option" where
  "output_counter cfg fd =
     (if fd = 1 \<and> g_max_stdout_bytes cfg > 0
      then Some (g_max_stdout_bytes cfg, ''stdout-limit'', g_stdout_bytes, \<lambda>v s. s\<lparr>g_stdout_bytes := v\<rparr>)
      else if fd = 2 \<and> g_max_stderr_bytes cfg > 0
      then Some (g_max_stderr_bytes cfg, ''stderr-limit'', g_stderr_bytes, \<lambda>v s. s\<lparr>g_stderr_bytes := v\<rparr>)
      else None)"

definition enforce_output_limit ::
  "dr_api \<Rightarrow> config \<Rightarrow> int \<Rightarrow> int \<Rightarrow> size_t \<Rightarrow> sandbox \<Rightarrow> bool \<times> sandbox" where
  "enforce_output_limit api cfg sysnum fd requested s =
     (case output_counter cfg fd of
        None \<Rightarrow> (True, s)
      | Some (limit, name, used, put_used) \<Rightarrow>
          let act = (if g_output_truncate cfg then ''truncate'' else ''block'') in
          if used s \<ge> limit then
            let s1 = audit_resource_event api cfg name act sysnum (used s) limit s
            in (False, if g_output_truncate cfg then set_value_result 0 s1 else set_errno_result EFBIG s1)
          else
            let remaining = limit - used s in
            if requested > remaining then
              let s1 = audit_resource_event api cfg name act sysnum (used s + requested) limit s in
              if \<not> g_output_truncate cfg then (False, set_errno_result EFBIG s1)
              else
                let s2 = (if sysnum = SYS_write \<or> sysnum = SYS_pwrite64 then set_param 2 remaining s1 else s1)
                in (True, put_used (used s2 + remaining) s2)
            else (True, put_used (used s + requested) s))"

text \<open>
  A run of \<open>write\<close> calls on one descriptor: the byte counts the kernel is asked to write, zero for a
  refused call.
\<close>

fun write_calls :: "dr_api \<Rightarrow> config \<Rightarrow> int \<Rightarrow> size_t list \<Rightarrow> sandbox \<Rightarrow> size_t list \<times> sandbox" where
  "write_calls api cfg fd [] s = ([], s)"
| "write_calls api cfg fd (n # ns) s =
     (let (ok, s1) = enforce_output_limit api cfg SYS_write fd n (set_param 2 n s);
          (cs, s2) = write_calls api cfg fd ns s1
      in ((if ok then get_param s1 2 else 0) # cs, s2))"

definition output_limit :: "config \<Rightarrow> int \<Rightarrow> size_t" where
  "output_limit cfg fd = (if fd = 1 then g_max_stdout_bytes cfg else if fd = 2 then g_max_stderr_bytes cfg else 0)"

definition output_used :: "int \<Rightarrow> sandbox \<Rightarrow> size_t" where
  "output_used fd s = (if fd = 1 then g_stdout_bytes s else g_stderr_bytes s)"

definition demo_output :: "bool \<Rightarrow> config" where
  "demo_output trunc = demo_config\<lparr>g_max_stdout_bytes := 10, g_output_truncate := trunc\<rparr>"

section \<open>Frame\<close>

lemma cpuish_frame [frame_simps]:
  "snd (check_cpuish_budget api cfg n s) =
     s\<lparr>sys_result := sys_result (snd (check_cpuish_budget api cfg n s)),
       audit_lines := audit_lines (snd (check_cpuish_budget api cfg n s))\<rparr>"
  by (simp add: check_cpuish_budget_def Let_def audit_events_frame set_errno_result_def)

lemma cpuish_result:
  "fst (check_cpuish_budget api cfg n s) \<Longrightarrow> snd (check_cpuish_budget api cfg n s) = s"
  "\<not> fst (check_cpuish_budget api cfg n s) \<Longrightarrow> failed_with ETIMEDOUT (snd (check_cpuish_budget api cfg n s))"
  by (auto simp: check_cpuish_budget_def Let_def split: if_splits)

lemma output_limit_frame [frame_simps]:
  "snd (enforce_output_limit api cfg n fd k s) =
     s\<lparr>g_stdout_bytes := g_stdout_bytes (snd (enforce_output_limit api cfg n fd k s)),
       g_stderr_bytes := g_stderr_bytes (snd (enforce_output_limit api cfg n fd k s)),
       sys_params := sys_params (snd (enforce_output_limit api cfg n fd k s)),
       sys_result := sys_result (snd (enforce_output_limit api cfg n fd k s)),
       audit_lines := audit_lines (snd (enforce_output_limit api cfg n fd k s))\<rparr>"
  by (simp add: enforce_output_limit_def output_counter_def Let_def audit_events_frame
      set_errno_result_def set_value_result_def set_param_def)

section \<open>The counters are meters\<close>

lemma output_counter_laws:
  assumes "output_counter cfg fd = Some (limit, name, used, put_used)"
  shows "limit = output_limit cfg fd" and "used = output_used fd" and "output_limit cfg fd > 0"
    and "output_used fd (put_used v s) = v" and "get_param (put_used v s) i = get_param s i"
proof -
  show "used = output_used fd"
    using assms by (intro ext) (auto simp: output_counter_def output_used_def split: if_splits)
qed (use assms in \<open>auto simp: output_counter_def output_limit_def output_used_def get_param_def
    split: if_splits\<close>)

lemma output_counter_some:
  "fd = 1 \<or> fd = 2 \<Longrightarrow> output_limit cfg fd > 0 \<Longrightarrow> \<exists>c. output_counter cfg fd = Some c"
  by (auto simp: output_counter_def output_limit_def)

lemma output_used_frame [frame_simps, simp]:
  "output_used fd (audit_resource_event api cfg nm a n u l s) = output_used fd s"
  "output_used fd (set_errno_result e s) = output_used fd s"
  "output_used fd (set_value_result v s) = output_used fd s"
  "output_used fd (set_param i v s) = output_used fd s"
  by (simp_all add: output_used_def audit_events_frame set_errno_result_def set_value_result_def
      set_param_def)

lemma get_param_frame [frame_simps, simp]:
  "get_param (audit_resource_event api cfg nm a n u l s) = get_param s"
  "get_param (set_errno_result e s) = get_param s"
  "get_param (set_value_result v s) = get_param s"
  by (simp_all add: fun_eq_iff get_param_def audit_events_frame set_errno_result_def set_value_result_def)

text \<open>The outcome of a limited write: whether it goes on, the new count and the byte count left.\<close>

lemma output_limit_outcome:
  fixes fd k and s :: sandbox
  defines "u \<equiv> output_used fd s"
  assumes c: "output_counter cfg fd = Some c" and l: "l = output_limit cfg fd"
  shows "fst (enforce_output_limit api cfg n fd k s) \<longleftrightarrow> \<not> l \<le> u \<and> (\<not> l - u < k \<or> g_output_truncate cfg)"
    and "output_used fd (snd (enforce_output_limit api cfg n fd k s)) =
      (if l \<le> u then u else if l - u < k then if g_output_truncate cfg then l else u else u + k)"
    and "n = SYS_write \<or> n = SYS_pwrite64 \<Longrightarrow> get_param s 2 = k \<Longrightarrow> fst (enforce_output_limit api cfg n fd k s) \<Longrightarrow>
      get_param (snd (enforce_output_limit api cfg n fd k s)) 2 = (if l - u < k then l - u else k)"
proof -
  obtain limit name used put_used where c': "c = (limit, name, used, put_used)" by (cases c)
  note laws = output_counter_laws [OF c [unfolded c']]
  note unf = enforce_output_limit_def c c' Let_def laws(1,2) laws(4,5)
  show "fst (enforce_output_limit api cfg n fd k s) \<longleftrightarrow> \<not> l \<le> u \<and> (\<not> l - u < k \<or> g_output_truncate cfg)"
    by (cases "l \<le> u"; cases "l - u < k") (simp_all add: unf u_def l)
  show "output_used fd (snd (enforce_output_limit api cfg n fd k s)) =
      (if l \<le> u then u else if l - u < k then if g_output_truncate cfg then l else u else u + k)"
    by (cases "l \<le> u"; cases "l - u < k") (simp_all add: unf u_def l)
  show "n = SYS_write \<or> n = SYS_pwrite64 \<Longrightarrow> get_param s 2 = k \<Longrightarrow> fst (enforce_output_limit api cfg n fd k s) \<Longrightarrow>
      get_param (snd (enforce_output_limit api cfg n fd k s)) 2 = (if l - u < k then l - u else k)"
    by (cases "l \<le> u"; cases "l - u < k") (simp_all add: unf u_def l split: if_splits)
qed

lemma output_charge_fits:
  assumes "output_counter cfg fd = Some c" and "output_used fd s \<le> output_limit cfg fd"
    and "k \<le> output_limit cfg fd - output_used fd s"
  shows "output_used fd (snd (enforce_output_limit api cfg n fd k s)) = output_used fd s + k"
proof (cases "output_limit cfg fd \<le> output_used fd s")
  case True
  with assms(2) have "output_limit cfg fd = output_used fd s" by simp
  with assms show ?thesis by (simp add: output_limit_outcome(2) [OF assms(1) refl])
next
  case False
  with assms(3) show ?thesis by (auto simp: output_limit_outcome(2) [OF assms(1) refl] not_less)
qed

interpretation output_meter: meter "output_used fd" "output_limit cfg fd"
    "\<lambda>k s. if output_counter cfg fd = None then s else snd (enforce_output_limit api cfg n fd k s)"
    "\<lambda>k. if output_counter cfg fd = None then 0 else k"
  for api cfg n fd
proof (unfold_locales, goal_cases)
  case (1 s r)
  then show ?case by (auto simp: output_charge_fits)
next
  case (2 s r)
  then show ?case
    using output_limit_outcome(2) [OF _ refl, of cfg fd _ api n r s]
    by (cases "output_counter cfg fd"; cases "output_limit cfg fd \<le> output_used fd s") (simp_all add: not_le)
qed

lemma enforce_bounded:
  assumes "output_counter cfg fd = Some c" and "output_used fd s \<le> output_limit cfg fd"
  shows "output_used fd (snd (enforce_output_limit api cfg n fd k s)) \<le> output_limit cfg fd"
  using output_meter.charge_bounded [of fd s cfg api n k] assms by simp

text \<open>One \<open>write\<close>: the bytes passed on are exactly what the counter grows by.\<close>

lemma enforce_counts:
  fixes api :: dr_api
  assumes "output_counter cfg fd = Some c" and "output_used fd s \<le> output_limit cfg fd"
    and "get_param s 2 = k"
  defines "r \<equiv> enforce_output_limit api cfg SYS_write fd k s"
  shows "unat (output_used fd (snd r)) =
         unat (output_used fd s) + unat (if fst r then get_param (snd r) 2 else 0)"
proof -
  let ?u = "output_used fd s" and ?l = "output_limit cfg fd"
  note out = output_limit_outcome [OF assms(1) refl, where api = api and n = SYS_write and k = k and s = s]
  show ?thesis
  proof (cases "k \<le> ?l - ?u")
    case True
    then have "unat (?u + k) = unat ?u + unat k" using assms(2) by (rule unat_add_no_wrap)
    with True assms show ?thesis
      using out output_charge_fits [OF assms(1,2) True, where api = api and n = SYS_write]
      by (cases "?l \<le> ?u") (auto simp: r_def not_less)
  next
    case False
    then have f: "?l - ?u < k" by simp
    have "unat (?l - ?u) = unat ?l - unat ?u" "unat ?u \<le> unat ?l"
      using assms(2) by (simp_all add: unat_sub_le word_le_nat_alt)
    with f assms(3) show ?thesis
      using out by (cases "?l \<le> ?u"; cases "g_output_truncate cfg") (simp_all add: r_def)
  qed
qed

lemma write_calls_total:
  assumes "output_counter cfg fd = Some c"
  shows "output_used fd s \<le> output_limit cfg fd \<Longrightarrow>
    unat (output_used fd s) + (\<Sum>k \<leftarrow> fst (write_calls api cfg fd ns s). unat k) =
      unat (output_used fd (snd (write_calls api cfg fd ns s))) \<and>
    output_used fd (snd (write_calls api cfg fd ns s)) \<le> output_limit cfg fd"
proof (induction ns arbitrary: s)
  case (Cons n ns)
  define r where "r = enforce_output_limit api cfg SYS_write fd n (set_param 2 n s)"
  have "output_used fd (set_param 2 n s) \<le> output_limit cfg fd" using Cons.prems by simp
  then have le: "output_used fd (snd r) \<le> output_limit cfg fd" and
    eq: "unat (output_used fd (snd r)) =
      unat (output_used fd s) + unat (if fst r then get_param (snd r) 2 else 0)"
    using enforce_bounded [OF assms, of "set_param 2 n s"] enforce_counts [OF assms, of "set_param 2 n s" n]
    by (simp_all add: r_def)
  with Cons.IH [OF le] show ?case
    by (auto simp: r_def [symmetric] Let_def split_beta add.assoc)
qed simp

section \<open>Properties\<close>

lemma output_limit_bounds_writes_facts:
  assumes "fd = 1 \<or> fd = 2" and "output_limit cfg fd > 0" and "output_used fd s \<le> output_limit cfg fd"
  shows "unat (output_used fd s) + (\<Sum>k \<leftarrow> fst (write_calls api cfg fd ns s). unat k) =
           unat (output_used fd (snd (write_calls api cfg fd ns s)))"
    and "unat (output_used fd s) + (\<Sum>k \<leftarrow> fst (write_calls api cfg fd ns s). unat k) \<le>
           unat (output_limit cfg fd)"
proof -
  obtain c where "output_counter cfg fd = Some c" using output_counter_some [OF assms(1,2)] by blast
  from write_calls_total [OF this assms(3), of api ns]
  show "unat (output_used fd s) + (\<Sum>k \<leftarrow> fst (write_calls api cfg fd ns s). unat k) =
           unat (output_used fd (snd (write_calls api cfg fd ns s)))"
    and "unat (output_used fd s) + (\<Sum>k \<leftarrow> fst (write_calls api cfg fd ns s). unat k) \<le>
           unat (output_limit cfg fd)"
    by (simp_all add: word_le_nat_alt)
qed



lemma enforce_output_limit_decision_facts:
  fixes cfg :: config and fd :: int and s :: sandbox and k :: size_t
  defines "u \<equiv> output_used fd s" and "l \<equiv> output_limit cfg fd"
  shows "\<not> (fd = 1 \<or> fd = 2) \<or> l = 0 \<Longrightarrow> enforce_output_limit api cfg n fd k s = (True, s)"
    and "fd = 1 \<or> fd = 2 \<Longrightarrow> l > 0 \<Longrightarrow>
      fst (enforce_output_limit api cfg n fd k s) \<longleftrightarrow> u < l \<and> (k \<le> l - u \<or> g_output_truncate cfg)"
    and "\<not> fst (enforce_output_limit api cfg n fd k s) \<Longrightarrow>
      sys_result (snd (enforce_output_limit api cfg n fd k s)) =
        Some (if g_output_truncate cfg then \<lparr>succeeded = True, res_value = 0, errno_value = 0\<rparr>
              else \<lparr>succeeded = False, res_value = 0, errno_value = EFBIG\<rparr>)"
    and "fd = 1 \<or> fd = 2 \<Longrightarrow> l > 0 \<Longrightarrow> n = SYS_write \<or> n = SYS_pwrite64 \<Longrightarrow> get_param s 2 = k \<Longrightarrow>
      fst (enforce_output_limit api cfg n fd k s) \<Longrightarrow>
      get_param (snd (enforce_output_limit api cfg n fd k s)) 2 = min k (l - u)"
proof -
  show "\<not> (fd = 1 \<or> fd = 2) \<or> l = 0 \<Longrightarrow> enforce_output_limit api cfg n fd k s = (True, s)"
    by (auto simp: enforce_output_limit_def output_counter_def l_def output_limit_def)
  show "fd = 1 \<or> fd = 2 \<Longrightarrow> l > 0 \<Longrightarrow>
      fst (enforce_output_limit api cfg n fd k s) \<longleftrightarrow> u < l \<and> (k \<le> l - u \<or> g_output_truncate cfg)"
    using output_counter_some [of fd cfg] output_limit_outcome(1) [where api = api and n = n and k = k and s = s and fd = fd and l = l]
    by (fastforce simp: l_def u_def not_le not_less)
  show "\<not> fst (enforce_output_limit api cfg n fd k s) \<Longrightarrow>
      sys_result (snd (enforce_output_limit api cfg n fd k s)) =
        Some (if g_output_truncate cfg then \<lparr>succeeded = True, res_value = 0, errno_value = 0\<rparr>
              else \<lparr>succeeded = False, res_value = 0, errno_value = EFBIG\<rparr>)"
    by (auto simp: enforce_output_limit_def Let_def set_errno_result_def set_value_result_def
        split: option.splits if_splits)
  assume fd: "fd = 1 \<or> fd = 2" "l > 0" and n: "n = SYS_write \<or> n = SYS_pwrite64"
    and k: "get_param s 2 = k" and ok: "fst (enforce_output_limit api cfg n fd k s)"
  from fd obtain c where "output_counter cfg fd = Some c"
    using output_counter_some [of fd cfg] by (auto simp: l_def)
  from output_limit_outcome(3) [OF this refl n k ok]
  show "get_param (snd (enforce_output_limit api cfg n fd k s)) 2 = min k (l - u)"
    by (auto simp: l_def u_def min_def not_less)
qed

text \<open>
  C32: The decision on one limited write, on every branch. It goes on exactly when the counter is below
  the limit and the request fits or truncation is on; a refused one fails with EFBIG, or returns 0 when
  truncating; a truncated \<open>write\<close> or \<open>pwrite64\<close> gets the remaining room as its count. Other
  descriptors and unset limits are not touched.
\<close>
theorem enforce_output_limit_decision:
  "((\<not> (fd = 1 \<or> fd = 2) \<or> output_limit cfg fd = 0) \<longrightarrow>
      enforce_output_limit api cfg n fd k s = (True, s)) \<and>
   (fd = 1 \<or> fd = 2 \<longrightarrow> output_limit cfg fd > 0 \<longrightarrow>
     (fst (enforce_output_limit api cfg n fd k s) \<longleftrightarrow> output_used fd s < output_limit cfg fd \<and>
        (k \<le> output_limit cfg fd - output_used fd s \<or> g_output_truncate cfg))) \<and>
   (\<not> fst (enforce_output_limit api cfg n fd k s) \<longrightarrow>
     sys_result (snd (enforce_output_limit api cfg n fd k s)) =
        Some (if g_output_truncate cfg then \<lparr>succeeded = True, res_value = 0, errno_value = 0\<rparr>
              else \<lparr>succeeded = False, res_value = 0, errno_value = EFBIG\<rparr>)) \<and>
   (fd = 1 \<or> fd = 2 \<longrightarrow> output_limit cfg fd > 0 \<longrightarrow>
      n = SYS_write \<or> n = SYS_pwrite64 \<longrightarrow>
     get_param s 2 = k \<longrightarrow> fst (enforce_output_limit api cfg n fd k s) \<longrightarrow>
     get_param (snd (enforce_output_limit api cfg n fd k s)) 2 = min k (output_limit cfg fd - output_used fd s))"
  using enforce_output_limit_decision_facts [where fd = fd and cfg = cfg and api = api and n = n and k = k and s = s]
  by blast

theorem enforce_output_limit_decision_witness:
  "get_param (snd (enforce_output_limit plain_api (demo_output True) SYS_write 1 25
     (set_param 2 25 initial_sandbox))) 2 = 10 \<and>
   \<not> fst (enforce_output_limit plain_api (demo_output False) SYS_write 1 25 initial_sandbox)"
proof -
  have l: "output_limit (demo_output b) 1 = 10" for b by (simp add: output_limit_def demo_output_def)
  have u: "output_used 1 initial_sandbox = 0" by (simp add: output_used_def initial_sandbox_def)
  have t: "g_output_truncate (demo_output b) = b" for b by (simp add: demo_output_def)
  have "fst (enforce_output_limit plain_api (demo_output True) SYS_write 1 25 (set_param 2 25 initial_sandbox))"
    using enforce_output_limit_decision [of 1 "demo_output True" plain_api SYS_write 25
        "set_param 2 25 initial_sandbox"] by (simp add: l u t)
  moreover have "\<not> fst (enforce_output_limit plain_api (demo_output False) SYS_write 1 25 initial_sandbox)"
    using enforce_output_limit_decision [of 1 "demo_output False" plain_api SYS_write 25 initial_sandbox]
    by (simp add: l u t)
  ultimately show ?thesis
    using enforce_output_limit_decision [of 1 "demo_output True" plain_api SYS_write 25
        "set_param 2 25 initial_sandbox"] by (simp add: l u)
qed

text \<open>
  The time budget refuses a syscall exactly when a budget and a start time are set, the syscall is
  one of the seven checked ones, and more milliseconds than allowed have passed; the refusal is
  ETIMEDOUT, and a syscall that is not refused leaves the state as it was.
\<close>
lemma check_cpuish_budget_decision:
  assumes "g_start_ms cfg \<le> clock_ms s"
  shows "\<not> fst (check_cpuish_budget api cfg n s) \<longleftrightarrow>
      g_max_cpu_ms cfg \<noteq> 0 \<and> g_start_ms cfg \<noteq> 0 \<and>
      n \<in> {SYS_read, SYS_pread64, SYS_write, SYS_pwrite64, SYS_open, SYS_openat, SYS_creat} \<and>
      unat (clock_ms s) - unat (g_start_ms cfg) > unat (g_max_cpu_ms cfg)"
    and "if fst (check_cpuish_budget api cfg n s) then snd (check_cpuish_budget api cfg n s) = s
      else failed_with ETIMEDOUT (snd (check_cpuish_budget api cfg n s))"
proof -
  show "\<not> fst (check_cpuish_budget api cfg n s) \<longleftrightarrow>
      g_max_cpu_ms cfg \<noteq> 0 \<and> g_start_ms cfg \<noteq> 0 \<and>
      n \<in> {SYS_read, SYS_pread64, SYS_write, SYS_pwrite64, SYS_open, SYS_openat, SYS_creat} \<and>
      unat (clock_ms s) - unat (g_start_ms cfg) > unat (g_max_cpu_ms cfg)"
    using assms
    by (auto simp: check_cpuish_budget_def Let_def cpuish_sysnums_def not_le word_less_nat_alt
        word_le_nat_alt unat_sub_le split: if_splits)
  show "if fst (check_cpuish_budget api cfg n s) then snd (check_cpuish_budget api cfg n s) = s
      else failed_with ETIMEDOUT (snd (check_cpuish_budget api cfg n s))"
    using cpuish_result by (simp split: if_splits)
qed

end
