(* ===== verification/Pre_Paths.thy ===== *)
theory Pre_Paths
  imports Path_Policy Fd_Shadow Limits
begin

text \<open>
  The parts of the pre-syscall event that deal with paths: rewriting one path parameter for the session
  root (\<open>remap_private_path_param\<close>), the branch for \<open>open\<close>, \<open>openat\<close> and \<open>creat\<close>, and the table of
  the other path syscalls with the parameters each of them rewrites. A handler returns whether the
  syscall goes on and the state it leaves.

  The interface \<open>syscall_guard\<close> is the contract of every such handler: a syscall that is let through has
  no forced result, a refused one always has, the memory accounting is left to the post-syscall event,
  the audit log only grows, and the invariant of the client is kept.
\<close>

section \<open>Handlers\<close>

type_synonym handler = "sandbox \<Rightarrow> bool \<times> sandbox"

definition deny :: "nat \<Rightarrow> handler" where
  "deny err s = (False, set_errno_result err s)"

text \<open>
  Handing a remapped path to the kernel: in place when it is not longer than the original, otherwise in
  a fresh buffer that replaces the parameter.
\<close>

definition pass_remapped :: "dr_api \<Rightarrow> nat \<Rightarrow> reg_t \<Rightarrow> string \<Rightarrow> string \<Rightarrow> handler" where
  "pass_remapped api param_index path_arg orig remapped s =
     (if length remapped \<le> length orig then
        let (ok, m) = dr_safe_write api (app_mem s) path_arg (remapped @ [NUL])
        in if ok then (True, s\<lparr>app_mem := m\<rparr>) else deny EFAULT (s\<lparr>app_mem := m\<rparr>)
      else case dr_global_alloc api (app_mem s) 512 of
        None \<Rightarrow> deny ENOMEM s
      | Some (newbuf, m) \<Rightarrow>
          (True, set_param param_index newbuf (s\<lparr>app_mem := mem_store m newbuf (remapped @ [NUL])\<rparr>)))"

definition remap_private_path_param ::
  "dr_api \<Rightarrow> config \<Rightarrow> int \<Rightarrow> nat \<Rightarrow> string \<Rightarrow> bool \<Rightarrow> handler" where
  "remap_private_path_param api cfg sysnum param_index label ensure_parent s =
     (let path_arg = get_param s param_index in
      case read_app_string api (app_mem s) path_arg 512 of
        None \<Rightarrow> deny EFAULT s
      | Some orig \<Rightarrow>
          let policy = effective_path_policy_for cfg orig in
          if policy = PATH_POLICY_BLOCK then
            deny EPERM (audit_path_event api cfg ''block'' sysnum label orig [] s)
          else if policy = PATH_POLICY_READONLY \<and> ensure_parent then
            deny EPERM (audit_path_event api cfg ''readonly'' sysnum label orig [] s)
          else if policy \<noteq> PATH_POLICY_PRIVATE then
            (True, if g_mode cfg = MODE_OBSERVE
                   then audit_path_event api cfg (path_policy_action_name policy) sysnum label orig [] s
                   else s)
          else case remap_path api cfg orig 512 of
            None \<Rightarrow> deny EPERM s
          | Some remapped \<Rightarrow>
              let s1 = (if ensure_parent then ensure_parent_dirs cfg remapped s else s);
                  s2 = audit_path_event api cfg ''remap'' sysnum label orig remapped s1
              in pass_remapped api param_index path_arg orig remapped s2)"

text \<open>Path argument, its index and the flags of the three open calls.\<close>

definition open_args :: "int \<Rightarrow> sandbox \<Rightarrow> reg_t \<times> nat \<times> 32 word" where
  "open_args sysnum s =
     (if sysnum = SYS_openat then (get_param s 1, 1, ucast (get_param s 2))
      else if sysnum = SYS_creat then (get_param s 0, 0, O_WRONLY OR O_CREAT OR O_TRUNC)
      else (get_param s 0, 0, ucast (get_param s 1)))"

text \<open>The record of the open for the post-syscall event.\<close>

definition note_pending_open :: "config \<Rightarrow> string \<Rightarrow> sandbox \<Rightarrow> sandbox" where
  "note_pending_open cfg orig s =
     (let proc_shadow = (case proc_self_fd_target orig of None \<Rightarrow> None
                         | Some proc_fd \<Rightarrow> fd_shadow_get s proc_fd)
      in case proc_shadow of
           None \<Rightarrow> s\<lparr>g_pending_open := True,
                     g_pending_open_block_write := (fd_write_policy_for cfg orig = PATH_POLICY_BLOCK),
                     g_pending_open_path := take 511 orig\<rparr>
         | Some sh \<Rightarrow> s\<lparr>g_pending_open := True, g_pending_open_block_write := block_write sh,
                     g_pending_open_path := take 511 (shadow_path sh)\<rparr>)"

definition pre_open :: "dr_api \<Rightarrow> config \<Rightarrow> int \<Rightarrow> handler" where
  "pre_open api cfg sysnum s =
     (let (path_arg, param_index, flags) = open_args sysnum s in
      case read_app_string api (app_mem s) path_arg 512 of
        None \<Rightarrow> deny EPERM s
      | Some orig \<Rightarrow>
          let policy = effective_path_policy_for cfg orig;
              has_configured_policy = (configured_path_policy_for cfg orig \<noteq> PATH_POLICY_DEFAULT) in
          if policy = PATH_POLICY_BLOCK then
            deny EPERM (audit_path_event api cfg ''block'' sysnum ''open'' orig [] s)
          else if policy = PATH_POLICY_READONLY \<and> open_flags_write_intent flags then
            deny EPERM (audit_path_event api cfg ''readonly'' sysnum ''open'' orig [] s)
          else if \<not> has_configured_policy \<and> g_mode cfg = MODE_STRICT \<and> path_is_blocked orig then
            (if take 11 orig = ''/etc/shadow'' \<and>
                (case drop 11 orig of [] \<Rightarrow> True | c # _ \<Rightarrow> c = CHR ''/'')
             then deny ENOENT s else deny EPERM s)
          else
            let s1 = note_pending_open cfg orig s;
                s2 = audit_semantic_event api cfg ''open'' ''allow'' sysnum (- 1) orig [] s1 in
            if policy \<noteq> PATH_POLICY_PRIVATE then
              (True, if g_mode cfg = MODE_OBSERVE
                     then audit_path_event api cfg (path_policy_action_name policy) sysnum ''open'' orig [] s2
                     else s2)
            else case remap_path api cfg orig 512 of
              None \<Rightarrow> deny EPERM s2
            | Some remapped \<Rightarrow>
                let s3 = (if open_flags_write_intent flags then ensure_parent_dirs cfg remapped s2 else s2);
                    s4 = audit_path_event api cfg ''remap'' sysnum ''open'' orig remapped s3
                in pass_remapped api param_index path_arg orig remapped s4)"

text \<open>
  The switch over the path syscalls: for each the calls of \<open>remap_private_path_param\<close> it makes, as
  parameter index, label and \<open>ensure_parent\<close>.
\<close>

definition path_ops :: "int \<Rightarrow> (nat \<times> string \<times> bool) list option" where
  "path_ops sysnum =
     (if sysnum \<in> {SYS_stat, SYS_lstat, SYS_access, SYS_readlink, SYS_rmdir, SYS_unlink, SYS_truncate,
          SYS_statfs} then Some [(0, ''path'', False)]
      else if sysnum = SYS_mkdir then Some [(0, ''mkdir'', True)]
      else if sysnum \<in> {SYS_fstatat, SYS_faccessat, SYS_faccessat2, SYS_readlinkat, SYS_unlinkat,
          SYS_utimensat} then Some [(1, ''at-path'', False)]
      else if sysnum = SYS_mkdirat then Some [(1, ''mkdirat'', True)]
      else if sysnum = SYS_statx then Some [(1, ''statx'', False)]
      else if sysnum = SYS_rename then Some [(0, ''rename-old'', False), (1, ''rename-new'', True)]
      else if sysnum \<in> {SYS_renameat, SYS_renameat2}
      then Some [(1, ''renameat-old'', False), (3, ''renameat-new'', True)]
      else if sysnum = SYS_link then Some [(0, ''link-old'', False), (1, ''link-new'', True)]
      else if sysnum = SYS_linkat then Some [(1, ''linkat-old'', False), (3, ''linkat-new'', True)]
      else if sysnum = SYS_symlink then Some [(1, ''symlink-new'', True)]
      else if sysnum = SYS_symlinkat then Some [(2, ''symlinkat-new'', True)]
      else None)"

fun run_path_ops :: "dr_api \<Rightarrow> config \<Rightarrow> int \<Rightarrow> (nat \<times> string \<times> bool) list \<Rightarrow> handler" where
  "run_path_ops api cfg sysnum [] s = (True, s)"
| "run_path_ops api cfg sysnum ((i, label, ensure_parent) # ops) s =
     (let (ok, s1) = remap_private_path_param api cfg sysnum i label ensure_parent s
      in if ok then run_path_ops api cfg sysnum ops s1 else (False, s1))"

section \<open>The contract of a handler\<close>

text \<open>
  The invariant of the client: the shadow table is well formed, a noted path fits its buffer and each
  limited output counter is within its limit.
\<close>

definition client_ok :: "config \<Rightarrow> sandbox \<Rightarrow> bool" where
  "client_ok cfg s =
     (shadow_ok s \<and> length (g_pending_open_path s) \<le> 511 \<and>
      (g_max_stdout_bytes cfg > 0 \<longrightarrow> g_stdout_bytes s \<le> g_max_stdout_bytes cfg) \<and>
      (g_max_stderr_bytes cfg > 0 \<longrightarrow> g_stderr_bytes s \<le> g_max_stderr_bytes cfg))"

definition mem_accounting :: "sandbox \<Rightarrow> size_t \<times> reg_t \<times> reg_t" where
  "mem_accounting s = (g_alloc_bytes s, g_initial_brk s, g_current_brk s)"

locale syscall_guard =
  fixes cfg :: config and h :: handler
  assumes allowed: "fst (h s) \<Longrightarrow> sys_result (snd (h s)) = sys_result s"
    and refused: "\<not> fst (h s) \<Longrightarrow>
      \<exists>r. sys_result (snd (h s)) = Some r \<and> res_value r = 0 \<and> (succeeded r \<longleftrightarrow> errno_value r = 0)"
    and accounting: "mem_accounting (snd (h s)) = mem_accounting s"
    and audit_grows: "prefix (audit_lines s) (audit_lines (snd (h s)))"
    and keeps: "client_ok cfg s \<Longrightarrow> client_ok cfg (snd (h s))"
begin

text \<open>A syscall that enters without a result leaves with one exactly when it is refused.\<close>

lemma refused_iff: "sys_result s = None \<Longrightarrow> fst (h s) \<longleftrightarrow> sys_result (snd (h s)) = None"
  using allowed [of s] refused [of s] by (metis option.distinct(1))

end

section \<open>Proving the contract\<close>

text \<open>
  The contract at one state, and the state changes that are harmless for it. Handlers are built from
  harmless changes, denials and the limit check, so their contracts follow by the rules below.
\<close>

definition benign :: "config \<Rightarrow> sandbox \<Rightarrow> sandbox \<Rightarrow> bool" where
  "benign cfg s s' =
     (sys_result s' = sys_result s \<and> mem_accounting s' = mem_accounting s \<and>
      prefix (audit_lines s) (audit_lines s') \<and> (client_ok cfg s \<longrightarrow> client_ok cfg s'))"

definition guarded :: "config \<Rightarrow> sandbox \<Rightarrow> bool \<times> sandbox \<Rightarrow> bool" where
  "guarded cfg s r =
     ((if fst r then sys_result (snd r) = sys_result s
       else \<exists>i. sys_result (snd r) = Some i \<and> res_value i = 0 \<and> (succeeded i \<longleftrightarrow> errno_value i = 0)) \<and>
      mem_accounting (snd r) = mem_accounting s \<and> prefix (audit_lines s) (audit_lines (snd r)) \<and>
      (client_ok cfg s \<longrightarrow> client_ok cfg (snd r)))"

named_theorems guard_rules

lemma guardI: "(\<And>s. guarded cfg s (h s)) \<Longrightarrow> syscall_guard cfg h"
  by unfold_locales (auto simp: guarded_def split: if_splits)

lemma benign_refl [guard_rules]: "benign cfg s s"
  by (simp add: benign_def)

lemma benign_trans: "benign cfg s s1 \<Longrightarrow> benign cfg s1 s2 \<Longrightarrow> benign cfg s s2"
  by (auto simp: benign_def)

lemma guarded_allow [guard_rules]: "benign cfg s s' \<Longrightarrow> guarded cfg s (True, s')"
  by (simp add: guarded_def benign_def)

lemma guarded_after: "benign cfg s s1 \<Longrightarrow> guarded cfg s1 r \<Longrightarrow> guarded cfg s r"
  by (auto simp: guarded_def benign_def)

lemma client_ok_cong:
  "g_fd_shadow s' = g_fd_shadow s \<Longrightarrow> g_pending_open_path s' = g_pending_open_path s \<Longrightarrow>
   g_stdout_bytes s' = g_stdout_bytes s \<Longrightarrow> g_stderr_bytes s' = g_stderr_bytes s \<Longrightarrow>
   client_ok cfg s' = client_ok cfg s"
  by (simp add: client_ok_def shadow_ok_def)

lemma guarded_deny [guard_rules]:
  assumes "benign cfg s s'" and "0 < err"
  shows "guarded cfg s (deny err s')"
proof -
  have "client_ok cfg (set_errno_result err s') = client_ok cfg s'"
    by (rule client_ok_cong) (simp_all add: set_errno_result_def)
  with assms show ?thesis
    by (simp add: guarded_def benign_def deny_def set_errno_result_def mem_accounting_def)
qed

lemma benign_path_event [guard_rules]:
  "benign cfg s s1 \<Longrightarrow> benign cfg s (audit_path_event api cfg' a n l p r s1)"
  by (simp add: benign_def mem_accounting_def audit_events_frame client_ok_def shadow_ok_def prefix_append)

lemma benign_syscall_event [guard_rules]:
  "benign cfg s s1 \<Longrightarrow> benign cfg s (audit_syscall_event api cfg' a n s1)"
  by (simp add: benign_def mem_accounting_def audit_events_frame client_ok_def shadow_ok_def prefix_append)

lemma benign_semantic_event [guard_rules]:
  "benign cfg s s1 \<Longrightarrow> benign cfg s (audit_semantic_event api cfg' nm a n fd p pe s1)"
  by (simp add: benign_def mem_accounting_def audit_events_frame client_ok_def shadow_ok_def prefix_append)

lemma benign_dirs [guard_rules]: "benign cfg s s1 \<Longrightarrow> benign cfg s (ensure_parent_dirs cfg' p s1)"
  by (simp add: benign_def mem_accounting_def ensure_parent_dirs_def client_ok_def shadow_ok_def)

lemma benign_param [guard_rules]: "benign cfg s s1 \<Longrightarrow> benign cfg s (set_param i v s1)"
  by (simp add: benign_def mem_accounting_def set_param_def client_ok_def shadow_ok_def)

lemma benign_mem [guard_rules]: "benign cfg s s1 \<Longrightarrow> benign cfg s (s1\<lparr>app_mem := m\<rparr>)"
  by (simp add: benign_def mem_accounting_def client_ok_def shadow_ok_def)

lemma benign_pending_open [guard_rules]:
  "benign cfg s s1 \<Longrightarrow> benign cfg s (note_pending_open cfg' p s1)"
  by (simp add: benign_def mem_accounting_def note_pending_open_def Let_def client_ok_def shadow_ok_def
      split: option.splits)

lemma benign_if [guard_rules]:
  "benign cfg s s1 \<Longrightarrow> benign cfg s s2 \<Longrightarrow> benign cfg s (if b then s1 else s2)"
  by simp

section \<open>The path handlers meet it\<close>

lemma guarded_pass_remapped [guard_rules]:
  "benign cfg s s1 \<Longrightarrow> guarded cfg s (pass_remapped api i a orig r s1)"
  by (auto simp: pass_remapped_def Let_def split: option.splits prod.splits intro!: guard_rules)

lemma guarded_remap_param [guard_rules]:
  "guarded cfg s (remap_private_path_param api cfg n i l e s)"
  by (auto simp: remap_private_path_param_def Let_def split: option.splits intro!: guard_rules)

lemma guarded_open [guard_rules]: "guarded cfg s (pre_open api cfg n s)"
  by (auto simp: pre_open_def Let_def split: option.splits prod.splits list.splits intro!: guard_rules)

interpretation remap_guard: syscall_guard cfg "remap_private_path_param api cfg n i l e"
  for api cfg n i l e by (rule guardI) (rule guarded_remap_param)

interpretation open_guard: syscall_guard cfg "pre_open api cfg n" for api cfg n
  by (rule guardI) (rule guarded_open)

lemma guarded_seq:
  "guarded cfg s (ok, s1) \<Longrightarrow> (ok \<Longrightarrow> guarded cfg s1 r) \<Longrightarrow> guarded cfg s (if ok then r else (False, s1))"
  by (auto simp: guarded_def)

lemma guarded_path_ops [guard_rules]: "guarded cfg s (run_path_ops api cfg n ops s)"
proof (induction ops arbitrary: s)
  case Nil
  then show ?case by (auto intro: guard_rules)
next
  case (Cons op ops)
  obtain i l e where op: "op = (i, l, e)" by (cases op)
  obtain ok s1 where r: "remap_private_path_param api cfg n i l e s = (ok, s1)" by fastforce
  have "guarded cfg s (ok, s1)" using guarded_remap_param [of cfg s api n i l e] r by simp
  then show ?case using guarded_seq [of cfg s ok s1] Cons.IH [of s1] by (simp add: op r)
qed

interpretation path_ops_guard: syscall_guard cfg "run_path_ops api cfg n ops" for api cfg n ops
  by (rule guardI) (rule guarded_path_ops)

section \<open>What the kernel is given\<close>

text \<open>Changes that leave the parameters and the memory of the application alone.\<close>

definition same_call :: "sandbox \<Rightarrow> sandbox \<Rightarrow> bool" where
  "same_call s s' = (app_mem s' = app_mem s \<and> get_param s' = get_param s)"

lemma same_call_rules [simp]:
  "same_call s s"
  "same_call s s1 \<Longrightarrow> same_call s (audit_path_event api cfg a n l p r s1)"
  "same_call s s1 \<Longrightarrow> same_call s (audit_semantic_event api cfg nm a n fd p pe s1)"
  "same_call s s1 \<Longrightarrow> same_call s (audit_syscall_event api cfg a n s1)"
  "same_call s s1 \<Longrightarrow> same_call s (ensure_parent_dirs cfg p s1)"
  "same_call s s1 \<Longrightarrow> same_call s (note_pending_open cfg p s1)"
  "same_call s s1 \<Longrightarrow> same_call s (set_errno_result e s1)"
  by (simp_all add: same_call_def get_param_def fun_eq_iff audit_events_frame ensure_parent_dirs_def
      note_pending_open_def Let_def set_errno_result_def split: option.splits)

text \<open>
  Handing over a remapped path: the bytes the application sees afterwards. In place, only the bytes of
  the path change; with a fresh buffer, no byte of the application does.
\<close>

definition handed_over :: "mem \<Rightarrow> mem \<Rightarrow> reg_t \<Rightarrow> string \<Rightarrow> string \<Rightarrow> bool" where
  "handed_over m m' a orig r =
     (\<forall>x. (if length r \<le> length orig then \<forall>k \<le> length r. x \<noteq> a + word_of_nat k else m x \<noteq> None) \<longrightarrow>
        m' x = m x)"

lemma handed_over_fresh:
  "handed_over m m' a orig r \<Longrightarrow> length orig < length r \<Longrightarrow> m x \<noteq> None \<Longrightarrow> m' x = m x"
  by (simp add: handed_over_def)

lemma pass_remapped_verdict:
  "fst (pass_remapped api i a orig r s) \<longleftrightarrow>
    (if length r \<le> length orig then fst (dr_safe_write api (app_mem s) a (r @ [NUL]))
     else dr_global_alloc api (app_mem s) 512 \<noteq> None)"
  "\<not> fst (pass_remapped api i a orig r s) \<Longrightarrow>
    failed_with (if length r \<le> length orig then EFAULT else ENOMEM) (snd (pass_remapped api i a orig r s))"
  by (auto simp: pass_remapped_def deny_def split: option.splits prod.splits)

lemma pass_remapped_result:
  assumes "safe_write_ok api" and "alloc_ok api" and "NUL \<notin> set r" and "length r < 512"
    and "get_param s i = a" and "fst (pass_remapped api i a orig r s)"
  defines "s' \<equiv> snd (pass_remapped api i a orig r s)"
  shows "cstring_at (app_mem s') (get_param s' i) r"
    and "s' = s\<lparr>app_mem := app_mem s', sys_params := (sys_params s)(i := get_param s' i)\<rparr>"
    and "length r \<le> length orig \<Longrightarrow> get_param s' i = a"
    and "handed_over (app_mem s) (app_mem s') a orig r"
proof -
  have store: "cstring_at (mem_store m x (r @ [NUL])) x r" for m x
    using assms(3,4) by (intro cstring_at_store) simp_all
  have "cstring_at (app_mem s') (get_param s' i) r \<and>
    s' = s\<lparr>app_mem := app_mem s', sys_params := (sys_params s)(i := get_param s' i)\<rparr> \<and>
    (length r \<le> length orig \<longrightarrow> get_param s' i = a) \<and> handed_over (app_mem s) (app_mem s') a orig r"
  proof (cases "length r \<le> length orig")
    case True
    obtain ok m where w: "dr_safe_write api (app_mem s) a (r @ [NUL]) = (ok, m)" by fastforce
    with True assms(6) have "ok" and s': "s' = s\<lparr>app_mem := m\<rparr>"
      by (auto simp: s'_def pass_remapped_def deny_def split: if_splits)
    then have m: "m = mem_store (app_mem s) a (r @ [NUL])"
      using assms(1) w unfolding safe_write_ok_def by (metis fst_conv snd_conv)
    have "handed_over (app_mem s) m a orig r"
      using True by (auto simp: handed_over_def m less_Suc_eq_le intro!: mem_store_other)
    moreover have "s\<lparr>app_mem := m, sys_params := (sys_params s)(i := a)\<rparr> = s\<lparr>app_mem := m\<rparr>"
      using assms(5) by (simp add: get_param_def fun_upd_idem)
    ultimately show ?thesis using store [of "app_mem s" a] assms(5) by (simp add: s' m get_param_def)
  next
    case False
    then obtain x m where al: "dr_global_alloc api (app_mem s) 512 = Some (x, m)"
      and s': "s' = set_param i x (s\<lparr>app_mem := mem_store m x (r @ [NUL])\<rparr>)"
      using assms(6) by (auto simp: s'_def pass_remapped_def deny_def split: option.splits)
    have fresh: "\<forall>k < 512. app_mem s (x + word_of_nat k) = None"
      and rest: "\<forall>y. (\<forall>k < 512. y \<noteq> x + word_of_nat k) \<longrightarrow> m y = app_mem s y"
      using assms(2) al unfolding alloc_ok_def by blast+
    have "mem_store m x (r @ [NUL]) y = app_mem s y" if "app_mem s y \<noteq> None" for y
    proof -
      have out: "\<forall>k < 512. y \<noteq> x + word_of_nat k" using that fresh by auto
      then have "mem_store m x (r @ [NUL]) y = m y" using assms(4) by (intro mem_store_other) simp
      then show ?thesis using rest out by simp
    qed
    then have "handed_over (app_mem s) (app_mem s') a orig r" using False by (simp add: handed_over_def s' set_param_def)
    then show ?thesis using False store [of m x] by (simp add: s' set_param_def get_param_def)
  qed
  then show "cstring_at (app_mem s') (get_param s' i) r"
    and "s' = s\<lparr>app_mem := app_mem s', sys_params := (sys_params s)(i := get_param s' i)\<rparr>"
    and "length r \<le> length orig \<Longrightarrow> get_param s' i = a"
    and "handed_over (app_mem s) (app_mem s') a orig r" by blast+
qed

lemma open_args_index: "open_args n s = (a, i, flags) \<Longrightarrow> get_param s i = a"
  by (auto simp: open_args_def split: if_splits)

text \<open>What the open branch does, by policy, once the path has been read.\<close>

definition strictly_blocked :: "config \<Rightarrow> string \<Rightarrow> bool" where
  "strictly_blocked cfg orig =
     (configured_path_policy_for cfg orig = PATH_POLICY_DEFAULT \<and> g_mode cfg = MODE_STRICT \<and>
      path_is_blocked orig)"

lemma pending_open_frame [frame_simps, simp]:
  "g_pending_open (audit_path_event api cfg act n l p r s) = g_pending_open s"
  "g_pending_open (audit_semantic_event api cfg nm act n fd p pe s) = g_pending_open s"
  "g_pending_open (ensure_parent_dirs cfg p s) = g_pending_open s"
  "g_pending_open (note_pending_open cfg p s)"
  by (simp_all add: audit_events_frame ensure_parent_dirs_def note_pending_open_def Let_def
      split: option.splits)

text \<open>The state a private open has reached when its path is handed over.\<close>

definition private_open_state ::
  "dr_api \<Rightarrow> config \<Rightarrow> int \<Rightarrow> 32 word \<Rightarrow> string \<Rightarrow> string \<Rightarrow> sandbox \<Rightarrow> sandbox" where
  "private_open_state api cfg n flags orig r s =
     (note_pending_open cfg orig s)\<lparr>
       made_dirs := made_dirs s @
         (if open_flags_write_intent flags then parent_dirs (length (g_sandbox_root cfg)) r else []),
       audit_lines := audit_lines s @
         (if g_semantic_audit cfg
          then [audit_semantic_line api cfg ''open'' ''allow'' n (- 1) orig []] else []) @
         (if g_audit_jsonl cfg then [audit_path_line api cfg ''remap'' n ''open'' orig r] else [])\<rparr>"

lemma private_open_same: "same_call s (private_open_state api cfg n flags orig r s)"
  by (simp add: private_open_state_def same_call_def get_param_def fun_eq_iff note_pending_open_def Let_def
      split: option.splits)

lemma pre_open_private:
  assumes "open_args n s = (a, i, flags)" and "read_app_string api (app_mem s) a 512 = Some orig"
    and "effective_path_policy_for cfg orig = PATH_POLICY_PRIVATE" and "\<not> strictly_blocked cfg orig"
    and "remap_path api cfg orig 512 = Some r" and "length r < 512"
  shows "pre_open api cfg n s = pass_remapped api i a orig r (private_open_state api cfg n flags orig r s)"
proof -
  let ?s2 = "audit_semantic_event api cfg ''open'' ''allow'' n (- 1) orig [] (note_pending_open cfg orig s)"
  let ?s1 = "audit_path_event api cfg ''remap'' n ''open'' orig r
      (if open_flags_write_intent flags then ensure_parent_dirs cfg r ?s2 else ?s2)"
  have "pre_open api cfg n s = pass_remapped api i a orig r ?s1"
    using assms unfolding strictly_blocked_def by (auto simp: pre_open_def Let_def)
  moreover have "?s1 = private_open_state api cfg n flags orig r s"
    using assms(6)
    by (simp add: private_open_state_def audit_events_frame ensure_parent_dirs_def note_pending_open_def
        Let_def split: option.splits)
  ultimately show ?thesis by simp
qed

lemma no_nul_join:
  "NUL \<notin> set root \<Longrightarrow> NUL \<notin> set orig \<Longrightarrow> NUL \<notin> set (root @ dropWhile P orig)"
  by (auto dest: set_dropWhileD)

text \<open>An application state holding one path at address 4096.\<close>

definition demo_call :: "string \<Rightarrow> (nat \<Rightarrow> reg_t) \<Rightarrow> sandbox" where
  "demo_call path ps = initial_sandbox\<lparr>app_mem := mem_store (\<lambda>_. None) 4096 (path @ [NUL]), sys_params := ps\<rparr>"

lemma demo_call_string:
  "NUL \<notin> set path \<Longrightarrow> length path < 600 \<Longrightarrow> cstring_at (app_mem (demo_call path ps)) 4096 path"
  unfolding demo_call_def by (simp add: cstring_at_store)

text \<open>The heap of \<open>plain_api\<close> is apart from that path.\<close>

lemma demo_call_free:
  assumes "k < 512" and "length path < 600"
  shows "app_mem (demo_call path ps) (140000000000000 + word_of_nat k) = None"
proof -
  have "(140000000000000 :: reg_t) + word_of_nat k \<noteq> 4096 + word_of_nat j" if "j < 601" for j
  proof
    assume eq: "(140000000000000 :: reg_t) + word_of_nat k = 4096 + word_of_nat j"
    have "(word_of_nat (140000000000000 + k) :: reg_t) = word_of_nat (4096 + j)" using eq by simp
    from arg_cong [where f = unat, OF this] show False using assms(1) that by (simp add: unat_of_nat del: of_nat_add)
  qed
  then show ?thesis using assms(2) by (simp add: demo_call_def mem_store_other)
qed

lemma demo_call_param [simp]: "get_param (demo_call path ps) = ps"
  by (simp add: demo_call_def get_param_def fun_eq_iff)

lemma failed_deny [simp]: "failed_with e (snd (deny e' s)) \<longleftrightarrow> e = e'" "fst (deny e s) = False"
  by (simp_all add: deny_def)

lemma same_call_deny [simp]: "same_call s s1 \<Longrightarrow> same_call s (snd (deny e s1))"
  by (simp add: deny_def)

lemma shadow_prefix_test:
  "path_has_prefix_component orig ''/etc/shadow'' \<longleftrightarrow>
     take 11 orig = ''/etc/shadow'' \<and> (case drop 11 orig of [] \<Rightarrow> True | c # _ \<Rightarrow> c = CHR ''/'')"
proof -
  have "length ''/etc/shadow'' = 11" by simp
  then show ?thesis by (simp only: path_has_prefix_component_def)
qed

lemma canonical_slashes:
  assumes "0 < k"
  shows "canonical_copy (replicate k (CHR ''/'')) = ''/''"
proof -
  have "dropWhile is_slash (take 511 (replicate k (CHR ''/''))) = []"
    by (simp add: dropWhile_eq_Nil_conv)
  then have "canonicalize_path (replicate k (CHR ''/'')) 512 = ''/''"
    unfolding canonicalize_path_def Let_def by (simp add: canon_loop.simps [of 511 "[]"])
  with assms show ?thesis by (cases k) (simp_all add: canonical_copy_def)
qed

lemma remap_param_readonly:
  assumes "read_app_string api (app_mem s) (get_param s i) 512 = Some orig"
    and "effective_path_policy_for cfg orig = PATH_POLICY_READONLY"
  shows "fst (remap_private_path_param api cfg n i l e s) \<longleftrightarrow> \<not> e"
    and "same_call s (snd (remap_private_path_param api cfg n i l e s))"
  using assms by (simp_all add: remap_private_path_param_def Let_def)

definition names_readonly :: "dr_api \<Rightarrow> config \<Rightarrow> sandbox \<Rightarrow> nat \<Rightarrow> bool" where
  "names_readonly api cfg s i =
     (case read_app_string api (app_mem s) (get_param s i) 512 of None \<Rightarrow> False
      | Some orig \<Rightarrow> effective_path_policy_for cfg orig = PATH_POLICY_READONLY)"

lemma names_readonly_same: "same_call s s1 \<Longrightarrow> names_readonly api cfg s1 i = names_readonly api cfg s i"
  by (simp add: names_readonly_def same_call_def)

lemma run_path_ops_readonly:
  "\<forall>(i, l, e) \<in> set ops. names_readonly api cfg s i \<Longrightarrow>
    (fst (run_path_ops api cfg n ops s) \<longleftrightarrow> (\<forall>(i, l, e) \<in> set ops. \<not> e)) \<and>
    same_call s (snd (run_path_ops api cfg n ops s))"
proof (induction ops arbitrary: s)
  case (Cons op ops)
  obtain i l e where op: "op = (i, l, e)" by (cases op)
  obtain ok s1 where r: "remap_private_path_param api cfg n i l e s = (ok, s1)" by fastforce
  from Cons.prems op obtain orig where "read_app_string api (app_mem s) (get_param s i) 512 = Some orig"
    and "effective_path_policy_for cfg orig = PATH_POLICY_READONLY"
    by (auto simp: names_readonly_def split: option.splits)
  from remap_param_readonly [OF this, of n l e] r have ok: "ok \<longleftrightarrow> \<not> e" and same: "same_call s s1" by simp_all
  have "\<forall>(i, l, e) \<in> set ops. names_readonly api cfg s1 i"
    using Cons.prems names_readonly_same [OF same] by auto
  from Cons.IH [OF this] ok same show ?case by (auto simp: op r same_call_def)
qed simp

lemma relative_not_blocked:
  assumes "orig \<noteq> []" and "hd orig \<noteq> CHR ''/''"
  shows "\<not> path_is_blocked orig"
proof -
  obtain c cs where "orig = c # cs" using assms(1) by (cases orig) auto
  with assms(2) show ?thesis
    by (simp add: path_is_blocked_def canonical_copy_def BLOCKED_EXACT_def BLOCKED_PREFIXES_def)
qed

lemma pre_open_pass:
  assumes "open_args n s = (a, i, flags)" and "read_app_string api (app_mem s) a 512 = Some orig"
    and "effective_path_policy_for cfg orig = PATH_POLICY_PASS" and "\<not> strictly_blocked cfg orig"
  shows "fst (pre_open api cfg n s)" and "same_call s (snd (pre_open api cfg n s))"
proof -
  let ?s2 = "audit_semantic_event api cfg ''open'' ''allow'' n (- 1) orig [] (note_pending_open cfg orig s)"
  have "pre_open api cfg n s =
      (True, if g_mode cfg = MODE_OBSERVE then audit_path_event api cfg ''pass'' n ''open'' orig [] ?s2 else ?s2)"
    using assms unfolding strictly_blocked_def by (auto simp: pre_open_def Let_def path_policy_action_name_def)
  then show "fst (pre_open api cfg n s)" and "same_call s (snd (pre_open api cfg n s))" by simp_all
qed

text \<open>A strict configuration without rules and without the redirection of \<open>/tmp\<close>.\<close>

definition strict_config :: config where
  "strict_config = demo_config\<lparr>g_mode := MODE_STRICT, g_redirect_tmp := False, g_block_network := True,
     g_block_exec := True, g_block_prot_exec := True, g_stdio_only_writes := True\<rparr>"

section \<open>Properties\<close>

lemma private_open_redirected_facts:
  assumes "safe_read_ok api" and "safe_write_ok api" and "snprintf_ok api" and "alloc_ok api"
    and "open_args n s = (a, i, flags)" and "cstring_at (app_mem s) a orig" and "length orig \<le> 511"
    and "effective_path_policy_for cfg orig = PATH_POLICY_PRIVATE" and "\<not> strictly_blocked cfg orig"
    and "g_sandbox_root cfg \<noteq> []" and "NUL \<notin> set (g_sandbox_root cfg)"
    and "r = g_sandbox_root cfg @ dropWhile is_slash orig" and "length r < 512"
    and "pre_open api cfg n s = (ok, s')"
  shows "ok \<longleftrightarrow> (if length r \<le> length orig then fst (dr_safe_write api (app_mem s) a (r @ [NUL]))
                 else dr_global_alloc api (app_mem s) 512 \<noteq> None)"
    and "\<not> ok \<Longrightarrow> failed_with (if length r \<le> length orig then EFAULT else ENOMEM) s'"
    and "ok \<Longrightarrow> cstring_at (app_mem s') (get_param s' i) r"
    and "ok \<Longrightarrow> handed_over (app_mem s) (app_mem s') a orig r"
    and "ok \<Longrightarrow> length r \<le> length orig \<Longrightarrow> get_param s' i = a"
    and "ok \<Longrightarrow> s' = (private_open_state api cfg n flags orig r s)
                 \<lparr>app_mem := app_mem s', sys_params := (sys_params s)(i := get_param s' i)\<rparr>"
proof -
  let ?p = "private_open_state api cfg n flags orig r s"
  have "read_app_string api (app_mem s) a 512 = Some orig"
    using read_app_string_cstring [OF assms(1,6), of 512] assms(7) by simp
  moreover have "remap_path api cfg orig 512 = Some r"
    using remap_path_fits assms(3,10,12,13) by blast
  ultimately have eq: "pass_remapped api i a orig r ?p = (ok, s')"
    using pre_open_private [of n s a i flags api orig cfg r] assms(5,8,9,13,14) by simp
  have same: "app_mem ?p = app_mem s" "get_param ?p = get_param s" "sys_params ?p = sys_params s"
    using private_open_same [of s api cfg n flags orig r] by (simp_all add: same_call_def get_param_def fun_eq_iff)
  show "ok \<longleftrightarrow> (if length r \<le> length orig then fst (dr_safe_write api (app_mem s) a (r @ [NUL]))
                 else dr_global_alloc api (app_mem s) 512 \<noteq> None)"
    and "\<not> ok \<Longrightarrow> failed_with (if length r \<le> length orig then EFAULT else ENOMEM) s'"
    using pass_remapped_verdict [of api i a orig r ?p] eq same(1) by simp_all
  have nul: "NUL \<notin> set r" using no_nul_join assms(6,11,12) unfolding cstring_at_def by blast
  have par: "get_param ?p i = a" using open_args_index [OF assms(5)] same(2) by simp
  note res = pass_remapped_result [OF assms(2,4) nul assms(13) par, of orig, unfolded eq fst_conv snd_conv same]
  show "ok \<Longrightarrow> cstring_at (app_mem s') (get_param s' i) r"
    and "ok \<Longrightarrow> handed_over (app_mem s) (app_mem s') a orig r"
    and "ok \<Longrightarrow> length r \<le> length orig \<Longrightarrow> get_param s' i = a"
    and "ok \<Longrightarrow> s' = ?p\<lparr>app_mem := app_mem s', sys_params := (sys_params s)(i := get_param s' i)\<rparr>"
    using res by blast+
qed



lemma open_decision_facts:
  assumes "open_args n s = (a, i, flags)" and "read_app_string api (app_mem s) a 512 = Some orig"
  shows "effective_path_policy_for cfg orig = PATH_POLICY_BLOCK \<Longrightarrow>
      \<not> fst (pre_open api cfg n s) \<and> failed_with EPERM (snd (pre_open api cfg n s))"
    and "effective_path_policy_for cfg orig = PATH_POLICY_READONLY \<Longrightarrow>
      (fst (pre_open api cfg n s) \<longleftrightarrow> \<not> open_flags_write_intent flags) \<and>
      (open_flags_write_intent flags \<longrightarrow> failed_with EPERM (snd (pre_open api cfg n s)))"
    and "strictly_blocked cfg orig \<Longrightarrow>
      \<not> fst (pre_open api cfg n s) \<and>
      failed_with (if path_has_prefix_component orig ''/etc/shadow'' then ENOENT else EPERM)
        (snd (pre_open api cfg n s))"
    and "effective_path_policy_for cfg orig = PATH_POLICY_PASS \<Longrightarrow> \<not> strictly_blocked cfg orig \<Longrightarrow>
      fst (pre_open api cfg n s)"
    and "effective_path_policy_for cfg orig \<noteq> PATH_POLICY_PRIVATE \<or> strictly_blocked cfg orig \<Longrightarrow>
      same_call s (snd (pre_open api cfg n s))"
proof -
  show "effective_path_policy_for cfg orig = PATH_POLICY_BLOCK \<Longrightarrow>
      \<not> fst (pre_open api cfg n s) \<and> failed_with EPERM (snd (pre_open api cfg n s))"
    using assms by (simp add: pre_open_def)
  have unconf: "configured_path_policy_for cfg orig = PATH_POLICY_DEFAULT \<Longrightarrow>
      effective_path_policy_for cfg orig \<in> {PATH_POLICY_PRIVATE, PATH_POLICY_PASS}"
    by (simp add: effective_path_policy_for_def)
  show "effective_path_policy_for cfg orig = PATH_POLICY_READONLY \<Longrightarrow>
      (fst (pre_open api cfg n s) \<longleftrightarrow> \<not> open_flags_write_intent flags) \<and>
      (open_flags_write_intent flags \<longrightarrow> failed_with EPERM (snd (pre_open api cfg n s)))"
    using assms unconf by (auto simp: pre_open_def Let_def)
  have st: "strictly_blocked cfg orig \<Longrightarrow> pre_open api cfg n s =
      deny (if path_has_prefix_component orig ''/etc/shadow'' then ENOENT else EPERM) s"
    using assms unconf unfolding strictly_blocked_def shadow_prefix_test by (auto simp: pre_open_def Let_def)
  then show "strictly_blocked cfg orig \<Longrightarrow> \<not> fst (pre_open api cfg n s) \<and>
      failed_with (if path_has_prefix_component orig ''/etc/shadow'' then ENOENT else EPERM)
        (snd (pre_open api cfg n s))" by simp
  show "effective_path_policy_for cfg orig = PATH_POLICY_PASS \<Longrightarrow> \<not> strictly_blocked cfg orig \<Longrightarrow>
      fst (pre_open api cfg n s)"
    using pre_open_pass [OF assms] by blast
  show "effective_path_policy_for cfg orig \<noteq> PATH_POLICY_PRIVATE \<or> strictly_blocked cfg orig \<Longrightarrow>
      same_call s (snd (pre_open api cfg n s))"
    using assms st by (auto simp: pre_open_def Let_def)
qed

text \<open>
  C16: The decision on an open whose path is readable. Block rules (EPERM), read-only rules for opens
  that may write (EPERM) and in strict mode the blocklist (ENOENT for \<open>/etc/shadow\<close> and below it, EPERM
  for the rest) refuse it, and the refused call is left as it was; an open that none of these concerns
  and that is not redirected goes to the kernel with its path and its parameters untouched, in strict
  mode too: paths outside of the blocklist are not remapped.
\<close>
theorem open_decision:
  assumes "open_args n s = (a, i, flags)" and "read_app_string api (app_mem s) a 512 = Some orig"
  shows "(effective_path_policy_for cfg orig = PATH_POLICY_BLOCK \<longrightarrow>
      (\<not> fst (pre_open api cfg n s) \<and> failed_with EPERM (snd (pre_open api cfg n s)))) \<and>
    (effective_path_policy_for cfg orig = PATH_POLICY_READONLY \<longrightarrow>
      (fst (pre_open api cfg n s) \<longleftrightarrow> \<not> open_flags_write_intent flags) \<and>
      (open_flags_write_intent flags \<longrightarrow> failed_with EPERM (snd (pre_open api cfg n s)))) \<and>
    (strictly_blocked cfg orig \<longrightarrow> (\<not> fst (pre_open api cfg n s) \<and>
      failed_with (if path_has_prefix_component orig ''/etc/shadow'' then ENOENT else EPERM)
        (snd (pre_open api cfg n s)))) \<and>
    (effective_path_policy_for cfg orig = PATH_POLICY_PASS \<longrightarrow>
      \<not> strictly_blocked cfg orig \<longrightarrow> fst (pre_open api cfg n s)) \<and>
    ((effective_path_policy_for cfg orig \<noteq> PATH_POLICY_PRIVATE \<or> strictly_blocked cfg orig) \<longrightarrow> same_call s (snd (pre_open api cfg n s)))"
  using open_decision_facts [OF assms] by blast

theorem open_decision_witness:
  "failed_with ENOENT (snd (pre_open plain_api strict_config SYS_open (demo_call ''/etc/shadow'' (\<lambda>_. 4096)))) \<and>
   failed_with EPERM (snd (pre_open plain_api strict_config SYS_open (demo_call ''/etc/passwd'' (\<lambda>_. 4096)))) \<and>
   fst (pre_open plain_api strict_config SYS_open (demo_call ''/opt/x'' (\<lambda>_. 4096)))"
proof -
  have args: "open_args SYS_open (demo_call p (\<lambda>_. 4096)) = (4096, 0, ucast (4096 :: reg_t))" for p
    by (simp add: open_args_def)
  have str: "read_app_string plain_api (app_mem (demo_call p (\<lambda>_. 4096))) 4096 512 = Some p"
    if "NUL \<notin> set p" "length p < 100" for p
    using read_app_string_cstring [OF plain_api_ok(2) demo_call_string [of p "\<lambda>_. 4096"], of 512] that by simp
  have b: "strictly_blocked strict_config ''/etc/shadow''" "strictly_blocked strict_config ''/etc/passwd''"
    "\<not> strictly_blocked strict_config ''/opt/x''" "effective_path_policy_for strict_config ''/opt/x'' = PATH_POLICY_PASS"
    by code_simp+
  have p: "path_has_prefix_component ''/etc/shadow'' ''/etc/shadow''"
    "\<not> path_has_prefix_component ''/etc/passwd'' ''/etc/shadow''" by code_simp+
  show ?thesis
    using open_decision [OF args str, of "''/etc/shadow''" strict_config]
      open_decision [OF args str, of "''/etc/passwd''" strict_config]
      open_decision [OF args str, of "''/opt/x''" strict_config] b p by simp
qed

lemma readonly_path_syscalls_facts:
  assumes "path_ops n = Some ops" and "\<forall>(i, l, e) \<in> set ops. names_readonly api cfg s i"
  shows "fst (run_path_ops api cfg n ops s) \<longleftrightarrow>
      n \<notin> {SYS_mkdir, SYS_mkdirat, SYS_rename, SYS_renameat, SYS_renameat2, SYS_link, SYS_linkat,
            SYS_symlink, SYS_symlinkat}"
    and "same_call s (snd (run_path_ops api cfg n ops s))"
proof -
  from run_path_ops_readonly [OF assms(2), of n]
  have r: "fst (run_path_ops api cfg n ops s) \<longleftrightarrow> (\<forall>(i, l, e) \<in> set ops. \<not> e)"
    and "same_call s (snd (run_path_ops api cfg n ops s))" by blast+
  then show "same_call s (snd (run_path_ops api cfg n ops s))" by blast
  from assms(1) show "fst (run_path_ops api cfg n ops s) \<longleftrightarrow>
      n \<notin> {SYS_mkdir, SYS_mkdirat, SYS_rename, SYS_renameat, SYS_renameat2, SYS_link, SYS_linkat,
            SYS_symlink, SYS_symlinkat}"
    unfolding r by (auto simp: path_ops_def split: if_splits)
qed

text \<open>
  C39: A read-only rule lets through every path syscall that does not create a name. When all paths of
  the call are covered by read-only rules, the call is refused exactly when it creates an entry
  (\<open>mkdir\<close>, the new name of \<open>rename\<close> and \<open>link\<close>, \<open>symlink\<close>); so \<open>unlink\<close>, \<open>rmdir\<close>,
  \<open>truncate\<close>, \<open>unlinkat\<close> and \<open>utimensat\<close> on a read-only path reach the kernel unchanged.
\<close>
theorem readonly_path_syscalls:
  assumes "path_ops n = Some ops" and "\<forall>(i, l, e) \<in> set ops. names_readonly api cfg s i"
  shows "(fst (run_path_ops api cfg n ops s) \<longleftrightarrow>
      n \<notin> {SYS_mkdir, SYS_mkdirat, SYS_rename, SYS_renameat, SYS_renameat2, SYS_link, SYS_linkat,
            SYS_symlink, SYS_symlinkat}) \<and>
    same_call s (snd (run_path_ops api cfg n ops s))"
  using readonly_path_syscalls_facts [OF assms] by blast

theorem readonly_path_syscalls_witness:
  "fst (run_path_ops plain_api (demo_config\<lparr>g_path_rules := [\<lparr>rule_action = PATH_POLICY_READONLY, rule_prefix = ''/data''\<rparr>]\<rparr>)
     SYS_unlink [(0, ''path'', False)] (demo_call ''/data/f'' (\<lambda>_. 4096)))"
proof -
  let ?cfg = "demo_config\<lparr>g_path_rules := [\<lparr>rule_action = PATH_POLICY_READONLY, rule_prefix = ''/data''\<rparr>]\<rparr>"
  have "effective_path_policy_for ?cfg ''/data/f'' = PATH_POLICY_READONLY" by code_simp
  then have "names_readonly plain_api ?cfg (demo_call ''/data/f'' (\<lambda>_. 4096)) 0"
    using read_app_string_cstring [OF plain_api_ok(2) demo_call_string [of "''/data/f''" "\<lambda>_. 4096"], of 512]
    by (simp add: names_readonly_def)
  then show ?thesis
    using readonly_path_syscalls [of SYS_unlink "[(0, ''path'', False)]" plain_api ?cfg
        "demo_call ''/data/f'' (\<lambda>_. 4096)"] by (simp add: path_ops_def)
qed

text \<open>
  Strict mode judges only absolute paths. An open of a relative path, \<open>../../etc/shadow\<close> from a
  directory two levels deep for instance, is never on the blocklist: with no rule configured and
  no redirection of the path it is passed to the kernel unchanged.
\<close>
lemma strict_relative_open_passes:
  assumes "open_args n s = (a, i, flags)" and "read_app_string api (app_mem s) a 512 = Some orig"
    and "orig \<noteq> []" and "hd orig \<noteq> CHR ''/''" and "g_path_rules cfg = []" and "\<not> g_redirect_tmp cfg"
  shows "fst (pre_open api cfg n s) \<and> same_call s (snd (pre_open api cfg n s))"
proof -
  have "effective_path_policy_for cfg orig = PATH_POLICY_PASS"
    using assms(5,6) by (simp add: effective_path_policy_for_def configured_path_policy_for_def)
  moreover have "\<not> strictly_blocked cfg orig"
    using relative_not_blocked [OF assms(3,4)] by (simp add: strictly_blocked_def)
  ultimately show ?thesis using pre_open_pass [OF assms(1,2)] by blast
qed

text \<open>
  C38: Only the first 511 characters of a path are judged. A path of 511 slashes followed by
  \<open>etc/passwd\<close> is read as a sequence of slashes, which is the root directory for the policy: strict
  mode passes it on unchanged, although it names \<open>/etc/passwd\<close>, which is blocked.
\<close>
theorem strict_open_truncated_path_passes:
  assumes "safe_read_ok api" and "open_args n s = (a, i, flags)"
    and "cstring_at (app_mem s) a (replicate 511 (CHR ''/'') @ ''etc/passwd'')"
    and "g_path_rules cfg = []" and "\<not> g_redirect_tmp cfg"
  shows "fst (pre_open api cfg n s) \<and> same_call s (snd (pre_open api cfg n s)) \<and>
    components (replicate 511 (CHR ''/'') @ ''etc/passwd'') = [''etc'', ''passwd''] \<and>
    path_is_blocked ''/etc/passwd''"
proof (intro conjI)
  let ?q = "replicate 511 (CHR ''/'')"
  have read: "read_app_string api (app_mem s) a 512 = Some ?q"
    using read_app_string_cstring [OF assms(1,3), of 512] by simp
  have "effective_path_policy_for cfg ?q = PATH_POLICY_PASS"
    using assms(4,5) by (simp add: effective_path_policy_for_def configured_path_policy_for_def)
  moreover have "canonical_copy ?q = ''/''" by (rule canonical_slashes) simp
  then have "\<not> strictly_blocked cfg ?q"
    by (simp add: strictly_blocked_def path_is_blocked_def BLOCKED_EXACT_def BLOCKED_PREFIXES_def)
  ultimately show "fst (pre_open api cfg n s)" and "same_call s (snd (pre_open api cfg n s))"
    using pre_open_pass [OF assms(2) read] by blast+
  have "components (replicate k (CHR ''/'') @ ''etc/passwd'') = components ''etc/passwd''" for k
    by (induction k) simp_all
  moreover have "components ''etc/passwd'' = [''etc'', ''passwd'']" by code_simp
  ultimately show "components (?q @ ''etc/passwd'') = [''etc'', ''passwd'']" by simp
  show "path_is_blocked ''/etc/passwd''" by code_simp
qed

theorem strict_open_truncated_path_passes_witness:
  "fst (pre_open plain_api strict_config SYS_open
     (demo_call (replicate 511 (CHR ''/'') @ ''etc/passwd'') (\<lambda>_. 4096)))"
proof -
  let ?s = "demo_call (replicate 511 (CHR ''/'') @ ''etc/passwd'') (\<lambda>_. 4096)"
  have "open_args SYS_open ?s = (4096, 0, ucast (4096 :: reg_t))" by (simp add: open_args_def)
  moreover have "cstring_at (app_mem ?s) 4096 (replicate 511 (CHR ''/'') @ ''etc/passwd'')"
    by (rule demo_call_string) simp_all
  ultimately show ?thesis
    using strict_open_truncated_path_passes [OF plain_api_ok(2), of SYS_open ?s 4096 0 _ strict_config]
    by (simp add: strict_config_def demo_config_def)
qed

end
