(* ===== verification/Pre_Controls.thy ===== *)
theory Pre_Controls
  imports Network_Policy Pre_Paths
begin

text \<open>
  The branches of the pre-syscall event that do not look at paths: writes, reads, the memory calls, the
  network calls, exec, process creation, and the deny-by-default tail of strict mode. Every branch
  meets the handler contract \<open>syscall_guard\<close>.
\<close>

section \<open>Input and output\<close>

definition write_limit :: "dr_api \<Rightarrow> config \<Rightarrow> int \<Rightarrow> reg_t \<Rightarrow> handler" where
  "write_limit api cfg sysnum fd s =
     (if sysnum = SYS_write \<or> sysnum = SYS_pwrite64
      then enforce_output_limit api cfg sysnum (int_of_reg fd) (get_param s 2) s
      else (True, s))"

definition write_policy :: "dr_api \<Rightarrow> config \<Rightarrow> int \<Rightarrow> reg_t \<Rightarrow> handler" where
  "write_policy api cfg sysnum fd s =
     (let shadow = fd_shadow_get s (int_of_reg fd);
          path = (case shadow of None \<Rightarrow> [] | Some sh \<Rightarrow> shadow_path sh)
      in if (case shadow of None \<Rightarrow> False | Some sh \<Rightarrow> block_write sh) then
           deny EPERM (audit_syscall_event api cfg ''block'' sysnum
             (audit_semantic_event api cfg ''write'' ''block'' sysnum (sint fd) path [] s))
         else
           let s1 = audit_semantic_event api cfg ''write'' ''allow'' sysnum (sint fd) path [] s
           in if g_stdio_only_writes cfg \<and> fd \<noteq> 1 \<and> fd \<noteq> 2
              then deny EPERM (audit_syscall_event api cfg ''block'' sysnum s1) else (True, s1))"

definition pre_write :: "dr_api \<Rightarrow> config \<Rightarrow> int \<Rightarrow> handler" where
  "pre_write api cfg sysnum s =
     (let fd = get_param s 0; (ok, s1) = write_limit api cfg sysnum fd s
      in if ok then write_policy api cfg sysnum fd s1 else (False, s1))"

definition pre_read :: "dr_api \<Rightarrow> config \<Rightarrow> int \<Rightarrow> handler" where
  "pre_read api cfg sysnum s =
     (if get_param s 2 > g_max_read_bytes cfg
      then (True, set_param 2 (g_max_read_bytes cfg) (audit_syscall_event api cfg ''cap'' sysnum s))
      else (True, s))"

section \<open>Memory\<close>

definition pre_brk :: "dr_api \<Rightarrow> config \<Rightarrow> int \<Rightarrow> handler" where
  "pre_brk api cfg sysnum s =
     (let requested = get_param s 0 in
      if requested = 0 then (True, s)
      else if alloc_budget_enabled cfg \<and> g_initial_brk s \<noteq> 0 \<and> requested > g_initial_brk s \<and>
              requested - g_initial_brk s > g_max_alloc_bytes cfg
      then deny ENOMEM (audit_syscall_event api cfg ''block'' sysnum s)
      else (True, s))"

definition pre_munmap :: "handler" where
  "pre_munmap s = (True, s\<lparr>g_last_munmap_len := get_param s 1\<rparr>)"

definition pre_mremap :: "dr_api \<Rightarrow> config \<Rightarrow> int \<Rightarrow> handler" where
  "pre_mremap api cfg sysnum s =
     (let old_len = get_param s 1; new_len = get_param s 2;
          s1 = s\<lparr>g_last_mremap_old_len := old_len, g_last_mremap_new_len := new_len\<rparr>
      in if new_len > old_len \<and> \<not> alloc_budget_has_room cfg (new_len - old_len) s1
         then deny ENOMEM (audit_syscall_event api cfg ''block'' sysnum s1)
         else (True, s1))"

definition pre_mmap :: "dr_api \<Rightarrow> config \<Rightarrow> int \<Rightarrow> handler" where
  "pre_mmap api cfg sysnum s =
     (let len = get_param s 1; prot = get_param s 2 in
      if g_block_prot_exec cfg \<and> prot AND PROT_EXEC \<noteq> 0
      then deny EPERM (audit_syscall_event api cfg ''block'' sysnum s)
      else if \<not> alloc_budget_has_room cfg len s
      then deny ENOMEM (audit_syscall_event api cfg ''block'' sysnum s)
      else (True, s\<lparr>g_last_mmap_len := len\<rparr>))"

definition pre_mprotect :: "dr_api \<Rightarrow> config \<Rightarrow> int \<Rightarrow> handler" where
  "pre_mprotect api cfg sysnum s =
     (let prot = get_param s 2 in
      if g_block_prot_exec cfg \<and> prot AND PROT_EXEC \<noteq> 0
      then deny EPERM (audit_syscall_event api cfg ''block'' sysnum s)
      else (True, s))"

section \<open>Network\<close>

definition unknown_peer_sysnums :: "int list" where
  "unknown_peer_sysnums =
     [SYS_listen, SYS_accept, SYS_accept4, SYS_recvfrom, SYS_sendmsg, SYS_recvmsg, SYS_sendmmsg,
      SYS_recvmmsg, SYS_shutdown, SYS_getsockname, SYS_getpeername, SYS_setsockopt, SYS_getsockopt]"

definition pre_socket :: "dr_api \<Rightarrow> config \<Rightarrow> int \<Rightarrow> handler" where
  "pre_socket api cfg sysnum s =
     (if g_block_network cfg \<and> g_network_rules cfg = []
      then deny ENETDOWN (audit_syscall_event api cfg ''block'' sysnum s)
      else (True, audit_semantic_event api cfg ''socket'' ''allow'' sysnum (- 1) [] [] s))"

definition pre_peer :: "dr_api \<Rightarrow> config \<Rightarrow> int \<Rightarrow> handler" where
  "pre_peer api cfg sysnum s =
     (let have_peer = read_ipv4_peer api (app_mem s) (get_param s (if sysnum = SYS_sendto then 4 else 1));
          peer = (case have_peer of None \<Rightarrow> [] | Some (peer, ip, port) \<Rightarrow> peer);
          block = (case have_peer of None \<Rightarrow> network_policy_blocks_unknown_peer cfg
                   | Some (peer, ip, port) \<Rightarrow> network_policy_blocks_peer cfg ip port (g_block_network cfg));
          name = (if sysnum = SYS_connect then ''connect'' else if sysnum = SYS_bind then ''bind'' else ''sendto'')
      in if block then
           deny ENETDOWN (audit_syscall_event api cfg ''block'' sysnum
             (audit_semantic_event api cfg name ''block'' sysnum (- 1) [] peer s))
         else (True, audit_semantic_event api cfg name ''allow'' sysnum (- 1) [] peer s))"

definition pre_unknown_peer :: "dr_api \<Rightarrow> config \<Rightarrow> int \<Rightarrow> handler" where
  "pre_unknown_peer api cfg sysnum s =
     (if network_policy_blocks_unknown_peer cfg
      then deny ENETDOWN (audit_syscall_event api cfg ''block'' sysnum s)
      else (True, s))"

section \<open>Processes\<close>

definition pre_exec :: "dr_api \<Rightarrow> config \<Rightarrow> int \<Rightarrow> handler" where
  "pre_exec api cfg sysnum s =
     (if g_block_exec cfg then deny EPERM (audit_syscall_event api cfg ''block'' sysnum s) else (True, s))"

text \<open>\<open>int cnt = ++g_proc_count\<close> under the mutex.\<close>

definition count_process :: "sandbox \<Rightarrow> int \<times> sandbox" where
  "count_process s = (sint (g_proc_count s + 1), s\<lparr>g_proc_count := g_proc_count s + 1\<rparr>)"

definition pre_fork :: "dr_api \<Rightarrow> config \<Rightarrow> int \<Rightarrow> handler" where
  "pre_fork api cfg sysnum s =
     (let (cnt, s1) = count_process s
      in if cnt > g_max_procs cfg then deny EAGAIN (audit_syscall_event api cfg ''block'' sysnum s1)
         else (True, s1))"

definition pre_clone :: "dr_api \<Rightarrow> config \<Rightarrow> int \<Rightarrow> handler" where
  "pre_clone api cfg sysnum s =
     (let flags = get_param s 0;
          new_proc = (flags AND CLONE_THREAD = 0)
      in if new_proc then
           let (cnt, s1) = count_process s
           in if cnt > g_max_procs cfg then deny EAGAIN (audit_syscall_event api cfg ''block'' sysnum s1)
              else (True, s1)
         else (True, s))"

section \<open>The strict tail\<close>

text \<open>
  The end of the event, reached in strict mode only: a second set of branches with the fixed policy of
  strict mode, and the refusal of everything else.
\<close>

definition tail_network :: "int list" where
  "tail_network =
     [SYS_socket, SYS_connect, SYS_bind, SYS_listen, SYS_accept, SYS_accept4, SYS_sendto, SYS_recvfrom,
      SYS_sendmsg, SYS_recvmsg, SYS_sendmmsg, SYS_recvmmsg, SYS_shutdown, SYS_getsockname,
      SYS_getpeername, SYS_socketpair, SYS_setsockopt, SYS_getsockopt]"

definition tail_fork :: handler where
  "tail_fork s =
     (let (cnt, s1) = count_process s in if cnt > MAX_PROCS then deny EAGAIN s1 else (True, s1))"

definition strict_tail :: "int \<Rightarrow> handler" where
  "strict_tail sysnum s =
     (if sysnum = SYS_write \<or> sysnum = SYS_writev \<or> sysnum = SYS_pwrite64 then
        (if get_param s 0 \<noteq> 1 \<and> get_param s 0 \<noteq> 2 then deny EPERM s else (True, s))
      else if sysnum = SYS_read \<or> sysnum = SYS_pread64 then
        (True, if get_param s 2 > MAX_READ_BYTES then set_param 2 MAX_READ_BYTES s else s)
      else if sysnum = SYS_mmap then
        (if get_param s 2 AND PROT_EXEC \<noteq> 0 then deny EPERM s else (True, s))
      else if sysnum = SYS_mprotect then
        (if get_param s 2 AND PROT_EXEC \<noteq> 0 then deny EPERM s else (True, s))
      else if sysnum \<in> set tail_network then deny ENETDOWN s
      else if sysnum = SYS_execve \<or> sysnum = SYS_execveat then deny EPERM s
      else if sysnum = SYS_fork \<or> sysnum = SYS_vfork then tail_fork s
      else if sysnum = SYS_clone \<or> sysnum = SYS_clone3 then
        (if get_param s 0 AND CLONE_THREAD = 0 then tail_fork s else (True, s))
      else deny EPERM s)"

section \<open>Dispatch of the controls\<close>

definition pre_controls :: "dr_api \<Rightarrow> config \<Rightarrow> int \<Rightarrow> handler" where
  "pre_controls api cfg sysnum s =
     (if sysnum = SYS_write \<or> sysnum = SYS_writev \<or> sysnum = SYS_pwrite64 then pre_write api cfg sysnum s
      else if sysnum = SYS_read \<or> sysnum = SYS_pread64 then pre_read api cfg sysnum s
      else if sysnum = SYS_brk then pre_brk api cfg sysnum s
      else if sysnum = SYS_munmap then pre_munmap s
      else if sysnum = SYS_mremap then pre_mremap api cfg sysnum s
      else if sysnum = SYS_mmap then pre_mmap api cfg sysnum s
      else if sysnum = SYS_mprotect then pre_mprotect api cfg sysnum s
      else if sysnum = SYS_socket \<or> sysnum = SYS_socketpair then pre_socket api cfg sysnum s
      else if sysnum = SYS_connect \<or> sysnum = SYS_bind \<or> sysnum = SYS_sendto then pre_peer api cfg sysnum s
      else if sysnum \<in> set unknown_peer_sysnums then pre_unknown_peer api cfg sysnum s
      else if sysnum = SYS_execve \<or> sysnum = SYS_execveat then pre_exec api cfg sysnum s
      else if sysnum = SYS_fork \<or> sysnum = SYS_vfork then pre_fork api cfg sysnum s
      else if sysnum = SYS_clone \<or> sysnum = SYS_clone3 then pre_clone api cfg sysnum s
      else if g_mode cfg = MODE_OBSERVE then (True, audit_syscall_event api cfg ''observe'' sysnum s)
      else strict_tail sysnum s)"

lemmas control_defs [handler_defs] =
  write_limit_def write_policy_def pre_write_def pre_read_def pre_brk_def pre_munmap_def pre_mremap_def
  pre_mmap_def pre_mprotect_def pre_socket_def pre_peer_def pre_unknown_peer_def pre_exec_def count_process_def pre_fork_def
  pre_clone_def tail_fork_def strict_tail_def

section \<open>The controls meet the handler contract\<close>

lemma benign_last_lens [guard_rules]:
  "benign cfg s s1 \<Longrightarrow> benign cfg s (s1\<lparr>g_last_munmap_len := a\<rparr>)"
  "benign cfg s s1 \<Longrightarrow> benign cfg s (s1\<lparr>g_last_mmap_len := a\<rparr>)"
  "benign cfg s s1 \<Longrightarrow> benign cfg s (s1\<lparr>g_last_mremap_old_len := a, g_last_mremap_new_len := b\<rparr>)"
  "benign cfg s s1 \<Longrightarrow> benign cfg s (s1\<lparr>g_proc_count := c\<rparr>)"
  by (simp_all add: benign_def mem_accounting_def client_ok_def shadow_ok_def)

lemma guarded_controls_simple [guard_rules]:
  "guarded cfg s (pre_read api cfg n s)"
  "guarded cfg s (pre_brk api cfg n s)"
  "guarded cfg s (pre_munmap s)"
  "guarded cfg s (pre_mremap api cfg n s)"
  "guarded cfg s (pre_mmap api cfg n s)"
  "guarded cfg s (pre_mprotect api cfg n s)"
  "guarded cfg s (pre_socket api cfg n s)"
  "guarded cfg s (pre_peer api cfg n s)"
  "guarded cfg s (pre_unknown_peer api cfg n s)"
  "guarded cfg s (pre_exec api cfg n s)"
  "guarded cfg s (pre_fork api cfg n s)"
  "guarded cfg s (pre_clone api cfg n s)"
  "guarded cfg s (tail_fork s)"
  by (auto simp: pre_read_def pre_brk_def pre_munmap_def pre_mremap_def pre_mmap_def pre_mprotect_def
      pre_socket_def pre_peer_def pre_unknown_peer_def pre_exec_def count_process_def pre_fork_def
      pre_clone_def tail_fork_def Let_def intro!: guard_rules)

lemma guarded_strict_tail [guard_rules]: "guarded cfg s (strict_tail n s)"
  unfolding strict_tail_def by (auto intro!: guard_rules)

text \<open>The limit check: the counter of the other stream is not touched, its own stays within its limit.\<close>

lemma enforce_other_counter:
  "fd \<noteq> 1 \<Longrightarrow> g_stdout_bytes (snd (enforce_output_limit api cfg n fd k s)) = g_stdout_bytes s"
  "fd \<noteq> 2 \<Longrightarrow> g_stderr_bytes (snd (enforce_output_limit api cfg n fd k s)) = g_stderr_bytes s"
  by (auto simp: enforce_output_limit_def output_counter_def Let_def audit_events_frame
      set_errno_result_def set_value_result_def set_param_def)

lemma enforce_own_counter:
  "g_max_stdout_bytes cfg > 0 \<Longrightarrow> g_stdout_bytes s \<le> g_max_stdout_bytes cfg \<Longrightarrow>
     g_stdout_bytes (snd (enforce_output_limit api cfg n 1 k s)) \<le> g_max_stdout_bytes cfg"
  "g_max_stderr_bytes cfg > 0 \<Longrightarrow> g_stderr_bytes s \<le> g_max_stderr_bytes cfg \<Longrightarrow>
     g_stderr_bytes (snd (enforce_output_limit api cfg n 2 k s)) \<le> g_max_stderr_bytes cfg"
  using enforce_bounded [of cfg 1 _ s api n k] enforce_bounded [of cfg 2 _ s api n k]
  by (simp_all add: output_counter_def output_used_def output_limit_def)

lemma enforce_client_ok:
  assumes "client_ok cfg s"
  shows "client_ok cfg (snd (enforce_output_limit api cfg n fd k s))"
proof -
  let ?t = "snd (enforce_output_limit api cfg n fd k s)"
  have frame: "g_fd_shadow ?t = g_fd_shadow s" "g_pending_open_path ?t = g_pending_open_path s"
    by (subst output_limit_frame; simp)+
  have "g_max_stdout_bytes cfg > 0 \<longrightarrow> g_stdout_bytes ?t \<le> g_max_stdout_bytes cfg"
    using assms enforce_other_counter(1) [of fd] enforce_own_counter(1) [of cfg s api n k]
    by (cases "fd = 1") (simp_all add: client_ok_def)
  moreover have "g_max_stderr_bytes cfg > 0 \<longrightarrow> g_stderr_bytes ?t \<le> g_max_stderr_bytes cfg"
    using assms enforce_other_counter(2) [of fd] enforce_own_counter(2) [of cfg s api n k]
    by (cases "fd = 2") (simp_all add: client_ok_def)
  ultimately show ?thesis using assms frame shadow_ok_cong [OF frame(1)] by (simp add: client_ok_def)
qed

lemma enforce_result:
  fixes api :: dr_api and cfg :: config and n fd :: int and k :: size_t and s :: sandbox
  defines "r \<equiv> enforce_output_limit api cfg n fd k s"
  shows "if fst r then sys_result (snd r) = sys_result s
    else \<exists>i. sys_result (snd r) = Some i \<and> res_value i = 0 \<and> (succeeded i \<longleftrightarrow> errno_value i = 0)"
    and "prefix (audit_lines s) (audit_lines (snd r))"
  by (auto simp: r_def enforce_output_limit_def output_counter_def Let_def audit_events_frame
      set_errno_result_def set_value_result_def set_param_def)

lemma enforce_shadow: "g_fd_shadow (snd (enforce_output_limit api cfg n fd k s)) = g_fd_shadow s"
  by (subst output_limit_frame) simp

lemma guarded_enforce: "guarded cfg s (enforce_output_limit api cfg n fd k s)"
proof -
  have "mem_accounting (snd (enforce_output_limit api cfg n fd k s)) = mem_accounting s"
    by (subst output_limit_frame) (simp add: mem_accounting_def)
  then show ?thesis
    using enforce_result [where api = api and cfg = cfg and n = n and fd = fd and k = k and s = s]
      enforce_client_ok [of cfg s api n fd k]
    by (simp add: guarded_def)
qed

lemma guarded_write_parts [guard_rules]:
  "guarded cfg s (write_limit api cfg n fd s)" "guarded cfg s (write_policy api cfg n fd s)"
  by (auto simp: write_limit_def write_policy_def Let_def intro!: guarded_enforce guard_rules)

lemma guarded_write [guard_rules]: "guarded cfg s (pre_write api cfg n s)"
proof -
  obtain ok s1 where r: "write_limit api cfg n (get_param s 0) s = (ok, s1)" by fastforce
  then have "guarded cfg s (ok, s1)" using guarded_write_parts(1) by metis
  then show ?thesis
    using guarded_seq [of cfg s ok s1] guarded_write_parts(2) by (simp add: pre_write_def r)
qed

lemma guarded_controls [guard_rules]: "guarded cfg s (pre_controls api cfg n s)"
  unfolding pre_controls_def by (auto intro!: guard_rules)

interpretation controls_guard: syscall_guard cfg "pre_controls api cfg n" for api cfg n
  by (rule guardI) (rule guarded_controls)

lemma blocked_write_refused:
  assumes "fd_shadow_get s (int_of_reg (get_param s 0)) = Some sh" and "block_write sh"
  shows "\<not> fst (pre_write api cfg n s)"
proof -
  have "g_fd_shadow (snd (write_limit api cfg n (get_param s 0) s)) = g_fd_shadow s"
    by (simp add: write_limit_def enforce_shadow)
  then have "fd_shadow_get (snd (write_limit api cfg n (get_param s 0) s)) = fd_shadow_get s"
    by (rule fd_shadow_get_cong)
  with assms show ?thesis by (simp add: pre_write_def split_beta Let_def write_policy_def)
qed

section \<open>Counting processes\<close>

text \<open>The verdicts on \<open>k\<close> process creations in a row.\<close>

fun fork_attempts :: "dr_api \<Rightarrow> config \<Rightarrow> int \<Rightarrow> nat \<Rightarrow> sandbox \<Rightarrow> bool list" where
  "fork_attempts api cfg n 0 s = []"
| "fork_attempts api cfg n (Suc k) s =
     (let (ok, s1) = pre_fork api cfg n s in ok # fork_attempts api cfg n k s1)"

lemma proc_count_frame: "g_proc_count (snd (pre_fork api cfg n s)) = g_proc_count s + 1"
  by (simp add: pre_fork_def count_process_def Let_def deny_def set_errno_result_def audit_events_frame)

lemma sint_small:
  assumes "c < 2 ^ 31"
  shows "sint (word_of_nat c :: 32 word) = int c"
proof -
  have "int c < 2 ^ 31" using assms by simp
  moreover have "- (2 ^ 31) \<le> int c" by simp
  ultimately have "signed_take_bit (31 :: nat) (int c) = int c"
    by (simp add: signed_take_bit_int_eq_self_iff)
  then show ?thesis by (simp add: signed_of_nat)
qed

lemma fork_verdict:
  assumes "g_proc_count s = word_of_nat c" and "Suc c < 2 ^ 31"
  shows "fst (pre_fork api cfg n s) \<longleftrightarrow> int (Suc c) \<le> g_max_procs cfg"
proof -
  have "g_proc_count s + 1 = word_of_nat (Suc c)" using assms(1) by simp
  then have "sint (g_proc_count s + 1) = int (Suc c)" using sint_small [OF assms(2)] by (simp only:)
  then show ?thesis by (simp add: pre_fork_def count_process_def not_less)
qed

lemma fork_attempts_verdicts:
  "g_proc_count s = word_of_nat c \<Longrightarrow> c + k < 2 ^ 31 \<Longrightarrow>
    fork_attempts api cfg n k s = map (\<lambda>j. int j \<le> g_max_procs cfg) [Suc c..<Suc (c + k)]"
proof (induction k arbitrary: c s)
  case (Suc k)
  obtain ok s1 where r: "pre_fork api cfg n s = (ok, s1)" by fastforce
  have "g_proc_count s1 = word_of_nat (Suc c)"
    using proc_count_frame [of api cfg n s] Suc.prems(1) by (simp add: r)
  from Suc.IH [OF this, of ] Suc.prems(2)
  have "fork_attempts api cfg n k s1 = map (\<lambda>j. int j \<le> g_max_procs cfg) [Suc (Suc c)..<Suc (Suc c + k)]"
    by simp
  moreover have "ok \<longleftrightarrow> int (Suc c) \<le> g_max_procs cfg"
    using fork_verdict [OF Suc.prems(1), of api cfg n] Suc.prems(2) by (simp add: r)
  ultimately show ?case by (simp add: r upt_conv_Cons del: upt_Suc)
qed simp

section \<open>Properties\<close>

text \<open>
  C19: Process creation is refused exactly beyond the configured limit. Of \<open>k\<close> forks in a row, starting
  with \<open>c\<close> processes counted, the first \<open>DR_MAX_PROCS - c\<close> are let through and all later ones are
  refused; the attempts that were refused are counted as well and nothing lowers the count, so a
  process that has ended does not make room for another.
\<close>
theorem fork_limit_exact:
  assumes "g_proc_count s = word_of_nat c" and "c + k < 2 ^ 31"
  shows "fork_attempts api cfg n k s =
    replicate (min k (nat (g_max_procs cfg) - c)) True @ replicate (k - (nat (g_max_procs cfg) - c)) False"
proof (rule nth_equalityI)
  fix i assume "i < length (fork_attempts api cfg n k s)"
  then have "i < k" by (simp add: fork_attempts_verdicts [OF assms] del: upt_Suc)
  then show "fork_attempts api cfg n k s ! i =
    (replicate (min k (nat (g_max_procs cfg) - c)) True @ replicate (k - (nat (g_max_procs cfg) - c)) False) ! i"
    by (auto simp: fork_attempts_verdicts [OF assms] nth_append simp del: upt_Suc)
qed (simp add: fork_attempts_verdicts [OF assms] del: upt_Suc)

theorem fork_limit_exact_witness:
  "fork_attempts plain_api demo_config SYS_fork 7 initial_sandbox =
     [True, True, True, True, True, False, False]"
proof -
  have "g_proc_count initial_sandbox = word_of_nat 0" by (simp add: initial_sandbox_def)
  from fork_limit_exact [OF this, of 7 plain_api demo_config SYS_fork]
  have "fork_attempts plain_api demo_config SYS_fork 7 initial_sandbox = replicate 5 True @ replicate 2 False"
    by (simp add: demo_config_def)
  also have "\<dots> = [True, True, True, True, True, False, False]" by (simp add: numeral_eq_Suc)
  finally show ?thesis .
qed

lemma memory_requests_decided_facts:
  assumes "alloc_budget_enabled cfg" and "budget_ok cfg s"
  shows "fst (pre_mmap api cfg n s) \<longleftrightarrow>
      \<not> (g_block_prot_exec cfg \<and> get_param s 2 AND PROT_EXEC \<noteq> 0) \<and>
      unat (g_alloc_bytes s) + unat (get_param s 1) \<le> unat (g_max_alloc_bytes cfg)"
    and "fst (pre_mremap api cfg n s) \<longleftrightarrow>
      unat (g_alloc_bytes s) + (unat (get_param s 2) - unat (get_param s 1)) \<le> unat (g_max_alloc_bytes cfg)"
    and "fst (pre_brk api cfg n s) \<longleftrightarrow> get_param s 0 = 0 \<or> g_initial_brk s = 0 \<or>
      unat (get_param s 0) \<le> unat (g_initial_brk s) + unat (g_max_alloc_bytes cfg)"
    and "\<not> fst (pre_mmap api cfg n s) \<Longrightarrow>
      failed_with (if g_block_prot_exec cfg \<and> get_param s 2 AND PROT_EXEC \<noteq> 0 then EPERM else ENOMEM)
        (snd (pre_mmap api cfg n s))"
    and "\<not> fst (pre_mremap api cfg n s) \<Longrightarrow> failed_with ENOMEM (snd (pre_mremap api cfg n s))"
    and "\<not> fst (pre_brk api cfg n s) \<Longrightarrow> failed_with ENOMEM (snd (pre_brk api cfg n s))"
proof -
  have le: "unat (g_alloc_bytes s) \<le> unat (g_max_alloc_bytes cfg)"
    using assms by (simp add: budget_ok_def word_le_nat_alt)
  have room: "alloc_budget_has_room cfg k s' \<longleftrightarrow>
      unat (g_alloc_bytes s) + unat k \<le> unat (g_max_alloc_bytes cfg)" if "g_alloc_bytes s' = g_alloc_bytes s" for k s'
    using le assms that
    by (simp add: alloc_budget_has_room_def word_le_nat_alt unat_sub_le budget_ok_def) linarith
  show "fst (pre_mmap api cfg n s) \<longleftrightarrow>
      \<not> (g_block_prot_exec cfg \<and> get_param s 2 AND PROT_EXEC \<noteq> 0) \<and>
      unat (g_alloc_bytes s) + unat (get_param s 1) \<le> unat (g_max_alloc_bytes cfg)"
    by (simp add: pre_mmap_def Let_def room)
  show "fst (pre_mremap api cfg n s) \<longleftrightarrow>
      unat (g_alloc_bytes s) + (unat (get_param s 2) - unat (get_param s 1)) \<le> unat (g_max_alloc_bytes cfg)"
    using le
    by (cases "get_param s 1 < get_param s 2")
       (auto simp: pre_mremap_def Let_def room unat_sub_le word_less_nat_alt word_le_nat_alt not_less)
  show "fst (pre_brk api cfg n s) \<longleftrightarrow> get_param s 0 = 0 \<or> g_initial_brk s = 0 \<or>
      unat (get_param s 0) \<le> unat (g_initial_brk s) + unat (g_max_alloc_bytes cfg)"
    using assms(1)
    by (cases "g_initial_brk s < get_param s 0")
       (auto simp: pre_brk_def Let_def unat_sub_le word_less_nat_alt word_le_nat_alt not_less)
qed (auto simp: pre_mmap_def pre_mremap_def pre_brk_def Let_def split: if_splits)

text \<open>
  C17: How each memory request is decided, by exact arithmetic and with its errno. With a budget set and
  the usage within it, \<open>mmap\<close> goes on exactly when executable memory is not refused and usage plus
  length fits the budget, and \<open>mremap\<close> exactly when usage plus growth fits. \<open>brk\<close> is decided
  differently: the current usage plays no part; it goes on exactly when it is a query, when the
  initial break is not known yet, or when the heap above the initial break alone fits the budget. So
  mappings and heap are limited one by one and not in sum. No combination of 64-bit lengths wraps
  around the tests.
\<close>
theorem memory_requests_decided:
  assumes "alloc_budget_enabled cfg" and "budget_ok cfg s"
  shows "(fst (pre_mmap api cfg n s) \<longleftrightarrow>
      \<not> (g_block_prot_exec cfg \<and> get_param s 2 AND PROT_EXEC \<noteq> 0) \<and>
      unat (g_alloc_bytes s) + unat (get_param s 1) \<le> unat (g_max_alloc_bytes cfg)) \<and>
    (fst (pre_mremap api cfg n s) \<longleftrightarrow>
      unat (g_alloc_bytes s) + (unat (get_param s 2) - unat (get_param s 1)) \<le> unat (g_max_alloc_bytes cfg)) \<and>
    (fst (pre_brk api cfg n s) \<longleftrightarrow> get_param s 0 = 0 \<or> g_initial_brk s = 0 \<or>
      unat (get_param s 0) \<le> unat (g_initial_brk s) + unat (g_max_alloc_bytes cfg)) \<and>
    (\<not> fst (pre_mmap api cfg n s) \<longrightarrow>
      failed_with (if g_block_prot_exec cfg \<and> get_param s 2 AND PROT_EXEC \<noteq> 0 then EPERM else ENOMEM)
        (snd (pre_mmap api cfg n s))) \<and>
    (\<not> fst (pre_mremap api cfg n s) \<longrightarrow> failed_with ENOMEM (snd (pre_mremap api cfg n s))) \<and>
    (\<not> fst (pre_brk api cfg n s) \<longrightarrow> failed_with ENOMEM (snd (pre_brk api cfg n s)))"
  using memory_requests_decided_facts [OF assms, of api n] by blast

theorem memory_requests_decided_witness:
  "\<not> fst (pre_mmap plain_api (demo_budget 100) SYS_mmap (set_param 1 18446744073709551615 (initial_sandbox\<lparr>g_alloc_bytes := 70\<rparr>))) \<and>
   fst (pre_mremap plain_api (demo_budget 100) SYS_mremap
     (set_param 1 10 (set_param 2 40 (initial_sandbox\<lparr>g_alloc_bytes := 70\<rparr>)))) \<and>
   fst (pre_brk plain_api (demo_budget 100) SYS_brk
     (set_param 0 4196 (initial_sandbox\<lparr>g_alloc_bytes := 70, g_initial_brk := 4096\<rparr>)))"
proof -
  have en: "alloc_budget_enabled (demo_budget 100)" by (simp add: alloc_budget_enabled_def demo_budget_def)
  have ok: "budget_ok (demo_budget 100) s" if "g_alloc_bytes s = 70" for s
    using that by (simp add: budget_ok_def demo_budget_def)
  let ?a = "set_param 1 18446744073709551615 (initial_sandbox\<lparr>g_alloc_bytes := 70\<rparr>)"
  let ?b = "set_param 1 10 (set_param 2 40 (initial_sandbox\<lparr>g_alloc_bytes := 70\<rparr>))"
  let ?c = "set_param 0 4196 (initial_sandbox\<lparr>g_alloc_bytes := 70, g_initial_brk := 4096\<rparr>)"
  have v: "g_alloc_bytes ?a = 70" "g_alloc_bytes ?b = 70" "g_alloc_bytes ?c = 70"
    "g_max_alloc_bytes (demo_budget 100) = 100" "g_initial_brk ?c = 4096"
    by (simp_all add: set_param_def demo_budget_def)
  then show ?thesis
    using memory_requests_decided [OF en ok [OF v(1)], of plain_api SYS_mmap]
      memory_requests_decided [OF en ok [OF v(2)], of plain_api SYS_mremap]
      memory_requests_decided [OF en ok [OF v(3)], of plain_api SYS_brk]
    by simp
qed

lemma write_decision_facts:
  shows "fd_shadow_get s (int_of_reg (get_param s 0)) = Some sh \<Longrightarrow> block_write sh \<Longrightarrow>
      \<not> fst (pre_write api cfg n s)"
    and "output_counter cfg (int_of_reg (get_param s 0)) = None \<Longrightarrow>
      fst (pre_write api cfg n s) \<longleftrightarrow>
        \<not> (\<exists>sh. fd_shadow_get s (int_of_reg (get_param s 0)) = Some sh \<and> block_write sh) \<and>
        (g_stdio_only_writes cfg \<longrightarrow> get_param s 0 = 1 \<or> get_param s 0 = 2)"
proof -
  show "fd_shadow_get s (int_of_reg (get_param s 0)) = Some sh \<Longrightarrow> block_write sh \<Longrightarrow>
      \<not> fst (pre_write api cfg n s)"
    by (rule blocked_write_refused)
  assume "output_counter cfg (int_of_reg (get_param s 0)) = None"
  then have "write_limit api cfg n (get_param s 0) s = (True, s)"
    by (simp add: write_limit_def enforce_output_limit_def)
  then show "fst (pre_write api cfg n s) \<longleftrightarrow>
        \<not> (\<exists>sh. fd_shadow_get s (int_of_reg (get_param s 0)) = Some sh \<and> block_write sh) \<and>
        (g_stdio_only_writes cfg \<longrightarrow> get_param s 0 = 1 \<or> get_param s 0 = 2)"
    by (auto simp: pre_write_def Let_def write_policy_def split: option.splits)
qed

text \<open>
  C33: The decision on a write. A \<open>write\<close>, \<open>pwrite64\<close> or \<open>writev\<close> on a descriptor whose shadow
  blocks writes is never passed on; otherwise, on a descriptor without an output limit, it is refused
  exactly when only the standard streams may be written and the descriptor is neither of them.
\<close>
theorem write_decision:
  shows "(fd_shadow_get s (int_of_reg (get_param s 0)) = Some sh \<longrightarrow>
      block_write sh \<longrightarrow> \<not> fst (pre_write api cfg n s)) \<and>
    (output_counter cfg (int_of_reg (get_param s 0)) = None \<longrightarrow>
      (fst (pre_write api cfg n s) \<longleftrightarrow>
        \<not> (\<exists>sh. fd_shadow_get s (int_of_reg (get_param s 0)) = Some sh \<and> block_write sh) \<and>
        (g_stdio_only_writes cfg \<longrightarrow> get_param s 0 = 1 \<or> get_param s 0 = 2)))"
  using write_decision_facts by blast

theorem write_decision_witness:
  "\<not> fst (pre_write plain_api demo_config SYS_writev (demo_table\<lparr>sys_params := (\<lambda>_. 3)\<rparr>))"
proof -
  have "int_of_reg 3 = 3" by (simp add: int_of_reg_def)
  then have "fd_shadow_get (demo_table\<lparr>sys_params := (\<lambda>_. 3)\<rparr>)
      (int_of_reg (get_param (demo_table\<lparr>sys_params := (\<lambda>_. 3)\<rparr>) 0)) =
      Some \<lparr>in_use = True, block_write = True, shadow_path = ''/var/log/x''\<rparr>"
    by (simp add: get_param_def demo_table_def fd_shadow_get_def fd_shadow_set_def)
  with write_decision [of "demo_table\<lparr>sys_params := (\<lambda>_. 3)\<rparr>"] show ?thesis by force
qed

text \<open>
  No read asks the kernel for more than the read cap. The byte count of every \<open>read\<close> and
  \<open>pread64\<close> is lowered to the configured maximum, smaller counts and the other parameters are left
  alone, and the call always goes on.
\<close>
lemma read_capped:
  "fst (pre_read api cfg n s)"
  "get_param (snd (pre_read api cfg n s)) i =
     (if i = 2 then min (get_param s 2) (g_max_read_bytes cfg) else get_param s i)"
  by (auto simp: pre_read_def get_param_def set_param_def audit_events_frame min_def not_less)

lemma connect_follows_rules_facts:
  assumes "safe_read_ok api" and "snprintf_ok api" and "n \<in> {SYS_connect, SYS_bind, SYS_sendto}"
    and "p = get_param s (if n = SYS_sendto then 4 else 1)"
  shows "mem_load (app_mem s) p 16 = Some (sockaddr_in port a b c d pad) \<Longrightarrow>
      port < 65536 \<Longrightarrow> a < 256 \<Longrightarrow> b < 256 \<Longrightarrow> c < 256 \<Longrightarrow> d < 256 \<Longrightarrow>
      fst (pre_peer api cfg n s) \<longleftrightarrow>
      \<not> (case find (\<lambda>r. net_rule_matches r (dotted a b c d, int port)) (g_network_rules cfg) of
           None \<Rightarrow> g_block_network cfg | Some r \<Rightarrow> net_block r)"
    and "(case mem_load (app_mem s) p 16 of None \<Rightarrow> True | Some raw \<Rightarrow> take 2 raw \<noteq> [CHR 0x02, CHR 0x00]) \<Longrightarrow>
      fst (pre_peer api cfg n s) \<longleftrightarrow>
      \<not> (case find (\<lambda>r. net_rule_matches r (''*'', - 1)) (g_network_rules cfg) of
           None \<Rightarrow> g_block_network cfg | Some r \<Rightarrow> net_block r)"
    and "\<not> fst (pre_peer api cfg n s) \<Longrightarrow> failed_with ENETDOWN (snd (pre_peer api cfg n s))"
proof -
  let ?dec = "\<lambda>k. case find (\<lambda>r. net_rule_matches r k) (g_network_rules cfg) of
           None \<Rightarrow> g_block_network cfg | Some r \<Rightarrow> net_block r"
  have verdict: "fst (pre_peer api cfg n s) \<longleftrightarrow>
      \<not> (case read_ipv4_peer api (app_mem s) p of None \<Rightarrow> ?dec (''*'', - 1) | Some (peer, ip, q) \<Rightarrow> ?dec (ip, q))"
    by (simp add: pre_peer_def Let_def assms(4) network_policy_blocks_unknown_peer_def
        network_policy_blocks_peer_scan net_rules.lookup_find split: option.splits)
  show "fst (pre_peer api cfg n s) \<longleftrightarrow> \<not> ?dec (dotted a b c d, int port)"
    if "mem_load (app_mem s) p 16 = Some (sockaddr_in port a b c d pad)"
      "port < 65536" "a < 256" "b < 256" "c < 256" "d < 256"
    unfolding verdict peer_decoded [OF assms(1,2) that] by simp
  show "fst (pre_peer api cfg n s) \<longleftrightarrow> \<not> ?dec (''*'', - 1)"
    if "case mem_load (app_mem s) p 16 of None \<Rightarrow> True | Some raw \<Rightarrow> take 2 raw \<noteq> [CHR 0x02, CHR 0x00]"
    unfolding verdict peer_absent [OF assms(1) that] by simp
  show "\<not> fst (pre_peer api cfg n s) \<Longrightarrow> failed_with ENETDOWN (snd (pre_peer api cfg n s))"
    by (auto simp: pre_peer_def Let_def split: if_splits)
qed

text \<open>
  C18: A connection follows the network rules. When the address handed to \<open>connect\<close>, \<open>bind\<close> or
  \<open>sendto\<close> is an IPv4 address (whatever its padding holds), the call is let through exactly when the
  first rule that matches the dotted address and the port allows it, or no rule matches and the network
  is not blocked. When the address is unreadable or of another family, the call is decided as the peer
  \<open>*\<close> without a port. A refused call fails with ENETDOWN.
\<close>
theorem connect_follows_rules:
  assumes "safe_read_ok api" and "snprintf_ok api" and "n \<in> {SYS_connect, SYS_bind, SYS_sendto}"
    and "p = get_param s (if n = SYS_sendto then 4 else 1)"
  shows "(mem_load (app_mem s) p 16 = Some (sockaddr_in port a b c d pad) \<longrightarrow>
      port < 65536 \<and> a < 256 \<and> b < 256 \<and> c < 256 \<and> d < 256 \<longrightarrow>
      (fst (pre_peer api cfg n s) \<longleftrightarrow>
      \<not> (case find (\<lambda>r. net_rule_matches r (dotted a b c d, int port)) (g_network_rules cfg) of
           None \<Rightarrow> g_block_network cfg | Some r \<Rightarrow> net_block r))) \<and>
    ((case mem_load (app_mem s) p 16 of None \<Rightarrow> True | Some raw \<Rightarrow> take 2 raw \<noteq> [CHR 0x02, CHR 0x00]) \<longrightarrow>
      (fst (pre_peer api cfg n s) \<longleftrightarrow>
      \<not> (case find (\<lambda>r. net_rule_matches r (''*'', - 1)) (g_network_rules cfg) of
           None \<Rightarrow> g_block_network cfg | Some r \<Rightarrow> net_block r))) \<and>
    (\<not> fst (pre_peer api cfg n s) \<longrightarrow> failed_with ENETDOWN (snd (pre_peer api cfg n s)))"
  using connect_follows_rules_facts [OF assms] by blast

text \<open>A connection to one blocked address, and one to an IPv6 address (family 10).\<close>

definition connect_call :: "string \<Rightarrow> sandbox" where
  "connect_call raw = initial_sandbox\<lparr>app_mem := mem_store (\<lambda>_. None) 4096 raw, sys_params := (\<lambda>_. 4096)\<rparr>"

lemma connect_call_addr:
  "length raw = 16 \<Longrightarrow> mem_load (app_mem (connect_call raw)) 4096 16 = Some raw"
  using mem_load_store [of raw "\<lambda>_. None" 4096] by (simp add: connect_call_def)

theorem connect_follows_rules_witness:
  "\<not> fst (pre_peer plain_api (demo_config\<lparr>g_network_rules :=
       [\<lparr>net_block = True, net_any_ip = False, net_ip = ''10.0.0.1'', net_port = 80\<rparr>]\<rparr>) SYS_connect
     (connect_call (sockaddr_in 80 10 0 0 1 ''paddings''))) \<and>
   fst (pre_peer plain_api (demo_config\<lparr>g_network_rules :=
       [\<lparr>net_block = True, net_any_ip = False, net_ip = ''10.0.0.1'', net_port = 80\<rparr>]\<rparr>) SYS_connect
     (connect_call (CHR 0x0A # replicate 15 (CHR 0x00))))"
proof
  let ?cfg = "demo_config\<lparr>g_network_rules :=
       [\<lparr>net_block = True, net_any_ip = False, net_ip = ''10.0.0.1'', net_port = 80\<rparr>]\<rparr>"
  have par: "4096 = get_param (connect_call raw) (if SYS_connect = SYS_sendto then 4 else 1)" for raw
    by (simp add: connect_call_def get_param_def)
  have ip: "dotted 10 0 0 1 = ''10.0.0.1''" by (simp add: dotted_def show_nat.simps)
  let ?v4 = "sockaddr_in 80 10 0 0 1 ''paddings''" and ?v6 = "CHR 0x0A # replicate 15 (CHR 0x00)"
  have v4: "mem_load (app_mem (connect_call ?v4)) 4096 16 = Some ?v4" by (rule connect_call_addr) simp
  show "\<not> fst (pre_peer plain_api ?cfg SYS_connect (connect_call ?v4))"
    using connect_follows_rules [OF plain_api_ok(2,1) _ par, of ?v4 80 10 0 0 1 "''paddings''" ?cfg] v4
    by (simp add: net_rule_matches_def ip [unfolded One_nat_def])
  have v6: "mem_load (app_mem (connect_call ?v6)) 4096 16 = Some ?v6" by (rule connect_call_addr) simp
  show "fst (pre_peer plain_api ?cfg SYS_connect (connect_call ?v6))"
    using connect_follows_rules [OF plain_api_ok(2,1) _ par, of ?v6 _ _ _ _ _ _ ?cfg] v6
    by (simp add: net_rule_matches_def demo_config_def)
qed

end
