(* ===== verification/Pre_Syscall.thy ===== *)
theory Pre_Syscall
  imports Pre_Controls
begin

text \<open>
  The pre-syscall event as a whole: the reset of the notes for the post-syscall event, the time budget,
  the descriptor calls, the list of calls that always pass, and the dispatch to the path handlers
  and the controls, in the order of the C function.
\<close>

section \<open>Definitions\<close>

definition event_filter_syscall :: "int \<Rightarrow> bool" where
  "event_filter_syscall sysnum = True"

definition pre_reset :: "int \<Rightarrow> sandbox \<Rightarrow> sandbox" where
  "pre_reset sysnum s =
     s\<lparr>g_last_sysnum := sysnum, g_last_mmap_len := 0, g_last_mremap_old_len := 0,
       g_last_mremap_new_len := 0, g_last_munmap_len := 0, g_pending_open := False,
       g_pending_dup := False\<rparr>"

definition pre_close :: "dr_api \<Rightarrow> config \<Rightarrow> int \<Rightarrow> handler" where
  "pre_close api cfg sysnum s =
     (let fd = int_of_reg (get_param s 0);
          path = (case fd_shadow_get s fd of None \<Rightarrow> [] | Some sh \<Rightarrow> shadow_path sh)
      in (True, fd_shadow_clear fd (audit_semantic_event api cfg ''close'' ''allow'' sysnum fd path [] s)))"

definition pre_dup :: "int \<Rightarrow> handler" where
  "pre_dup sysnum s =
     (let has_dst = (sysnum = SYS_dup2 \<or> sysnum = SYS_dup3);
          dst = (if has_dst then int_of_reg (get_param s 1) else - 1);
          s1 = s\<lparr>g_pending_dup := True, g_pending_dup_src := int_of_reg (get_param s 0),
                 g_pending_dup_has_dst := has_dst, g_pending_dup_dst := dst\<rparr>
      in (True, if has_dst then fd_shadow_clear dst s1 else s1))"

definition pre_fcntl :: handler where
  "pre_fcntl s =
     (let cmd = int_of_reg (get_param s 1)
      in (True, if cmd = 0 \<or> cmd = 1030
                then s\<lparr>g_pending_dup := True, g_pending_dup_src := int_of_reg (get_param s 0),
                       g_pending_dup_has_dst := False, g_pending_dup_dst := - 1\<rparr>
                else s))"

definition always_allowed :: "int list" where
  "always_allowed =
     [SYS_close, SYS_fstat, SYS_lseek, SYS_fcntl, SYS_flock, SYS_fsync, SYS_fdatasync, SYS_ftruncate,
      SYS_fallocate, SYS_getdents, SYS_getdents64, SYS_dup3, SYS_pipe2, SYS_msync, SYS_rt_sigaction,
      SYS_rt_sigprocmask, SYS_rt_sigreturn, SYS_rt_sigsuspend, SYS_rt_sigpending, SYS_sigaltstack,
      SYS_futex, SYS_set_tid_address, SYS_set_robust_list, SYS_get_robust_list, SYS_tgkill,
      SYS_getuid, SYS_geteuid, SYS_getgid, SYS_getegid, SYS_getpgrp, SYS_getpgid, SYS_getsid,
      SYS_getppid, SYS_getresuid, SYS_getresgid, SYS_getcwd, SYS_clock_gettime, SYS_clock_getres,
      SYS_clock_nanosleep, SYS_nanosleep, SYS_gettimeofday, SYS_uname, SYS_getrandom, SYS_sched_yield,
      SYS_sched_getaffinity, SYS_sched_getparam, SYS_sched_getscheduler, SYS_sched_get_priority_max,
      SYS_sched_get_priority_min, SYS_getrlimit, SYS_getrusage, SYS_arch_prctl, SYS_prctl,
      SYS_prlimit64, SYS_rseq, SYS_membarrier, SYS_restart_syscall, SYS_exit, SYS_exit_group]"

definition pre_dispatch :: "dr_api \<Rightarrow> config \<Rightarrow> int \<Rightarrow> handler" where
  "pre_dispatch api cfg sysnum s =
     (if sysnum = SYS_close then pre_close api cfg sysnum s
      else if sysnum = SYS_dup \<or> sysnum = SYS_dup2 \<or> sysnum = SYS_dup3 then pre_dup sysnum s
      else if sysnum = SYS_fcntl then pre_fcntl s
      else if sysnum \<in> set always_allowed then (True, s)
      else if sysnum = SYS_open \<or> sysnum = SYS_openat \<or> sysnum = SYS_creat then pre_open api cfg sysnum s
      else case path_ops sysnum of
        Some ops \<Rightarrow> run_path_ops api cfg sysnum ops s
      | None \<Rightarrow> pre_controls api cfg sysnum s)"

definition event_pre_syscall :: "dr_api \<Rightarrow> config \<Rightarrow> int \<Rightarrow> handler" where
  "event_pre_syscall api cfg sysnum s =
     (let (ok, s1) = check_cpuish_budget api cfg sysnum (pre_reset sysnum s)
      in if ok then pre_dispatch api cfg sysnum s1 else (False, s1))"

text \<open>The syscalls that have a branch of their own before the tail.\<close>

definition controlled :: "int list" where
  "controlled =
     [SYS_write, SYS_writev, SYS_pwrite64, SYS_read, SYS_pread64, SYS_brk, SYS_munmap, SYS_mremap,
      SYS_mmap, SYS_mprotect, SYS_socket, SYS_socketpair, SYS_connect, SYS_bind, SYS_sendto,
      SYS_execve, SYS_execveat, SYS_fork, SYS_vfork, SYS_clone, SYS_clone3] @ unknown_peer_sysnums"

definition recognised :: "int \<Rightarrow> bool" where
  "recognised n =
     (n \<in> set always_allowed \<or> n \<in> {SYS_dup, SYS_dup2, SYS_open, SYS_openat, SYS_creat} \<or>
      path_ops n \<noteq> None \<or> n \<in> set controlled)"

text \<open>Every branch is on a number the file has a macro for.\<close>

lemma recognised_listed:
  assumes "recognised n"
  shows "n \<in> snd ` set policy_macros"
proof -
  let ?paths = "[SYS_stat, SYS_lstat, SYS_access, SYS_readlink, SYS_rmdir, SYS_unlink, SYS_truncate, SYS_statfs,
     SYS_mkdir, SYS_fstatat, SYS_faccessat, SYS_faccessat2, SYS_readlinkat, SYS_unlinkat, SYS_utimensat,
     SYS_mkdirat, SYS_statx, SYS_rename, SYS_renameat, SYS_renameat2, SYS_link, SYS_linkat, SYS_symlink,
     SYS_symlinkat, SYS_dup, SYS_dup2, SYS_open, SYS_openat, SYS_creat]"
  have sub: "set xs \<subseteq> set ys" if "subseq (foldr insort xs []) (foldr insort ys [])" for xs ys :: "int list"
    using list_emb_set [OF that [folded sort_key_def]] by (metis set_sort subsetI)
  have "subseq (foldr insort always_allowed []) (foldr insort (map snd policy_macros) [])" by code_simp
  from sub [OF this] have always: "set always_allowed \<subseteq> snd ` set policy_macros" by simp
  have "subseq (foldr insort controlled []) (foldr insort (map snd policy_macros) [])" by code_simp
  from sub [OF this] have ctl: "set controlled \<subseteq> snd ` set policy_macros" by simp
  have "subseq (foldr insort ?paths []) (foldr insort (map snd policy_macros) [])" by code_simp
  from sub [OF this] have paths: "set ?paths \<subseteq> snd ` set policy_macros" by simp
  have "n \<in> set ?paths" if "path_ops n \<noteq> None" using that by (auto simp: path_ops_def split: if_splits)
  with assms consider "n \<in> set always_allowed" | "n \<in> set ?paths" | "n \<in> set controlled"
    by (auto simp: recognised_def)
  then show ?thesis using always ctl paths by cases blast+
qed

section \<open>The event meets the handler contract\<close>

lemma benign_reset: "benign cfg s (pre_reset n s)"
  by (simp add: benign_def pre_reset_def mem_accounting_def client_ok_def shadow_ok_def)

lemma benign_clear [guard_rules]: "benign cfg s s1 \<Longrightarrow> benign cfg s (fd_shadow_clear fd s1)"
  using shadow_ok_clear [of s1 fd]
  by (simp add: benign_def fd_shadow_clear_def mem_accounting_def client_ok_def)

lemma benign_dup_note [guard_rules]:
  "benign cfg s s1 \<Longrightarrow> benign cfg s (s1\<lparr>g_pending_dup := a, g_pending_dup_src := b,
     g_pending_dup_has_dst := c, g_pending_dup_dst := d\<rparr>)"
  by (simp add: benign_def mem_accounting_def client_ok_def shadow_ok_def)

lemma guarded_dispatch: "guarded cfg s (pre_dispatch api cfg n s)"
  unfolding pre_dispatch_def pre_close_def pre_dup_def pre_fcntl_def Let_def
  by (auto split: option.splits intro!: guard_rules)

lemma guarded_cpuish: "guarded cfg s (check_cpuish_budget api cfg n s)"
  by (auto simp: guarded_def check_cpuish_budget_def Let_def audit_events_frame set_errno_result_def
      mem_accounting_def client_ok_def shadow_ok_def)

lemma guarded_pre: "guarded cfg s (event_pre_syscall api cfg n s)"
proof (rule guarded_after [OF benign_reset [of cfg s n]])
  obtain ok s1 where r: "check_cpuish_budget api cfg n (pre_reset n s) = (ok, s1)" by fastforce
  then have "guarded cfg (pre_reset n s) (ok, s1)" using guarded_cpuish by metis
  then show "guarded cfg (pre_reset n s) (event_pre_syscall api cfg n s)"
    using guarded_seq [of cfg "pre_reset n s" ok s1] guarded_dispatch by (simp add: event_pre_syscall_def r)
qed

interpretation pre_guard: syscall_guard cfg "event_pre_syscall api cfg n" for api cfg n
  by (rule guardI) (rule guarded_pre)

section \<open>The dispatch\<close>

text \<open>The branches of the strict tail other than the last are never taken.\<close>

lemma tail_members:
  "n \<in> set tail_network \<longleftrightarrow> n \<in> set unknown_peer_sysnums \<or>
     n \<in> {SYS_socket, SYS_socketpair, SYS_connect, SYS_bind, SYS_sendto}"
  by (auto simp: tail_network_def unknown_peer_sysnums_def)

lemma controls_unlisted:
  "n \<notin> set controlled \<Longrightarrow> pre_controls api cfg n s =
     (if g_mode cfg = MODE_OBSERVE then (True, audit_syscall_event api cfg ''observe'' n s) else deny EPERM s)"
  unfolding pre_controls_def strict_tail_def tail_members by (simp add: controlled_def)

lemma dispatch_unrecognised:
  "\<not> recognised n \<Longrightarrow> pre_dispatch api cfg n s =
     (if g_mode cfg = MODE_OBSERVE then (True, audit_syscall_event api cfg ''observe'' n s) else deny EPERM s)"
  by (auto simp: recognised_def pre_dispatch_def controls_unlisted always_allowed_def)

lemma cpuish_unrecognised: "\<not> recognised n \<Longrightarrow> check_cpuish_budget api cfg n s = (True, s)"
  by (auto simp: check_cpuish_budget_def cpuish_sysnums_def recognised_def controlled_def)

lemma pre_unrecognised:
  "\<not> recognised n \<Longrightarrow> event_pre_syscall api cfg n s =
     (if g_mode cfg = MODE_OBSERVE then (True, audit_syscall_event api cfg ''observe'' n (pre_reset n s))
      else deny EPERM (pre_reset n s))"
  by (simp add: event_pre_syscall_def cpuish_unrecognised dispatch_unrecognised)

lemma same_call_reset [simp]: "same_call s (pre_reset n s)"
  by (simp add: same_call_def pre_reset_def get_param_def fun_eq_iff)

lemma pre_controlled:
  assumes "n \<in> set controlled" and "n \<notin> set cpuish_sysnums"
  shows "event_pre_syscall api cfg n s = pre_controls api cfg n (pre_reset n s)"
proof -
  have "check_cpuish_budget api cfg n (pre_reset n s) = (True, pre_reset n s)"
    using assms(2) by (simp add: check_cpuish_budget_def)
  moreover have "list_all (\<lambda>n. n \<notin> set always_allowed \<and> path_ops n = None \<and>
      n \<notin> set [SYS_close, SYS_dup, SYS_dup2, SYS_dup3, SYS_fcntl, SYS_open, SYS_openat, SYS_creat]) controlled"
    by code_simp
  then have "n \<notin> set always_allowed" "path_ops n = None"
    "n \<notin> {SYS_close, SYS_dup, SYS_dup2, SYS_dup3, SYS_fcntl, SYS_open, SYS_openat, SYS_creat}"
    using assms(1) by (auto simp: list_all_iff)
  ultimately show ?thesis by (simp add: event_pre_syscall_def pre_dispatch_def)
qed

lemma controls_unknown_peer:
  assumes "n \<in> set unknown_peer_sysnums"
  shows "pre_controls api cfg n s = pre_unknown_peer api cfg n s"
proof -
  have "list_all (\<lambda>n. n \<notin> set [SYS_write, SYS_writev, SYS_pwrite64, SYS_read, SYS_pread64, SYS_brk,
      SYS_munmap, SYS_mremap, SYS_mmap, SYS_mprotect, SYS_socket, SYS_socketpair, SYS_connect, SYS_bind,
      SYS_sendto]) unknown_peer_sysnums"
    by code_simp
  with assms show ?thesis by (simp add: list_all_iff pre_controls_def)
qed

lemma get_param_reset [simp]: "get_param (pre_reset n s) = get_param s"
  by (simp add: pre_reset_def get_param_def fun_eq_iff)

section \<open>Properties\<close>

lemma pre_syscall_contract_facts:
  shows "sys_result s = None \<Longrightarrow>
      fst (event_pre_syscall api cfg n s) \<longleftrightarrow> sys_result (snd (event_pre_syscall api cfg n s)) = None"
    and "mem_accounting (snd (event_pre_syscall api cfg n s)) = mem_accounting s"
    and "prefix (audit_lines s) (audit_lines (snd (event_pre_syscall api cfg n s)))"
    and "client_ok cfg s \<Longrightarrow> client_ok cfg (snd (event_pre_syscall api cfg n s))"
  by (rule pre_guard.refused_iff pre_guard.accounting pre_guard.audit_grows pre_guard.keeps, assumption?)+

text \<open>
  C3: The contract of the pre-syscall event, for every syscall number, configuration and state. A
  syscall that arrives without a result leaves with one exactly when it is refused, so none is
  skipped without telling the application what happened; the allocation accounting is left to the
  post-syscall event; audit lines are only appended; and the invariant of the client (shadow table,
  noted path, output counters) is kept.
\<close>
theorem pre_syscall_contract:
  shows "(sys_result s = None \<longrightarrow>
      (fst (event_pre_syscall api cfg n s) \<longleftrightarrow> sys_result (snd (event_pre_syscall api cfg n s)) = None)) \<and>
    mem_accounting (snd (event_pre_syscall api cfg n s)) = mem_accounting s \<and>
    prefix (audit_lines s) (audit_lines (snd (event_pre_syscall api cfg n s))) \<and>
    (client_ok cfg s \<longrightarrow> client_ok cfg (snd (event_pre_syscall api cfg n s)))"
  using pre_syscall_contract_facts by blast

theorem pre_syscall_contract_witness:
  "fst (event_pre_syscall plain_api strict_config SYS_execve initial_sandbox) \<longleftrightarrow>
     sys_result (snd (event_pre_syscall plain_api strict_config SYS_execve initial_sandbox)) = None"
  using pre_syscall_contract [of initial_sandbox plain_api strict_config SYS_execve]
  by (simp add: initial_sandbox_def)

lemma unrecognised_syscalls_facts:
  assumes "\<not> recognised n"
  shows "g_mode cfg = MODE_STRICT \<Longrightarrow>
      \<not> fst (event_pre_syscall api cfg n s) \<and> failed_with EPERM (snd (event_pre_syscall api cfg n s))"
    and "g_mode cfg = MODE_OBSERVE \<Longrightarrow> fst (event_pre_syscall api cfg n s)"
    and "same_call s (snd (event_pre_syscall api cfg n s))"
  using pre_unrecognised [OF assms, of api cfg s] by simp_all

text \<open>
  C4: Strict mode denies by default. A syscall that no branch names is refused with EPERM and its
  parameters are untouched, so whatever strict mode lets through is one of the named syscalls; in
  observe mode the same syscall goes to the kernel unchanged.
\<close>
theorem unrecognised_syscalls:
  assumes "\<not> recognised n"
  shows "(g_mode cfg = MODE_STRICT \<longrightarrow>
      (\<not> fst (event_pre_syscall api cfg n s) \<and> failed_with EPERM (snd (event_pre_syscall api cfg n s)))) \<and>
    (g_mode cfg = MODE_OBSERVE \<longrightarrow> fst (event_pre_syscall api cfg n s)) \<and>
    same_call s (snd (event_pre_syscall api cfg n s))"
  using unrecognised_syscalls_facts [OF assms] by blast

theorem unrecognised_syscalls_witness:
  "\<not> fst (event_pre_syscall plain_api strict_config 101 initial_sandbox)"
proof -
  have "\<not> recognised 101" by code_simp
  then show ?thesis using unrecognised_syscalls [of 101 strict_config] by (simp add: strict_config_def)
qed

text \<open>
  \<open>getpid\<close> (39) and \<open>gettid\<close> (186) have no branch: strict mode refuses both with EPERM, where the
  documentation lists them as always allowed.
\<close>
lemma strict_refuses_getpid:
  assumes "g_mode cfg = MODE_STRICT" and "n = 39 \<or> n = 186"
  shows "\<not> fst (event_pre_syscall api cfg n s) \<and> failed_with EPERM (snd (event_pre_syscall api cfg n s))"
proof -
  have "\<not> recognised 39" "\<not> recognised 186" by code_simp+
  then show ?thesis using assms pre_unrecognised [of n api cfg s] by auto
qed

text \<open>
  C40: Path syscalls outside of the policy. \<open>chmod\<close> (90), \<open>chown\<close> (92), \<open>lchown\<close> (94), \<open>utime\<close>
  (132), \<open>mknod\<close> (133), \<open>chdir\<close> (80), \<open>fchownat\<close> (260), \<open>fchmodat\<close> (268) and \<open>openat2\<close> (437) take
  paths but have no branch: in observe mode they are passed to the kernel unchanged whatever the
  configured path rules say about their paths.
\<close>
theorem observe_passes_unpoliced_path_syscalls:
  assumes "g_mode cfg = MODE_OBSERVE" and "n \<in> {80, 90, 92, 94, 132, 133, 260, 268, 437}"
  shows "fst (event_pre_syscall api cfg n s) \<and> same_call s (snd (event_pre_syscall api cfg n s))"
proof -
  have "\<not> recognised n" using assms(2)
    by (elim insertE emptyE; simp only:) code_simp+
  then show ?thesis using assms(1) pre_unrecognised [of n api cfg s] by simp
qed

theorem observe_passes_unpoliced_path_syscalls_witness:
  "fst (event_pre_syscall plain_api (demo_config\<lparr>g_path_rules :=
     [\<lparr>rule_action = PATH_POLICY_BLOCK, rule_prefix = ''/secrets''\<rparr>]\<rparr>) 437 (demo_call ''/secrets/k'' (\<lambda>_. 4096)))"
  using observe_passes_unpoliced_path_syscalls [of "demo_config\<lparr>g_path_rules :=
     [\<lparr>rule_action = PATH_POLICY_BLOCK, rule_prefix = ''/secrets''\<rparr>]\<rparr>" 437] by (simp add: demo_config_def)

lemma capability_switches_facts:
  shows "g_block_exec cfg \<Longrightarrow> n \<in> {SYS_execve, SYS_execveat} \<Longrightarrow>
      \<not> fst (event_pre_syscall api cfg n s) \<and> failed_with EPERM (snd (event_pre_syscall api cfg n s))"
    and "g_block_prot_exec cfg \<Longrightarrow> n \<in> {SYS_mmap, SYS_mprotect} \<Longrightarrow> get_param s 2 AND PROT_EXEC \<noteq> 0 \<Longrightarrow>
      \<not> fst (event_pre_syscall api cfg n s) \<and> failed_with EPERM (snd (event_pre_syscall api cfg n s))"
    and "g_block_network cfg \<Longrightarrow> g_network_rules cfg = [] \<Longrightarrow> n \<in> set tail_network \<Longrightarrow>
      \<not> fst (event_pre_syscall api cfg n s) \<and> failed_with ENETDOWN (snd (event_pre_syscall api cfg n s))"
proof -
  show "g_block_exec cfg \<Longrightarrow> n \<in> {SYS_execve, SYS_execveat} \<Longrightarrow>
      \<not> fst (event_pre_syscall api cfg n s) \<and> failed_with EPERM (snd (event_pre_syscall api cfg n s))"
    using pre_controlled [of n api cfg s]
    by (auto simp: controlled_def cpuish_sysnums_def unknown_peer_sysnums_def pre_controls_def pre_exec_def)
  show "g_block_prot_exec cfg \<Longrightarrow> n \<in> {SYS_mmap, SYS_mprotect} \<Longrightarrow> get_param s 2 AND PROT_EXEC \<noteq> 0 \<Longrightarrow>
      \<not> fst (event_pre_syscall api cfg n s) \<and> failed_with EPERM (snd (event_pre_syscall api cfg n s))"
    using pre_controlled [of n api cfg s]
    by (auto simp: controlled_def cpuish_sysnums_def pre_controls_def pre_mmap_def pre_mprotect_def)
  assume net: "g_block_network cfg" "g_network_rules cfg = []" "n \<in> set tail_network"
  have blk: "network_policy_blocks_unknown_peer cfg" "network_policy_blocks_peer cfg ip port True" for ip port
    using net by (simp_all add: network_policy_blocks_unknown_peer_def network_policy_blocks_peer_def)
  have "\<not> fst (pre_controls api cfg n s') \<and> failed_with ENETDOWN (snd (pre_controls api cfg n s'))" for s'
  proof (cases "n \<in> set unknown_peer_sysnums")
    case True
    then show ?thesis by (simp add: controls_unknown_peer pre_unknown_peer_def blk)
  next
    case False
    then have "n \<in> {SYS_socket, SYS_socketpair} \<or> n \<in> {SYS_connect, SYS_bind, SYS_sendto}"
      using net(3) by (auto simp: tail_members)
    then have "pre_controls api cfg n s' = pre_socket api cfg n s' \<or> pre_controls api cfg n s' = pre_peer api cfg n s'"
      by (auto simp: pre_controls_def)
    moreover have "\<exists>x. pre_peer api cfg n s' = deny ENETDOWN x"
      using net(1) by (auto simp: pre_peer_def Let_def blk split: option.splits)
    moreover have "\<exists>x. pre_socket api cfg n s' = deny ENETDOWN x"
      using net(1,2) by (auto simp: pre_socket_def)
    ultimately show ?thesis by force
  qed
  moreover have "list_all (\<lambda>n. n \<in> set controlled \<and> n \<notin> set cpuish_sysnums) tail_network" by code_simp
  then have "n \<in> set controlled" "n \<notin> set cpuish_sysnums" using net(3) by (auto simp: list_all_iff)
  ultimately show "\<not> fst (event_pre_syscall api cfg n s) \<and>
      failed_with ENETDOWN (snd (event_pre_syscall api cfg n s))"
    by (simp add: pre_controlled)
qed

text \<open>
  C15: The capability switches hold at the event. With exec blocked every \<open>execve\<close> and \<open>execveat\<close> fails
  with EPERM; with executable memory blocked every \<open>mmap\<close> and \<open>mprotect\<close> whose protection has the
  exec bit fails with EPERM; with the network blocked and no network rule all eighteen socket calls
  fail with ENETDOWN, whatever their arguments are.
\<close>
theorem capability_switches:
  shows "(g_block_exec cfg \<longrightarrow> n \<in> {SYS_execve, SYS_execveat} \<longrightarrow>
      (\<not> fst (event_pre_syscall api cfg n s) \<and> failed_with EPERM (snd (event_pre_syscall api cfg n s)))) \<and>
    (g_block_prot_exec cfg \<longrightarrow> n \<in> {SYS_mmap, SYS_mprotect} \<longrightarrow>
      get_param s 2 AND PROT_EXEC \<noteq> 0 \<longrightarrow>
      (\<not> fst (event_pre_syscall api cfg n s) \<and> failed_with EPERM (snd (event_pre_syscall api cfg n s)))) \<and>
    (g_block_network cfg \<longrightarrow> g_network_rules cfg = [] \<longrightarrow>
      n \<in> set tail_network \<longrightarrow>
      (\<not> fst (event_pre_syscall api cfg n s) \<and> failed_with ENETDOWN (snd (event_pre_syscall api cfg n s))))"
  using capability_switches_facts [where api = api and cfg = cfg and n = n and s = s] by blast

theorem capability_switches_witness:
  "failed_with EPERM (snd (event_pre_syscall plain_api strict_config SYS_execve initial_sandbox)) \<and>
   failed_with ENETDOWN (snd (event_pre_syscall plain_api strict_config SYS_connect initial_sandbox))"
  using capability_switches [of strict_config SYS_execve] capability_switches [of strict_config SYS_connect]
  by (simp add: strict_config_def demo_config_def tail_network_def)

end
