(* ===== verification/Post_Syscall.thy ===== *)
theory Post_Syscall
  imports Pre_Syscall
begin

text \<open>
  The post-syscall event: descriptors are recorded after a successful open, entries are copied after a
  successful duplication, and the allocation budget is charged or released with the lengths the
  pre-syscall event noted. The result of the kernel is an argument; \<open>None\<close> stands for
  \<open>dr_syscall_get_result_ex\<close> returning false. For \<open>brk\<close> the code reads the requested break again with
  \<open>dr_syscall_get_param\<close> (1988), which DynamoRIO documents for the pre-syscall event; the model takes
  what this returns to be the parameter the call was made with.
\<close>

section \<open>Definitions\<close>

definition post_open :: "dr_api \<Rightarrow> config \<Rightarrow> int \<Rightarrow> reg_t \<Rightarrow> sandbox \<Rightarrow> sandbox" where
  "post_open api cfg sysnum result s =
     (let fd = int_of_reg result;
          s1 = fd_shadow_set fd (g_pending_open_path s) (g_pending_open_block_write s) s
      in audit_semantic_event api cfg ''fd''
           (if g_pending_open_block_write s then ''track-block-write'' else ''track'') sysnum fd
           (g_pending_open_path s) [] s1)"

definition post_dup :: "dr_api \<Rightarrow> config \<Rightarrow> reg_t \<Rightarrow> sandbox \<Rightarrow> sandbox" where
  "post_dup api cfg result s =
     (let dst = (if g_pending_dup_has_dst s then g_pending_dup_dst s else int_of_reg result)
      in fd_shadow_copy api cfg dst (g_pending_dup_src s) s)"

definition post_mmap :: "config \<Rightarrow> dr_syscall_result_info_t \<Rightarrow> sandbox \<Rightarrow> sandbox" where
  "post_mmap cfg info s =
     (if g_last_sysnum s = SYS_mmap \<and> g_last_mmap_len s > 0 \<and> succeeded info
      then alloc_budget_add cfg (g_last_mmap_len s) s else s)"

definition post_munmap :: "config \<Rightarrow> dr_syscall_result_info_t \<Rightarrow> sandbox \<Rightarrow> sandbox" where
  "post_munmap cfg info s =
     (if g_last_sysnum s = SYS_munmap \<and> g_last_munmap_len s > 0 \<and> succeeded info
      then alloc_budget_sub cfg (g_last_munmap_len s) s else s)"

definition post_mremap :: "config \<Rightarrow> dr_syscall_result_info_t \<Rightarrow> sandbox \<Rightarrow> sandbox" where
  "post_mremap cfg info s =
     (if g_last_sysnum s = SYS_mremap \<and> succeeded info
      then if g_last_mremap_new_len s > g_last_mremap_old_len s
           then alloc_budget_add cfg (g_last_mremap_new_len s - g_last_mremap_old_len s) s
           else alloc_budget_sub cfg (g_last_mremap_old_len s - g_last_mremap_new_len s) s
      else s)"

definition post_brk :: "dr_syscall_result_info_t \<Rightarrow> sandbox \<Rightarrow> sandbox" where
  "post_brk info s =
     (let requested = get_param s 0; result = res_value info;
          s1 = (if succeeded info \<and> result \<noteq> 0
                then (if g_initial_brk s = 0 then s\<lparr>g_initial_brk := result\<rparr> else s)\<lparr>g_current_brk := result\<rparr>
                else s)
      in if requested \<noteq> 0 \<and> result = requested \<and> g_initial_brk s1 \<noteq> 0 \<and> result > g_initial_brk s1 then
           let heap_bytes = result - g_initial_brk s1
           in if heap_bytes > g_alloc_bytes s1 then s1\<lparr>g_alloc_bytes := heap_bytes\<rparr> else s1
         else s1)"

definition event_post_syscall ::
  "dr_api \<Rightarrow> config \<Rightarrow> int \<Rightarrow> dr_syscall_result_info_t option \<Rightarrow> sandbox \<Rightarrow> sandbox" where
  "event_post_syscall api cfg sysnum res s =
     (case res of
        None \<Rightarrow> s
      | Some info \<Rightarrow>
          if (sysnum = SYS_open \<or> sysnum = SYS_openat \<or> sysnum = SYS_creat) \<and>
             g_pending_open s \<and> succeeded info
          then post_open api cfg sysnum (res_value info) s
          else if g_pending_dup s \<and> succeeded info then post_dup api cfg (res_value info) s
          else if sysnum = SYS_mmap then post_mmap cfg info s
          else if sysnum = SYS_munmap then post_munmap cfg info s
          else if sysnum = SYS_mremap then post_mremap cfg info s
          else if sysnum = SYS_brk then post_brk info s
          else s)"

text \<open>The request of a \<open>brk\<close> in flight is within the budget, as \<open>pre_brk\<close> left it.\<close>

definition brk_checked :: "config \<Rightarrow> sandbox \<Rightarrow> reg_t \<Rightarrow> bool" where
  "brk_checked cfg s requested =
     (alloc_budget_enabled cfg \<longrightarrow> requested = 0 \<or> g_initial_brk s = 0 \<or>
      unat requested \<le> unat (g_initial_brk s) + unat (g_max_alloc_bytes cfg))"

text \<open>A successful result, for the examples.\<close>

definition returned :: "reg_t \<Rightarrow> dr_syscall_result_info_t" where
  "returned v = \<lparr>succeeded = True, res_value = v, errno_value = 0\<rparr>"

section \<open>The invariants\<close>

lemma client_ok_post_open: "client_ok cfg s \<Longrightarrow> client_ok cfg (post_open api cfg' n r s)"
proof -
  assume ok: "client_ok cfg s"
  then have "shadow_ok (fd_shadow_set (int_of_reg r) (g_pending_open_path s) (g_pending_open_block_write s) s)"
    by (intro shadow_ok_set) (simp add: client_ok_def)
  with ok show ?thesis
    by (simp add: post_open_def Let_def client_ok_def fd_shadow_set_def audit_events_frame shadow_ok_def)
qed

lemma client_ok_post_dup: "client_ok cfg s \<Longrightarrow> client_ok cfg (post_dup api cfg' r s)"
proof -
  assume ok: "client_ok cfg s"
  let ?d = "if g_pending_dup_has_dst s then g_pending_dup_dst s else int_of_reg r"
  have "shadow_ok (fd_shadow_copy api cfg' ?d (g_pending_dup_src s) s)"
    using ok by (intro shadow_ok_copy) (simp add: client_ok_def)
  with ok show ?thesis
    by (auto simp: post_dup_def Let_def client_ok_def fd_shadow_copy_def fd_shadow_clear_def
        fd_shadow_set_def audit_events_frame split: option.splits)
qed

lemma client_ok_budget [simp]:
  "client_ok cfg (alloc_budget_add cfg' k s) = client_ok cfg s"
  "client_ok cfg (alloc_budget_sub cfg' k s) = client_ok cfg s"
  by (subst alloc_budget_frame, simp add: client_ok_def shadow_ok_def)+

lemma client_ok_post_brk: "client_ok cfg (post_brk info s) = client_ok cfg s"
  by (simp add: post_brk_def Let_def client_ok_def shadow_ok_def)

lemma client_ok_post: "client_ok cfg s \<Longrightarrow> client_ok cfg (event_post_syscall api cfg' n res s)"
  by (simp add: event_post_syscall_def post_mmap_def post_munmap_def post_mremap_def client_ok_post_open
      client_ok_post_dup client_ok_post_brk split: option.splits)

lemma alloc_frame_fd [simp]:
  "g_alloc_bytes (post_open api cfg n r s) = g_alloc_bytes s"
  "g_alloc_bytes (post_dup api cfg r s) = g_alloc_bytes s"
  "g_initial_brk (post_open api cfg n r s) = g_initial_brk s"
  "g_initial_brk (post_dup api cfg r s) = g_initial_brk s"
  by (simp_all add: post_open_def post_dup_def fd_shadow_copy_def fd_shadow_clear_def fd_shadow_set_def
      Let_def audit_events_frame split: option.splits)

lemma budget_ok_post_brk:
  assumes "budget_ok cfg s" and "brk_checked cfg s (get_param s 0) \<or> res_value info = 0"
  shows "budget_ok cfg (post_brk info s)"
proof (cases "alloc_budget_enabled cfg")
  case True
  let ?r = "res_value info" and ?i = "g_initial_brk s"
  have le: "g_alloc_bytes s \<le> g_max_alloc_bytes cfg" using assms(1) True by (simp add: budget_ok_def)
  have "?r - ?i \<le> g_max_alloc_bytes cfg" if "get_param s 0 = ?r" "?r \<noteq> 0" "?i \<noteq> 0" "?i < ?r"
    using assms(2) that True
    by (simp add: brk_checked_def word_le_nat_alt unat_sub_le word_less_nat_alt)
  with le show ?thesis
    by (auto simp: post_brk_def Let_def budget_ok_def)
qed (simp add: budget_ok_def)

lemma budget_ok_post:
  assumes "budget_ok cfg s"
    and "n = SYS_brk \<Longrightarrow> brk_checked cfg s (get_param s 0) \<or> (\<exists>i. res = Some i \<and> res_value i = 0)"
  shows "budget_ok cfg (event_post_syscall api cfg n res s)"
proof (cases res)
  case (Some info)
  have brk: "n = SYS_brk \<Longrightarrow> budget_ok cfg (post_brk info s)"
    using assms Some by (intro budget_ok_post_brk) auto
  have fds: "budget_ok cfg (post_open api cfg n r s)" "budget_ok cfg (post_dup api cfg r s)" for r
    using assms(1) by (simp_all add: budget_ok_def)
  show ?thesis
    using Some brk
    by (auto simp: event_post_syscall_def post_mmap_def post_munmap_def post_mremap_def fds assms(1)
        alloc_budget_add_ok alloc_budget_sub_ok)
qed (use assms in \<open>simp add: event_post_syscall_def\<close>)

section \<open>Properties\<close>

text \<open>
  A syscall that failed leaves no trace. Without a result, and for a failed result of anything but
  \<open>brk\<close>, the event changes nothing: no descriptor is recorded or copied and no memory is charged or
  released.
\<close>
lemma failed_syscall_leaves_no_trace:
  "event_post_syscall api cfg n None s = s"
  "\<not> succeeded info \<Longrightarrow> n \<noteq> SYS_brk \<Longrightarrow> event_post_syscall api cfg n (Some info) s = s"
  by (simp_all add: event_post_syscall_def post_mmap_def post_munmap_def post_mremap_def)

end
