(* ===== verification/Machine.thy ===== *)
theory Machine
  imports Post_Syscall
begin

text \<open>
  The client under the runtime: threads enter syscalls, the kernel answers, the runtime raises the
  events. The globals of the client are shared, the parameters belong to the thread, so the state is
  the client with the calls in flight. A refused call is skipped; the model leaves open whether the
  runtime raises the post-syscall event for it, and what holds is proved for both.

  \<open>step\<close> takes the set of threads that run. One step is one whole event: the calls of several threads
  are in flight at the same time and their events come in any order, but two events do not overlap.
  That is every run of a program with one thread. With several threads it is an assumption: DynamoRIO
  runs the callbacks of different threads concurrently, and the code takes its mutex only around the
  updates of the allocation budget (634--639, 646--651) and the process counter (1786--1788,
  1803--1805), so the output counters, the shadow table and the notes for the post-syscall event are
  read and written without a lock. What overlapping events do to the output counters is the subject of
  \<open>Output_Race\<close>.

  For serialised events of any number of threads the invariant of the client holds in every reachable
  state; the allocation budget is kept by single-threaded runs, and a run of two threads that breaks it
  is constructed, with events that do not even overlap.
\<close>

section \<open>Calls in flight\<close>

text \<open>What a thread brings to a syscall: its parameters, the memory and the clock.\<close>

record call =
  call_nr :: int
  call_params :: "nat \<Rightarrow> reg_t"
  call_mem :: mem
  call_clock :: uint64

definition enter :: "call \<Rightarrow> sandbox \<Rightarrow> sandbox" where
  "enter c s = s\<lparr>sys_params := call_params c, sys_result := None, app_mem := call_mem c,
     clock_ms := call_clock c\<rparr>"

text \<open>A call that is in the kernel, or has been refused with a result.\<close>

record flight =
  fl_nr :: int
  fl_params :: "nat \<Rightarrow> reg_t"
  fl_forced :: "dr_syscall_result_info_t option"

definition launch :: "int \<Rightarrow> sandbox \<Rightarrow> flight" where
  "launch n s = \<lparr>fl_nr = n, fl_params = sys_params s, fl_forced = sys_result s\<rparr>"

type_synonym machine = "sandbox \<times> (nat \<rightharpoonup> flight)"

inductive step :: "dr_api \<Rightarrow> config \<Rightarrow> nat set \<Rightarrow> machine \<Rightarrow> machine \<Rightarrow> bool"
  for api cfg T where
  pre: "t \<in> T \<Longrightarrow> fs t = None \<Longrightarrow> event_pre_syscall api cfg (call_nr c) (enter c s) = (ok, s1) \<Longrightarrow>
    step api cfg T (s, fs) (s1, fs(t \<mapsto> launch (call_nr c) s1))"
| post: "t \<in> T \<Longrightarrow> fs t = Some f \<Longrightarrow> fl_forced f = None \<or> res = fl_forced f \<Longrightarrow>
    step api cfg T (s, fs) (event_post_syscall api cfg (fl_nr f) res (s\<lparr>sys_params := fl_params f\<rparr>), fs(t := None))"
| skip: "t \<in> T \<Longrightarrow> fs t = Some f \<Longrightarrow> fl_forced f \<noteq> None \<Longrightarrow> step api cfg T (s, fs) (s, fs(t := None))"

inductive_cases stepE: "step api cfg T (s, fs) m"

definition initial_machine :: machine where
  "initial_machine = (initial_sandbox, Map.empty)"

section \<open>Invariants of transition systems\<close>

locale transition_invariant =
  fixes trans :: "'s \<Rightarrow> 's \<Rightarrow> bool" and inv :: "'s \<Rightarrow> bool"
  assumes inv_trans: "inv x \<Longrightarrow> trans x y \<Longrightarrow> inv y"
begin

lemma inv_star: "trans\<^sup>*\<^sup>* x y \<Longrightarrow> inv x \<Longrightarrow> inv y"
  by (induction rule: rtranclp_induct) (auto intro: inv_trans)

end

section \<open>Serialised events keep the invariant of the client\<close>

definition machine_ok :: "config \<Rightarrow> machine \<Rightarrow> bool" where
  "machine_ok cfg m = client_ok cfg (fst m)"

lemma client_ok_enter [simp]: "client_ok cfg (enter c s) = client_ok cfg s"
  by (rule client_ok_cong) (simp_all add: enter_def)

lemma client_ok_params [simp]: "client_ok cfg (s\<lparr>sys_params := p\<rparr>) = client_ok cfg s"
  by (rule client_ok_cong) simp_all

lemma pre_keeps_client:
  "event_pre_syscall api cfg (call_nr c) (enter c s) = (ok, s1) \<Longrightarrow> client_ok cfg s \<Longrightarrow> client_ok cfg s1"
  using pre_guard.keeps [of cfg "enter c s" api "call_nr c"] by simp

lemma machine_ok_step: "machine_ok cfg (s, fs) \<Longrightarrow> step api cfg T (s, fs) m \<Longrightarrow> machine_ok cfg m"
  by (elim stepE) (auto simp: machine_ok_def client_ok_post dest: pre_keeps_client)

interpretation client_inv: transition_invariant "step api cfg T" "machine_ok cfg" for api cfg T
  by unfold_locales (metis machine_ok_step surj_pair)

section \<open>A single thread keeps the budget\<close>

definition budget_machine_ok :: "config \<Rightarrow> nat \<Rightarrow> machine \<Rightarrow> bool" where
  "budget_machine_ok cfg t m =
     (budget_ok cfg (fst m) \<and> (\<forall>u. u \<noteq> t \<longrightarrow> snd m u = None) \<and>
      (case snd m t of None \<Rightarrow> True
       | Some f \<Rightarrow> (case fl_forced f of None \<Rightarrow> fl_nr f = SYS_brk \<longrightarrow>
      brk_checked cfg (fst m) (fl_params f 0)
                    | Some i \<Rightarrow> res_value i = 0)))"

lemma accounting_eq:
  "mem_accounting s' = mem_accounting s \<Longrightarrow> g_alloc_bytes s' = g_alloc_bytes s \<and> g_initial_brk s' = g_initial_brk s"
  by (simp add: mem_accounting_def)

lemma enter_fields [simp]:
  "get_param (enter c s) = call_params c" "sys_result (enter c s) = None"
  "mem_accounting (enter c s) = mem_accounting s" "g_fd_shadow (enter c s) = g_fd_shadow s"
  by (simp_all add: enter_def get_param_def mem_accounting_def fun_eq_iff)

lemma pre_brk_event: "event_pre_syscall api cfg SYS_brk s = pre_brk api cfg SYS_brk (pre_reset SYS_brk s)"
  by (simp add: event_pre_syscall_def check_cpuish_budget_def cpuish_sysnums_def pre_dispatch_def
      always_allowed_def path_ops_def pre_controls_def)

lemma brk_checked_pre:
  assumes "event_pre_syscall api cfg SYS_brk s = (True, s1)"
  shows "brk_checked cfg s1 (get_param s1 0)"
proof -
  have "pre_brk api cfg SYS_brk (pre_reset SYS_brk s) = (True, s1)" using assms by (simp add: pre_brk_event)
  then have s1: "s1 = pre_reset SYS_brk s"
    and c: "get_param s1 0 = 0 \<or> \<not> (alloc_budget_enabled cfg \<and> g_initial_brk s1 \<noteq> 0 \<and>
      get_param s1 0 > g_initial_brk s1 \<and> get_param s1 0 - g_initial_brk s1 > g_max_alloc_bytes cfg)"
    by (auto simp: pre_brk_def Let_def deny_def split: if_splits)
  show ?thesis
  proof (cases "g_initial_brk s1 < get_param s1 0")
    case True
    with c show ?thesis
      by (auto simp: brk_checked_def not_less word_le_nat_alt word_less_nat_alt unat_sub_le)
  next
    case False
    then show ?thesis by (simp add: brk_checked_def not_less word_le_nat_alt)
  qed
qed

lemma budget_machine_pre:
  assumes "budget_machine_ok cfg t (s, fs)" and "fs t = None"
    and "event_pre_syscall api cfg (call_nr c) (enter c s) = (ok, s1)"
  shows "budget_machine_ok cfg t (s1, fs(t \<mapsto> launch (call_nr c) s1))"
proof -
  have "mem_accounting s1 = mem_accounting s"
    using pre_guard.accounting [of api cfg "call_nr c" "enter c s"] assms(3) by simp
  then have "budget_ok cfg s1" using assms(1) accounting_eq [of s1 s] by (simp add: budget_machine_ok_def budget_ok_def)
  moreover have "case sys_result s1 of None \<Rightarrow> call_nr c = SYS_brk \<longrightarrow>
      brk_checked cfg s1 (sys_params s1 0)
      | Some i \<Rightarrow> res_value i = 0"
  proof (cases ok)
    case True
    then have "sys_result s1 = None"
      using pre_guard.allowed [of api cfg "call_nr c" "enter c s"] assms(3) by simp
    moreover have "call_nr c = SYS_brk \<Longrightarrow> brk_checked cfg s1 (sys_params s1 0)"
      using brk_checked_pre [of api cfg "enter c s" s1] assms(3) True by (simp add: get_param_def)
    ultimately show ?thesis by simp
  next
    case False
    then show ?thesis
      using pre_guard.refused [of api cfg "call_nr c" "enter c s"] assms(3) by auto
  qed
  ultimately show ?thesis
    using assms(1) by (simp add: budget_machine_ok_def launch_def split: option.splits)
qed

lemma budget_machine_post:
  assumes "budget_machine_ok cfg t (s, fs)" and "fs t = Some f" and "fl_forced f = None \<or> res = fl_forced f"
  shows "budget_machine_ok cfg t
    (event_post_syscall api cfg (fl_nr f) res (s\<lparr>sys_params := fl_params f\<rparr>), fs(t := None))"
proof -
  let ?s = "s\<lparr>sys_params := fl_params f\<rparr>"
  have "budget_ok cfg (event_post_syscall api cfg (fl_nr f) res ?s)"
  proof (rule budget_ok_post)
    show "budget_ok cfg ?s" using assms(1) by (simp add: budget_machine_ok_def budget_ok_def)
    show "brk_checked cfg ?s (get_param ?s 0) \<or> (\<exists>i. res = Some i \<and> res_value i = 0)" if "fl_nr f = SYS_brk"
      using assms that
      by (auto simp: budget_machine_ok_def get_param_def brk_checked_def split: option.splits)
  qed
  then show ?thesis using assms(1) by (simp add: budget_machine_ok_def)
qed

lemma budget_machine_skip:
  "budget_machine_ok cfg t (s, fs) \<Longrightarrow> budget_machine_ok cfg t (s, fs(t := None))"
  by (simp add: budget_machine_ok_def)

lemma budget_machine_step:
  "budget_machine_ok cfg t (s, fs) \<Longrightarrow> step api cfg {t} (s, fs) m \<Longrightarrow> budget_machine_ok cfg t m"
  by (elim stepE)
     (blast intro: budget_machine_pre budget_machine_post budget_machine_skip dest: singletonD)+

interpretation budget_inv: transition_invariant "step api cfg {t}" "budget_machine_ok cfg t" for api cfg t
  by unfold_locales (metis budget_machine_step surj_pair)

section \<open>Runs of \<open>brk\<close>\<close>

text \<open>The call and the flight of \<open>brk(r)\<close>.\<close>

definition brk_call :: "reg_t \<Rightarrow> call" where
  "brk_call r = \<lparr>call_nr = SYS_brk, call_params = (\<lambda>_. r), call_mem = (\<lambda>_. None), call_clock = 0\<rparr>"

definition brk_flight :: "reg_t \<Rightarrow> flight" where
  "brk_flight r = \<lparr>fl_nr = SYS_brk, fl_params = (\<lambda>_. r), fl_forced = None\<rparr>"

lemma brk_enters:
  assumes "t \<in> T" and "fs t = None" and "r = 0 \<or> g_initial_brk s = 0"
  shows "step api cfg T (s, fs) (pre_reset SYS_brk (enter (brk_call r) s), fs(t \<mapsto> brk_flight r))"
proof -
  let ?s = "pre_reset SYS_brk (enter (brk_call r) s)"
  have "event_pre_syscall api cfg (call_nr (brk_call r)) (enter (brk_call r) s) = (True, ?s)"
    using assms(3) by (auto simp: brk_call_def pre_brk_event pre_brk_def pre_reset_def enter_def get_param_def)
  moreover have "launch (call_nr (brk_call r)) ?s = brk_flight r"
    by (simp add: launch_def brk_flight_def brk_call_def pre_reset_def enter_def)
  ultimately show ?thesis using step.pre [of t T fs api cfg "brk_call r" s True ?s] assms(1,2) by simp
qed

lemma brk_leaves:
  assumes "t \<in> T" and "fs t = Some (brk_flight r)" and "\<not> g_pending_dup s"
  shows "step api cfg T (s, fs)
    (post_brk (returned v) (s\<lparr>sys_params := (\<lambda>_. r)\<rparr>), fs(t := None))"
  using step.post [of t T fs "brk_flight r" "Some (returned v)" api cfg s] assms
  by (simp add: brk_flight_def event_post_syscall_def)

section \<open>Properties\<close>

text \<open>
  C2: The invariant of the client holds in every state reachable by serialised events: the shadow table
  is well formed and written only inside its 1024 entries, noted paths fit their buffers, and no output
  counter exceeds its limit, whatever syscalls are made and whatever the kernel returns. For one thread
  these are all runs. For several threads it is assumed that their events, whose calls may be in flight
  together and in any order, do not overlap in time, which the code does not enforce: it updates these
  data without a lock, and for overlapping events the bound on the output counters fails.
\<close>
theorem reachable_client_ok:
  assumes "(step api cfg T)\<^sup>*\<^sup>* initial_machine m"
  shows "client_ok cfg (fst m)"
proof -
  have "machine_ok cfg initial_machine"
    using initial_shadow_ok by (simp add: machine_ok_def initial_machine_def client_ok_def initial_sandbox_def)
  with client_inv.inv_star [OF assms] show ?thesis by (simp add: machine_ok_def)
qed

theorem reachable_client_ok_witness:
  "client_ok (demo_budget 100) (pre_reset SYS_brk (enter (brk_call 0) initial_sandbox))"
proof -
  have "step plain_api (demo_budget 100) {0} initial_machine
      (pre_reset SYS_brk (enter (brk_call 0) initial_sandbox), Map.empty(0 \<mapsto> brk_flight 0))"
    unfolding initial_machine_def by (rule brk_enters) simp_all
  from reachable_client_ok [OF r_into_rtranclp, OF this] show ?thesis by simp
qed

text \<open>
  C1: A single-threaded program never exceeds its allocation budget. In every state that the events of
  one thread can reach, the bytes accounted by \<open>mmap\<close>, \<open>mremap\<close> and \<open>brk\<close> are at most
  \<open>DR_MAX_ALLOC_BYTES\<close>.
\<close>
theorem single_thread_budget:
  assumes "(step api cfg {t})\<^sup>*\<^sup>* initial_machine m" and "alloc_budget_enabled cfg"
  shows "g_alloc_bytes (fst m) \<le> g_max_alloc_bytes cfg"
proof -
  have "budget_machine_ok cfg t initial_machine"
    by (simp add: budget_machine_ok_def initial_machine_def budget_ok_def initial_sandbox_def)
  with budget_inv.inv_star [OF assms(1)] assms(2) show ?thesis
    by (simp add: budget_machine_ok_def budget_ok_def)
qed

theorem single_thread_budget_witness:
  "g_alloc_bytes (pre_reset SYS_brk (enter (brk_call 0) initial_sandbox)) \<le> 100"
proof -
  have "step plain_api (demo_budget 100) {0} initial_machine
      (pre_reset SYS_brk (enter (brk_call 0) initial_sandbox), Map.empty(0 \<mapsto> brk_flight 0))"
    unfolding initial_machine_def by (rule brk_enters) simp_all
  moreover have "alloc_budget_enabled (demo_budget 100)" "g_max_alloc_bytes (demo_budget 100) = 100"
    by (simp_all add: alloc_budget_enabled_def demo_budget_def)
  ultimately show ?thesis using single_thread_budget [OF r_into_rtranclp] by fastforce
qed

text \<open>
  C36: Two threads can break the budget. A \<open>brk\<close> that enters before the initial break is known is not
  checked; when another thread's \<open>brk(0)\<close> sets the initial break before the first one returns, the
  heap it grew is accounted although it exceeds the limit (200 bytes with a limit of 100), and since
  the room is computed by an unsigned subtraction, requests of \<open>2 ^ 63\<close> bytes then pass the room test.
\<close>
theorem two_threads_break_budget:
  "\<exists>m. (step api (demo_budget 100) {0, 1})\<^sup>*\<^sup>* initial_machine m \<and>
     g_alloc_bytes (fst m) = 200 \<and> alloc_budget_has_room (demo_budget 100) (2 ^ 63) (fst m)"
proof -
  let ?S = "step api (demo_budget 100) {0, 1}"
  define a where "a = pre_reset SYS_brk (enter (brk_call 4296) initial_sandbox)"
  define b where "b = pre_reset SYS_brk (enter (brk_call 0) a)"
  define c where "c = post_brk (returned 4096) (b\<lparr>sys_params := (\<lambda>_. 0)\<rparr>)"
  define d where "d = post_brk (returned 4296) (c\<lparr>sys_params := (\<lambda>_. 4296)\<rparr>)"
  note defs = a_def b_def c_def d_def pre_reset_def enter_def post_brk_def returned_def get_param_def
    initial_sandbox_def
  have "?S (initial_sandbox, Map.empty) (a, Map.empty(0 \<mapsto> brk_flight 4296))"
    unfolding a_def by (rule brk_enters) (simp_all add: initial_sandbox_def)
  also have "?S\<^sup>*\<^sup>* (a, Map.empty(0 \<mapsto> brk_flight 4296)) (b, Map.empty(0 \<mapsto> brk_flight 4296, 1 \<mapsto> brk_flight 0))"
    unfolding b_def by (rule r_into_rtranclp, rule brk_enters) simp_all
  also have "?S (b, Map.empty(0 \<mapsto> brk_flight 4296, 1 \<mapsto> brk_flight 0))
      (c, (Map.empty(0 \<mapsto> brk_flight 4296, 1 \<mapsto> brk_flight 0))(1 := None))"
    unfolding c_def by (rule brk_leaves) (simp_all add: defs)
  also have "?S (c, (Map.empty(0 \<mapsto> brk_flight 4296, 1 \<mapsto> brk_flight 0))(1 := None))
      (d, (Map.empty(0 \<mapsto> brk_flight 4296, 1 \<mapsto> brk_flight 0))(1 := None, 0 := None))"
    unfolding d_def by (rule brk_leaves) (simp_all add: defs)
  finally have "?S\<^sup>*\<^sup>* initial_machine (d, (Map.empty(0 \<mapsto> brk_flight 4296, 1 \<mapsto> brk_flight 0))(1 := None, 0 := None))"
    by (simp add: initial_machine_def)
  moreover have "g_alloc_bytes d = 200" by (simp add: defs)
  moreover from this have "alloc_budget_has_room (demo_budget 100) (2 ^ 63) d"
    by (simp add: alloc_budget_has_room_def demo_budget_def)
  ultimately show ?thesis by force
qed

end
