(* ===== verification/Client_Main.thy ===== *)
theory Client_Main
  imports Env_Config Machine
begin

text \<open>
  Client initialisation: \<open>dr_client_main\<close> reads the environment into the configuration, builds the
  session root and creates the private directories. The environment is a function from names to values,
  the process id, the two clock readings and whether \<open>DR_AUDIT_PATH\<close> could be opened are arguments.
  The registration of the events, the mutex and the choice of the log handles are effects on the
  runtime only.
\<close>

section \<open>Definitions\<close>

definition client_session_id :: "dr_api \<Rightarrow> (string \<Rightarrow> string option) \<Rightarrow> 32 word \<Rightarrow> uint64 \<Rightarrow> string" where
  "client_session_id api getenv pid ts =
     (case getenv ''DR_SESSION_ID'' of
        Some sid \<Rightarrow> if sid \<noteq> [] then take 63 sid
                    else snd (dr_snprintf api 64 (show_nat (unat pid) @ ''-'' @ show_nat (unat ts)))
      | None \<Rightarrow> snd (dr_snprintf api 64 (show_nat (unat pid) @ ''-'' @ show_nat (unat ts))))"

definition client_mode :: "(string \<Rightarrow> string option) \<Rightarrow> sandbox_mode_t" where
  "client_mode getenv =
     (case getenv ''DR_SANDBOX_MODE'' of
        Some m \<Rightarrow> if m = ''strict'' \<or> m = ''enforce'' then MODE_STRICT else MODE_OBSERVE
      | None \<Rightarrow> MODE_OBSERVE)"

definition client_audit_jsonl :: "(string \<Rightarrow> string option) \<Rightarrow> bool \<Rightarrow> bool" where
  "client_audit_jsonl getenv audit_opened =
     (env_is_true (getenv ''DR_SEMANTIC_AUDIT'') \<or>
      (case getenv ''DR_AUDIT_JSONL'' of None \<Rightarrow> False
       | Some v \<Rightarrow> v \<noteq> [] \<and> v \<noteq> ''0'' \<and> v \<noteq> ''false'' \<and> v \<noteq> ''no'') \<or>
      (case getenv ''DR_AUDIT_PATH'' of None \<Rightarrow> False | Some p \<Rightarrow> p \<noteq> [] \<and> audit_opened))"

definition client_config ::
  "dr_api \<Rightarrow> (string \<Rightarrow> string option) \<Rightarrow> 32 word \<Rightarrow> uint64 \<Rightarrow> uint64 \<Rightarrow> bool \<Rightarrow> config" where
  "client_config api getenv pid ts start audit_opened =
     (let sid = client_session_id api getenv pid ts;
          mode = client_mode getenv;
          strict = (mode = MODE_STRICT)
      in \<lparr>g_session_id = sid,
          g_sandbox_root = snd (dr_snprintf api 256 (SANDBOX_BASE @ sid @ ''/'')),
          g_mode = mode,
          g_redirect_tmp = (\<not> env_is_false (getenv ''DR_REDIRECT_TMP'')),
          g_audit_jsonl = client_audit_jsonl getenv audit_opened,
          g_semantic_audit = env_is_true (getenv ''DR_SEMANTIC_AUDIT''),
          g_max_read_bytes = parse_size_env (getenv ''DR_MAX_READ_BYTES'') MAX_READ_BYTES,
          g_max_alloc_bytes = parse_size_env (getenv ''DR_MAX_ALLOC_BYTES'') 0,
          g_max_procs = parse_int_env (getenv ''DR_MAX_PROCS'') MAX_PROCS,
          g_block_network = env_policy_blocks (getenv ''DR_NETWORK'') strict,
          g_block_exec = env_policy_blocks (getenv ''DR_EXEC'') strict,
          g_block_prot_exec = env_policy_blocks (getenv ''DR_PROT_EXEC'') strict,
          g_stdio_only_writes = env_policy_blocks (getenv ''DR_FILE_WRITE'') strict,
          g_max_stdout_bytes = parse_size_env (getenv ''DR_MAX_STDOUT_BYTES'') 0,
          g_max_stderr_bytes = parse_size_env (getenv ''DR_MAX_STDERR_BYTES'') 0,
          g_output_truncate = (getenv ''DR_OUTPUT_LIMIT_ACTION'' = Some ''truncate''),
          g_start_ms = start,
          g_max_cpu_ms = parse_uint64_env (getenv ''DR_MAX_CPU_MS'') 0,
          g_path_rules = parse_path_policy_rules (getenv ''DR_PATH_POLICY''),
          g_fd_write_rules = parse_fd_write_policy_rules (getenv ''DR_FD_WRITE_POLICY''),
          g_network_rules = parse_network_policy_rules (getenv ''DR_NETWORK_POLICY'')\<rparr>)"

definition dr_client_main ::
  "dr_api \<Rightarrow> (string \<Rightarrow> string option) \<Rightarrow> 32 word \<Rightarrow> uint64 \<Rightarrow> uint64 \<Rightarrow> bool \<Rightarrow> config \<times> sandbox" where
  "dr_client_main api getenv pid ts start audit_opened =
     (let cfg = client_config api getenv pid ts start audit_opened
      in (cfg, ensure_private_dirs api cfg initial_sandbox))"

text \<open>An environment with the given variables.\<close>

definition env_of :: "(string \<times> string) list \<Rightarrow> string \<Rightarrow> string option" where
  "env_of vars = map_of vars"

section \<open>Facts\<close>

lemma length_show_nat: "0 < k \<Longrightarrow> n < 10 ^ k \<Longrightarrow> length (show_nat n) \<le> k"
proof (induction k arbitrary: n)
  case (Suc k)
  show ?case
  proof (cases "n < 10")
    case True
    then show ?thesis by (simp add: show_nat.simps [of n])
  next
    case False
    with Suc.prems have "0 < k" by (cases k) auto
    moreover have "n div 10 < 10 ^ k" using Suc.prems by (simp add: less_mult_imp_div_less mult.commute)
    ultimately show ?thesis using Suc.IH [of "n div 10"] False by (simp add: show_nat.simps [of n])
  qed
qed simp

lemma generated_id_length:
  fixes pid :: "32 word" and ts :: uint64
  shows "length (show_nat (unat pid) @ ''-'' @ show_nat (unat ts)) \<le> 31"
proof -
  have "unat pid < 2 ^ 32" "unat ts < 2 ^ 64" using unsigned_less [of pid] unsigned_less [of ts] by simp_all
  then have "unat pid < 10 ^ 10" "unat ts < 10 ^ 20" by simp_all
  then show ?thesis
    using length_show_nat [of 10 "unat pid"] length_show_nat [of 20 "unat ts"] by simp
qed

lemma client_session_id_length:
  assumes "snprintf_ok api"
  shows "length (client_session_id api getenv pid ts) \<le> 63"
proof -
  have "dr_snprintf api 64 (show_nat (unat pid) @ ''-'' @ show_nat (unat ts)) =
      (int (length (show_nat (unat pid) @ ''-'' @ show_nat (unat ts))), show_nat (unat pid) @ ''-'' @ show_nat (unat ts))"
    using generated_id_length [of pid ts] by (intro snprintf_fits [OF assms]) simp
  then show ?thesis
    using generated_id_length [of pid ts] by (simp add: client_session_id_def split: option.splits)
qed

lemma client_root:
  assumes "snprintf_ok api"
  shows "g_sandbox_root (client_config api getenv pid ts start ao) =
         session_root (client_session_id api getenv pid ts)"
proof -
  let ?sid = "client_session_id api getenv pid ts"
  have "length (SANDBOX_BASE @ ?sid @ ''/'') < 256"
    using client_session_id_length [OF assms, of getenv pid ts] by (simp add: SANDBOX_BASE_def)
  from snprintf_fits [OF assms this] show ?thesis
    by (simp add: client_config_def Let_def session_root_def)
qed

lemma parse_network_rules_bound: "length (parse_network_policy_rules spec) \<le> 32"
proof -
  have "length (parse_network_loop p []) \<le> 32" for p
    by (rule parse_network_loop_invariant) simp_all
  then show ?thesis by (simp add: parse_network_policy_rules_def split: option.splits)
qed

lemma parse_path_rules_bound:
  "length (parse_path_policy_rules spec) \<le> 32" "length (parse_fd_write_policy_rules spec) \<le> 32"
  using parse_rules_loop_bound
  by (simp_all add: parse_path_policy_rules_def parse_fd_write_policy_rules_def split: option.splits)

section \<open>Properties\<close>

lemma client_main_wellformed_facts:
  assumes "snprintf_ok api" and "dr_client_main api getenv pid ts start ao = (cfg, s)"
  shows "length (g_session_id cfg) \<le> 63" and "g_sandbox_root cfg = session_root (g_session_id cfg)"
    and "1 \<le> g_max_procs cfg \<and> g_max_procs cfg \<le> 100000" and "0 < g_max_read_bytes cfg"
    and "length (g_path_rules cfg) \<le> 32 \<and> length (g_fd_write_rules cfg) \<le> 32 \<and> length (g_network_rules cfg) \<le> 32"
    and "client_ok cfg s \<and> budget_ok cfg s"
    and "made_dirs s = [SANDBOX_BASE, g_sandbox_root cfg, g_sandbox_root cfg @ ''tmp'',
           g_sandbox_root cfg @ ''var'', g_sandbox_root cfg @ ''var/tmp'']"
proof -
  from assms(2) have cfg: "cfg = client_config api getenv pid ts start ao"
    and s: "s = ensure_private_dirs api cfg initial_sandbox"
    by (auto simp: dr_client_main_def Let_def)
  have sid: "g_session_id cfg = client_session_id api getenv pid ts" by (simp add: cfg client_config_def Let_def)
  show len: "length (g_session_id cfg) \<le> 63" using client_session_id_length [OF assms(1)] by (simp add: sid)
  show root: "g_sandbox_root cfg = session_root (g_session_id cfg)"
    using client_root [OF assms(1)] by (simp add: cfg client_config_def Let_def)
  show "1 \<le> g_max_procs cfg \<and> g_max_procs cfg \<le> 100000"
    using parse_int_env_range [of MAX_PROCS] by (simp add: cfg client_config_def Let_def)
  show "0 < g_max_read_bytes cfg"
    using parse_size_env_pos [of MAX_READ_BYTES] by (simp add: cfg client_config_def Let_def)
  show "length (g_path_rules cfg) \<le> 32 \<and> length (g_fd_write_rules cfg) \<le> 32 \<and> length (g_network_rules cfg) \<le> 32"
    using parse_path_rules_bound parse_network_rules_bound by (simp add: cfg client_config_def Let_def)
  show "client_ok cfg s \<and> budget_ok cfg s"
    using initial_shadow_ok
    by (simp add: s ensure_private_dirs_def client_ok_def budget_ok_def initial_sandbox_def shadow_ok_def)
  have "snd (dr_snprintf api 256 (g_sandbox_root cfg @ x)) = g_sandbox_root cfg @ x" if "length x \<le> 7" for x
  proof -
    have "length (g_sandbox_root cfg @ x) < 256" using len that by (simp add: root session_root_def SANDBOX_BASE_def)
    from snprintf_fits [OF assms(1) this] show ?thesis by simp
  qed
  then show "made_dirs s = [SANDBOX_BASE, g_sandbox_root cfg, g_sandbox_root cfg @ ''tmp'',
      g_sandbox_root cfg @ ''var'', g_sandbox_root cfg @ ''var/tmp'']"
    by (simp add: s ensure_private_dirs_def initial_sandbox_def)
qed

text \<open>
  C25: Initialisation yields a well-formed client for every environment. The session id fits its 64-byte
  array, the session root is \<open>/tmp/dr-sandbox/<id>/\<close> untruncated, the process limit is between 1 and
  100000, the read cap is positive, each rule table has at most its 32 entries, the state satisfies
  the invariants the events rely on, and the directories created are the base, the session root and
  its \<open>tmp\<close>, \<open>var\<close> and \<open>var/tmp\<close>.
\<close>
theorem client_main_wellformed:
  assumes "snprintf_ok api" and "dr_client_main api getenv pid ts start ao = (cfg, s)"
  shows "length (g_session_id cfg) \<le> 63 \<and>
    g_sandbox_root cfg = session_root (g_session_id cfg) \<and>
    (1 \<le> g_max_procs cfg \<and> g_max_procs cfg \<le> 100000) \<and>
    0 < g_max_read_bytes cfg \<and>
    (length (g_path_rules cfg) \<le> 32 \<and> length (g_fd_write_rules cfg) \<le> 32 \<and> length (g_network_rules cfg) \<le> 32) \<and>
    (client_ok cfg s \<and> budget_ok cfg s) \<and>
    made_dirs s = [SANDBOX_BASE, g_sandbox_root cfg, g_sandbox_root cfg @ ''tmp'',
           g_sandbox_root cfg @ ''var'', g_sandbox_root cfg @ ''var/tmp'']"
  using client_main_wellformed_facts [OF assms] by blast

theorem client_main_wellformed_witness:
  "g_sandbox_root (fst (dr_client_main plain_api (env_of [(''DR_SESSION_ID'', ''s1'')]) 7 1 2 False)) =
     ''/tmp/dr-sandbox/s1/''"
proof -
  define e where "e = env_of [(''DR_SESSION_ID'', ''s1'')]"
  have "e ''DR_SESSION_ID'' = Some ''s1''" by (simp add: e_def env_of_def)
  then have "g_session_id (fst (dr_client_main plain_api e 7 1 2 False)) = ''s1''"
    by (simp add: dr_client_main_def Let_def client_config_def client_session_id_def)
  then show ?thesis
    using client_main_wellformed [OF plain_api_ok(1) prod.collapse [symmetric], of e 7 1 2 False]
    by (simp add: session_root_def SANDBOX_BASE_def e_def)
qed

text \<open>
  The mode sets the defaults of the four switches and each can be overridden on its own. The words
  \<open>strict\<close> and \<open>enforce\<close> select strict mode and everything else observe mode; a switch whose variable
  is unset or empty blocks exactly in strict mode, and one set to a word for false allows in either
  mode, so strict mode does not by itself imply that exec or the network are blocked.
\<close>
lemma mode_defaults:
  assumes "cfg = client_config api getenv pid ts start ao"
  shows "g_mode cfg = MODE_STRICT \<longleftrightarrow> getenv ''DR_SANDBOX_MODE'' \<in> {Some ''strict'', Some ''enforce''}"
    and "getenv ''DR_EXEC'' \<in> {None, Some []} \<Longrightarrow> g_block_exec cfg \<longleftrightarrow> g_mode cfg = MODE_STRICT"
    and "getenv ''DR_NETWORK'' \<in> {None, Some []} \<Longrightarrow> g_block_network cfg \<longleftrightarrow> g_mode cfg = MODE_STRICT"
    and "getenv ''DR_PROT_EXEC'' \<in> {None, Some []} \<Longrightarrow> g_block_prot_exec cfg \<longleftrightarrow> g_mode cfg = MODE_STRICT"
    and "getenv ''DR_FILE_WRITE'' \<in> {None, Some []} \<Longrightarrow> g_stdio_only_writes cfg \<longleftrightarrow> g_mode cfg = MODE_STRICT"
    and "getenv ''DR_EXEC'' = Some ''allow'' \<Longrightarrow> \<not> g_block_exec cfg"
proof -
  show "g_mode cfg = MODE_STRICT \<longleftrightarrow> getenv ''DR_SANDBOX_MODE'' \<in> {Some ''strict'', Some ''enforce''}"
    by (auto simp: assms client_config_def Let_def client_mode_def split: option.splits if_splits)
qed (auto simp: assms client_config_def Let_def env_policy_blocks_cases env_is_false_def)

text \<open>
  The session id is used as it comes. Components \<open>..\<close> in \<open>DR_SESSION_ID\<close> are not rejected: with
  \<open>../..\<close> the session root resolves to the root directory, so private files are written to the real
  tree.
\<close>
lemma session_id_not_sanitised:
  assumes "snprintf_ok api" and "getenv ''DR_SESSION_ID'' = Some ''../..''"
  shows "g_sandbox_root (client_config api getenv pid ts start ao) = ''/tmp/dr-sandbox/../../'' \<and>
    lexical_resolve (components (g_sandbox_root (client_config api getenv pid ts start ao))) = []"
proof -
  have "g_sandbox_root (client_config api getenv pid ts start ao) = ''/tmp/dr-sandbox/../../''"
    using client_root [OF assms(1)] assms(2) by (simp add: client_session_id_def session_root_def SANDBOX_BASE_def)
  moreover have "lexical_resolve (components ''/tmp/dr-sandbox/../../'') = []" by code_simp
  ultimately show ?thesis by simp
qed

end
