(* ===== verification/Event_Flow.thy ===== *)
theory Event_Flow
  imports Machine
begin

text \<open>
  Facts that follow one syscall through its two events: what the pre-syscall event notes about an open,
  a duplication or a mapping, and what the post-syscall event makes of it.
\<close>

section \<open>Opens\<close>

definition noted :: "sandbox \<Rightarrow> bool \<times> bool \<times> string" where
  "noted s = (g_pending_open s, g_pending_open_block_write s, g_pending_open_path s)"

lemma noted_frame [frame_simps, simp]:
  "noted (audit_path_event api cfg act n l p r s) = noted s"
  "noted (audit_semantic_event api cfg nm act n fd p pe s) = noted s"
  "noted (ensure_parent_dirs cfg p s) = noted s"
  "noted (snd (pass_remapped api i a orig r s)) = noted s"
  by (simp_all add: noted_def audit_events_frame ensure_parent_dirs_def pass_remapped_def deny_def
      set_errno_result_def set_param_def split: option.splits prod.splits)

lemma pre_open_notes:
  assumes "open_args n s = (a, i, flags)" and "read_app_string api (app_mem s) a 512 = Some orig"
    and "pre_open api cfg n s = (True, s1)"
  shows "noted s1 = noted (note_pending_open cfg orig s)"
proof -
  have "snd (pre_open api cfg n s) = s1" "fst (pre_open api cfg n s)" using assms(3) by simp_all
  with assms(1,2) show ?thesis
    by (auto simp: pre_open_def Let_def deny_def split: if_splits option.splits)
qed

lemma noted_plain_open:
  "proc_self_fd_target orig = None \<Longrightarrow>
    noted (note_pending_open cfg orig s) = (True, fd_write_policy_for cfg orig = PATH_POLICY_BLOCK, take 511 orig)"
  by (simp add: note_pending_open_def noted_def)

lemma pre_open_event:
  assumes "n \<in> {SYS_open, SYS_openat, SYS_creat}" and "event_pre_syscall api cfg n s = (True, s1)"
  shows "pre_open api cfg n (pre_reset n s) = (True, s1)"
proof -
  let ?r = "check_cpuish_budget api cfg n (pre_reset n s)"
  have ok: "fst ?r" using assms(2) by (auto simp: event_pre_syscall_def split_beta Let_def split: if_splits)
  then have "snd ?r = pre_reset n s" by (rule cpuish_result)
  with ok assms show ?thesis
    by (auto simp: event_pre_syscall_def split_beta Let_def pre_dispatch_def always_allowed_def)
qed

lemma post_open_records:
  assumes "n \<in> {SYS_open, SYS_openat, SYS_creat}" and "noted s = (True, b, path)" and "fd_in_range (int_of_reg v)"
  shows "fd_shadow_get (event_post_syscall api cfg n (Some (returned v)) s) (int_of_reg v) =
    Some \<lparr>in_use = True, block_write = b, shadow_path = take 511 path\<rparr>"
proof -
  have "event_post_syscall api cfg n (Some (returned v)) s = post_open api cfg n v s"
    using assms(1,2) by (auto simp: event_post_syscall_def returned_def noted_def)
  moreover have "g_fd_shadow (post_open api cfg n v s) = g_fd_shadow (fd_shadow_set (int_of_reg v) path b s)"
    using assms(2) by (simp add: post_open_def Let_def audit_events_frame noted_def)
  then have "fd_shadow_get (post_open api cfg n v s) = fd_shadow_get (fd_shadow_set (int_of_reg v) path b s)"
    by (rule fd_shadow_get_cong)
  ultimately show ?thesis using assms(3) by (simp add: get_set)
qed

section \<open>Writes\<close>

lemma get_reset [simp]: "fd_shadow_get (pre_reset n s) = fd_shadow_get s"
  by (rule fd_shadow_get_cong) (simp add: pre_reset_def)

lemma get_enter [simp]: "fd_shadow_get (enter c s) = fd_shadow_get s"
  by (rule fd_shadow_get_cong) simp

lemma pre_write_event:
  assumes "n \<in> {SYS_write, SYS_writev, SYS_pwrite64}" and "fst (event_pre_syscall api cfg n s)"
  shows "fst (pre_write api cfg n (pre_reset n s))"
proof -
  let ?r = "check_cpuish_budget api cfg n (pre_reset n s)"
  have ok: "fst ?r" using assms(2) by (auto simp: event_pre_syscall_def split_beta Let_def split: if_splits)
  then have "snd ?r = pre_reset n s" by (rule cpuish_result)
  with ok assms show ?thesis
    by (auto simp: event_pre_syscall_def split_beta Let_def pre_dispatch_def always_allowed_def path_ops_def
        pre_controls_def)
qed

lemma write_refused:
  assumes "n \<in> {SYS_write, SYS_writev, SYS_pwrite64}"
    and "fd_shadow_get s (int_of_reg (get_param s 0)) = Some sh" and "block_write sh"
  shows "\<not> fst (event_pre_syscall api cfg n s)"
  using pre_write_event [OF assms(1), of api cfg s] blocked_write_refused [of "pre_reset n s" sh api cfg n] assms
  by auto

section \<open>Duplications\<close>

text \<open>Source and destination of a duplication that returned \<open>v\<close>.\<close>

definition dup_dst :: "int \<Rightarrow> sandbox \<Rightarrow> reg_t \<Rightarrow> int" where
  "dup_dst n s v = (if n = SYS_dup2 \<or> n = SYS_dup3 then int_of_reg (get_param s 1) else int_of_reg v)"

definition is_dup :: "int \<Rightarrow> sandbox \<Rightarrow> bool" where
  "is_dup n s = (n \<in> {SYS_dup, SYS_dup2, SYS_dup3} \<or>
     (n = SYS_fcntl \<and> int_of_reg (get_param s 1) \<in> {0, 1030}))"

lemma dup_event:
  assumes "is_dup n s"
  shows "event_pre_syscall api cfg n s =
    (if n = SYS_fcntl then pre_fcntl (pre_reset n s) else pre_dup n (pre_reset n s))"
  using assms
  by (auto simp: is_dup_def event_pre_syscall_def check_cpuish_budget_def cpuish_sysnums_def pre_dispatch_def)

lemma dup_pre_state:
  assumes "is_dup n s" and "event_pre_syscall api cfg n s = (ok, s1)"
  shows "g_pending_dup s1" and "g_pending_dup_src s1 = int_of_reg (get_param s 0)"
    and "g_pending_dup_has_dst s1 \<longleftrightarrow> n = SYS_dup2 \<or> n = SYS_dup3"
    and "g_pending_dup_has_dst s1 \<Longrightarrow> g_pending_dup_dst s1 = int_of_reg (get_param s 1)"
    and "fd_shadow_get s1 = (if n = SYS_dup2 \<or> n = SYS_dup3
           then fd_shadow_get (fd_shadow_clear (int_of_reg (get_param s 1)) s) else fd_shadow_get s)"
    and "shadow_ok s \<Longrightarrow> shadow_ok s1"
proof -
  let ?c = "fd_shadow_clear (int_of_reg (get_param s 1)) s"
  have s1: "s1 = snd (if n = SYS_fcntl then pre_fcntl (pre_reset n s) else pre_dup n (pre_reset n s))"
    using assms dup_event [OF assms(1), of api cfg] by (simp split: if_splits)
  have sh: "g_fd_shadow s1 = (if n = SYS_dup2 \<or> n = SYS_dup3 then g_fd_shadow ?c else g_fd_shadow s)"
    by (cases "n = SYS_fcntl"; cases "n = SYS_dup2 \<or> n = SYS_dup3")
       (auto simp: s1 pre_fcntl_def pre_dup_def Let_def fd_shadow_clear_def pre_reset_def get_param_def)
  show "fd_shadow_get s1 = (if n = SYS_dup2 \<or> n = SYS_dup3 then fd_shadow_get ?c else fd_shadow_get s)"
    using fd_shadow_get_cong [of s1 ?c] fd_shadow_get_cong [of s1 s] sh by (simp split: if_splits)
  show "shadow_ok s \<Longrightarrow> shadow_ok s1"
    using shadow_ok_cong [of s1 ?c] shadow_ok_cong [of s1 s] sh shadow_ok_clear by (simp split: if_splits)
  show "g_pending_dup s1" and "g_pending_dup_src s1 = int_of_reg (get_param s 0)"
    and "g_pending_dup_has_dst s1 \<longleftrightarrow> n = SYS_dup2 \<or> n = SYS_dup3"
    and "g_pending_dup_has_dst s1 \<Longrightarrow> g_pending_dup_dst s1 = int_of_reg (get_param s 1)"
    using assms(1) unfolding s1
    by (auto simp: is_dup_def pre_fcntl_def pre_dup_def Let_def fd_shadow_clear_def split: if_splits)
qed

lemma dup_post:
  assumes "is_dup n s" and "event_pre_syscall api cfg n s = (ok, s1)"
  shows "event_post_syscall api cfg n (Some (returned v)) s1 =
    fd_shadow_copy api cfg (dup_dst n s v) (int_of_reg (get_param s 0)) s1"
  using assms(1) dup_pre_state(1-4) [OF assms]
  by (auto simp: is_dup_def event_post_syscall_def returned_def post_dup_def Let_def dup_dst_def)

section \<open>Mappings\<close>

lemma mmap_event:
  "event_pre_syscall api cfg SYS_mmap s = pre_mmap api cfg SYS_mmap (pre_reset SYS_mmap s)"
  by (simp add: event_pre_syscall_def check_cpuish_budget_def cpuish_sysnums_def pre_dispatch_def
      always_allowed_def path_ops_def pre_controls_def)

lemma mmap_noted:
  assumes "event_pre_syscall api cfg SYS_mmap s = (True, s1)"
  shows "s1 = (pre_reset SYS_mmap s)\<lparr>g_last_mmap_len := get_param s 1\<rparr>"
    and "alloc_budget_has_room cfg (get_param s 1) s"
  using assms
  by (auto simp: mmap_event pre_mmap_def Let_def deny_def alloc_budget_has_room_def pre_reset_def get_param_def
      split: if_splits)

section \<open>The heap\<close>

text \<open>
  Mappings and heap are not added up: with the whole budget in use by mappings, a \<open>brk\<close> that grows the
  heap by the whole budget again is let through, and the usage recorded after it has succeeded is still
  the budget, although twice as much has been handed out.
\<close>

lemma brk_not_summed:
  assumes "alloc_budget_enabled cfg" and "g_alloc_bytes s = g_max_alloc_bytes cfg" and "g_initial_brk s \<noteq> 0"
    and "get_param s 0 = g_initial_brk s + g_max_alloc_bytes cfg" and "g_initial_brk s < get_param s 0"
  shows "\<exists>s1. event_pre_syscall api cfg SYS_brk s = (True, s1) \<and>
    g_alloc_bytes (event_post_syscall api cfg SYS_brk (Some (returned (get_param s 0))) s1) =
      g_max_alloc_bytes cfg"
proof -
  have "event_pre_syscall api cfg SYS_brk s = (True, pre_reset SYS_brk s)"
    using assms by (simp add: pre_brk_event pre_brk_def Let_def pre_reset_def get_param_def)
  moreover have "g_alloc_bytes (event_post_syscall api cfg SYS_brk (Some (returned (get_param s 0)))
      (pre_reset SYS_brk s)) = g_max_alloc_bytes cfg"
    using assms by (simp add: event_post_syscall_def post_brk_def Let_def returned_def pre_reset_def get_param_def)
  ultimately show ?thesis by blast
qed

end
