(* ===== verification/Rounds.thy ===== *)
theory Rounds
  imports Event_Flow
begin

text \<open>
  Whole syscalls of one thread, one after the other: a round is a call with the kernel's answer, run
  through the pre-syscall event and, when the call was let through, the post-syscall event. A round is a
  path of the step relation of \<open>Machine\<close>. The facts here follow the shadow entry of one descriptor
  through any number of rounds: only \<open>close\<close> and the two duplications onto a chosen descriptor take an
  entry away, and only an answer of the kernel that names the descriptor replaces it.
\<close>

section \<open>Rounds\<close>

text \<open>
  The call, the kernel's result in case it is let through, and whether the runtime raises the
  post-syscall event for a refused call.
\<close>

record round =
  rd_call :: call
  rd_result :: "dr_syscall_result_info_t option"
  rd_post_refused :: bool

definition run_round :: "dr_api \<Rightarrow> config \<Rightarrow> round \<Rightarrow> sandbox \<Rightarrow> sandbox" where
  "run_round api cfg r s =
     (let n = call_nr (rd_call r);
          (ok, s1) = event_pre_syscall api cfg n (enter (rd_call r) s)
      in if ok then event_post_syscall api cfg n (rd_result r) s1
         else if rd_post_refused r then event_post_syscall api cfg n (sys_result s1) s1
         else s1)"

text \<open>
  A round that leaves descriptor \<open>fd\<close> alone: it neither closes it nor makes it the destination of
  \<open>dup2\<close> or \<open>dup3\<close>, and the kernel does not return it as a new descriptor.
\<close>

definition spares :: "int \<Rightarrow> round \<Rightarrow> bool" where
  "spares fd r =
     (let c = rd_call r; n = call_nr c in
      \<not> (n = SYS_close \<and> int_of_reg (call_params c 0) = fd) \<and>
      \<not> ((n = SYS_dup2 \<or> n = SYS_dup3) \<and> int_of_reg (call_params c 1) = fd) \<and>
      \<not> ((n \<in> {SYS_open, SYS_openat, SYS_creat, SYS_dup} \<or>
          n = SYS_fcntl \<and> int_of_reg (call_params c 1) \<in> {0, 1030}) \<and>
         (case rd_result r of None \<Rightarrow> False
          | Some i \<Rightarrow> succeeded i \<and> int_of_reg (res_value i) = fd)))"

lemma sparesD:
  assumes "spares fd r"
  shows "call_nr (rd_call r) = SYS_close \<Longrightarrow> int_of_reg (call_params (rd_call r) 0) \<noteq> fd"
    and "call_nr (rd_call r) = SYS_dup2 \<or> call_nr (rd_call r) = SYS_dup3 \<Longrightarrow>
      int_of_reg (call_params (rd_call r) 1) \<noteq> fd"
    and "call_nr (rd_call r) \<in> {SYS_open, SYS_openat, SYS_creat, SYS_dup} \<or>
      call_nr (rd_call r) = SYS_fcntl \<and> int_of_reg (call_params (rd_call r) 1) \<in> {0, 1030} \<Longrightarrow>
      rd_result r = Some i \<Longrightarrow> succeeded i \<Longrightarrow> int_of_reg (res_value i) \<noteq> fd"
  using assms unfolding spares_def Let_def by (simp_all only: option.case) blast+

section \<open>Rounds are runs of the machine\<close>

lemma run_round_steps:
  assumes "fs t = None"
  shows "(step api cfg {t})\<^sup>*\<^sup>* (s, fs) (run_round api cfg r s, fs)"
proof -
  let ?c = "rd_call r"
  let ?n = "call_nr ?c"
  obtain ok s1 where pre: "event_pre_syscall api cfg ?n (enter ?c s) = (ok, s1)" by fastforce
  let ?f = "launch ?n s1"
  have in1: "step api cfg {t} (s, fs) (s1, fs(t \<mapsto> ?f))"
    using step.pre [of t "{t}" fs api cfg ?c s ok s1] assms pre by simp
  have params: "s1\<lparr>sys_params := fl_params ?f\<rparr> = s1" by (simp add: launch_def)
  have fl: "fl_nr ?f = ?n" "fl_forced ?f = sys_result s1" by (simp_all add: launch_def)
  have home: "fs(t := None) = fs" using assms by auto
  have post: "step api cfg {t} (s1, fs(t \<mapsto> ?f)) (event_post_syscall api cfg ?n res s1, fs)"
    if "sys_result s1 = None \<or> res = sys_result s1" for res
    using step.post [of t "{t}" "fs(t \<mapsto> ?f)" ?f res api cfg s1] that by (simp add: fl params home)
  have "step api cfg {t} (s1, fs(t \<mapsto> ?f)) (run_round api cfg r s, fs)"
  proof (cases ok)
    case True
    then have "sys_result s1 = None" using pre_guard.allowed [of api cfg ?n "enter ?c s"] pre by simp
    with post [of "rd_result r"] True show ?thesis by (simp add: run_round_def pre)
  next
    case False
    then have "sys_result s1 \<noteq> None" using pre_guard.refused [of api cfg ?n "enter ?c s"] pre by auto
    then have "step api cfg {t} (s1, fs(t \<mapsto> ?f)) (s1, fs)"
      using step.skip [of t "{t}" "fs(t \<mapsto> ?f)" ?f api cfg s1] by (simp add: fl home)
    with post [of "sys_result s1"] False show ?thesis by (simp add: run_round_def pre)
  qed
  with in1 show ?thesis by (meson converse_rtranclp_into_rtranclp r_into_rtranclp)
qed

lemma run_rounds_steps:
  "fs t = None \<Longrightarrow> (step api cfg {t})\<^sup>*\<^sup>* (s, fs) (fold (run_round api cfg) rs s, fs)"
proof (induction rs arbitrary: s)
  case (Cons r rs)
  then show ?case using rtranclp_trans [OF run_round_steps [of fs t api cfg s r]] by simp
qed simp

section \<open>What the pre-syscall event does to the table\<close>

text \<open>The shadow table and the note of a duplication.\<close>

definition fd_view :: "sandbox \<Rightarrow> (int \<Rightarrow> fd_shadow_t) \<times> bool" where
  "fd_view s = (g_fd_shadow s, g_pending_dup s)"

lemma fd_view_frame [frame_simps, simp]:
  "fd_view (audit_path_event api cfg act n l p r s) = fd_view s"
  "fd_view (audit_semantic_event api cfg nm act n fd p pe s) = fd_view s"
  "fd_view (audit_syscall_event api cfg act n s) = fd_view s"
  "fd_view (ensure_parent_dirs cfg p s) = fd_view s"
  "fd_view (note_pending_open cfg p s) = fd_view s"
  "fd_view (set_errno_result e s) = fd_view s"
  "fd_view (set_param i v s) = fd_view s"
  "fd_view (s\<lparr>app_mem := m\<rparr>) = fd_view s"
  "fd_view (snd (deny e s)) = fd_view s"
  "fd_view (s\<lparr>g_last_munmap_len := a\<rparr>) = fd_view s"
  "fd_view (s\<lparr>g_last_mmap_len := a\<rparr>) = fd_view s"
  "fd_view (s\<lparr>g_last_mremap_old_len := a, g_last_mremap_new_len := b\<rparr>) = fd_view s"
  "fd_view (s\<lparr>g_proc_count := c\<rparr>) = fd_view s"
  by (simp_all add: fd_view_def audit_events_frame ensure_parent_dirs_def note_pending_open_def Let_def
      set_errno_result_def set_param_def deny_def split: option.splits)

lemma fd_view_pass [simp]: "fd_view (snd (pass_remapped api i a orig r s)) = fd_view s"
  by (simp add: pass_remapped_def split: option.splits prod.splits)

lemma fd_view_remap [simp]: "fd_view (snd (remap_private_path_param api cfg n i l e s)) = fd_view s"
  by (simp add: remap_private_path_param_def Let_def split: option.splits)

lemma fd_view_open [simp]: "fd_view (snd (pre_open api cfg n s)) = fd_view s"
  by (simp add: pre_open_def Let_def split: option.splits prod.splits)

lemma fd_view_path_ops [simp]: "fd_view (snd (run_path_ops api cfg n ops s)) = fd_view s"
proof (induction ops arbitrary: s)
  case (Cons op ops)
  obtain i l e where op: "op = (i, l, e)" by (cases op)
  show ?case
    using Cons.IH [of "snd (remap_private_path_param api cfg n i l e s)"] by (simp add: op split_beta Let_def)
qed simp

lemma fd_view_limit [simp]: "fd_view (snd (enforce_output_limit api cfg n fd k s)) = fd_view s"
  by (subst output_limit_frame) (simp add: fd_view_def)

lemma fd_view_cpuish [simp]: "fd_view (snd (check_cpuish_budget api cfg n s)) = fd_view s"
  by (subst cpuish_frame) (simp add: fd_view_def)

lemma fd_view_write [simp]: "fd_view (snd (pre_write api cfg n s)) = fd_view s"
  by (simp add: pre_write_def write_limit_def write_policy_def Let_def split_beta)

lemma fd_view_controls [simp]: "fd_view (snd (pre_controls api cfg n s)) = fd_view s"
  by (simp add: pre_controls_def pre_read_def pre_brk_def pre_munmap_def pre_mremap_def pre_mmap_def
      pre_mprotect_def pre_socket_def pre_peer_def pre_unknown_peer_def pre_exec_def count_process_def
      pre_fork_def pre_clone_def tail_fork_def strict_tail_def Let_def split_beta)

text \<open>
  The event keeps the entry of every descriptor other than the one it closes or is about to overwrite,
  and notes a duplication only for the duplicating calls.
\<close>

lemma pre_dispatch_view:
  "n \<notin> {SYS_close, SYS_dup, SYS_dup2, SYS_dup3, SYS_fcntl} \<Longrightarrow>
    fd_view (snd (pre_dispatch api cfg n s)) = fd_view s"
  by (simp add: pre_dispatch_def split: option.splits)

lemma pre_event_view:
  assumes "n \<notin> {SYS_close, SYS_dup, SYS_dup2, SYS_dup3, SYS_fcntl}"
  shows "fd_view (snd (event_pre_syscall api cfg n s)) = (g_fd_shadow s, False)"
proof -
  have "fd_view (pre_reset n s) = (g_fd_shadow s, False)" by (simp add: fd_view_def pre_reset_def)
  with pre_dispatch_view [OF assms] show ?thesis by (simp add: event_pre_syscall_def Let_def split_beta)
qed

lemma pre_event_fd:
  assumes "n \<in> {SYS_close, SYS_dup, SYS_dup2, SYS_dup3, SYS_fcntl}"
  shows "g_fd_shadow (snd (event_pre_syscall api cfg n s)) =
      (if n = SYS_close then g_fd_shadow (fd_shadow_clear (int_of_reg (get_param s 0)) s)
       else if n = SYS_dup2 \<or> n = SYS_dup3 then g_fd_shadow (fd_shadow_clear (int_of_reg (get_param s 1)) s)
       else g_fd_shadow s)"
    and "g_pending_dup (snd (event_pre_syscall api cfg n s)) \<longleftrightarrow> is_dup n s"
proof -
  have ev: "event_pre_syscall api cfg n s = pre_dispatch api cfg n (pre_reset n s)"
    using assms by (elim insertE emptyE)
      (simp_all add: event_pre_syscall_def check_cpuish_budget_def cpuish_sysnums_def)
  note defs = pre_dispatch_def pre_close_def pre_dup_def pre_fcntl_def is_dup_def Let_def
    fd_shadow_clear_def audit_events_frame pre_reset_def get_param_def
  show "g_fd_shadow (snd (event_pre_syscall api cfg n s)) =
      (if n = SYS_close then g_fd_shadow (fd_shadow_clear (int_of_reg (get_param s 0)) s)
       else if n = SYS_dup2 \<or> n = SYS_dup3 then g_fd_shadow (fd_shadow_clear (int_of_reg (get_param s 1)) s)
       else g_fd_shadow s)"
    using assms unfolding ev by (elim insertE emptyE) (simp_all add: defs)
  show "g_pending_dup (snd (event_pre_syscall api cfg n s)) \<longleftrightarrow> is_dup n s"
    using assms unfolding ev by (elim insertE emptyE) (simp_all add: defs)
qed

lemma pre_keeps_entry:
  assumes "\<not> (n = SYS_close \<and> int_of_reg (get_param s 0) = fd)"
    and "\<not> ((n = SYS_dup2 \<or> n = SYS_dup3) \<and> int_of_reg (get_param s 1) = fd)"
  shows "fd_shadow_get (snd (event_pre_syscall api cfg n s)) fd = fd_shadow_get s fd"
proof (cases "n \<in> {SYS_close, SYS_dup, SYS_dup2, SYS_dup3, SYS_fcntl}")
  case True
  let ?s1 = "snd (event_pre_syscall api cfg n s)"
  let ?t = "if n = SYS_close then fd_shadow_clear (int_of_reg (get_param s 0)) s
    else if n = SYS_dup2 \<or> n = SYS_dup3 then fd_shadow_clear (int_of_reg (get_param s 1)) s else s"
  have "g_fd_shadow ?s1 = g_fd_shadow ?t" using pre_event_fd(1) [OF True, of api cfg s] by simp
  then have "fd_shadow_get ?s1 fd = fd_shadow_get ?t fd" by (rule fun_cong [OF fd_shadow_get_cong])
  with assms show ?thesis by (auto simp: get_clear split: if_splits)
next
  case False
  then have "g_fd_shadow (snd (event_pre_syscall api cfg n s)) = g_fd_shadow s"
    using pre_event_view [of n api cfg s] by (simp add: fd_view_def)
  then show ?thesis by (rule fun_cong [OF fd_shadow_get_cong])
qed

lemma pre_notes_dup: "g_pending_dup (snd (event_pre_syscall api cfg n s)) \<Longrightarrow> is_dup n s"
  using pre_event_fd(2) [of n api cfg s] pre_event_view [of n api cfg s]
  by (cases "n \<in> {SYS_close, SYS_dup, SYS_dup2, SYS_dup3, SYS_fcntl}") (simp_all add: fd_view_def)

section \<open>What the post-syscall event does to the table\<close>

lemma get_copy_other: "fd \<noteq> d \<Longrightarrow> fd_shadow_get (fd_shadow_copy api cfg d src s) fd = fd_shadow_get s fd"
  using fd_shadow_get_cong [OF g_fd_shadow_copy, of api cfg d src s]
  by (simp add: get_clear get_set split: option.splits)

lemma get_post_open:
  "fd \<noteq> int_of_reg v \<Longrightarrow> fd_shadow_get (post_open api cfg n v s) fd = fd_shadow_get s fd"
proof -
  assume "fd \<noteq> int_of_reg v"
  moreover have "g_fd_shadow (post_open api cfg n v s) =
      g_fd_shadow (fd_shadow_set (int_of_reg v) (g_pending_open_path s) (g_pending_open_block_write s) s)"
    by (simp add: post_open_def Let_def audit_events_frame)
  then have "fd_shadow_get (post_open api cfg n v s) =
      fd_shadow_get (fd_shadow_set (int_of_reg v) (g_pending_open_path s) (g_pending_open_block_write s) s)"
    by (rule fd_shadow_get_cong)
  ultimately show ?thesis by (simp add: get_set)
qed

lemma shadow_post_memory:
  "g_fd_shadow (post_mmap cfg info s) = g_fd_shadow s"
  "g_fd_shadow (post_munmap cfg info s) = g_fd_shadow s"
  "g_fd_shadow (post_mremap cfg info s) = g_fd_shadow s"
  "g_fd_shadow (post_brk info s) = g_fd_shadow s"
  by (simp_all add: post_mmap_def post_munmap_def post_mremap_def post_brk_def Let_def alloc_budget_add_def
      alloc_budget_sub_def)

lemma post_keeps_entry:
  assumes "\<And>i. res = Some i \<Longrightarrow> succeeded i \<Longrightarrow> n \<in> {SYS_open, SYS_openat, SYS_creat} \<Longrightarrow> int_of_reg (res_value i) \<noteq> fd"
    and "\<And>i. res = Some i \<Longrightarrow> succeeded i \<Longrightarrow> g_pending_dup s \<Longrightarrow>
      (if g_pending_dup_has_dst s then g_pending_dup_dst s else int_of_reg (res_value i)) \<noteq> fd"
  shows "fd_shadow_get (event_post_syscall api cfg n res s) fd = fd_shadow_get s fd"
proof (cases res)
  case (Some i)
  consider "n \<in> {SYS_open, SYS_openat, SYS_creat}" "g_pending_open s" "succeeded i"
    | "\<not> (n \<in> {SYS_open, SYS_openat, SYS_creat} \<and> g_pending_open s \<and> succeeded i)" "g_pending_dup s" "succeeded i"
    | "\<not> (n \<in> {SYS_open, SYS_openat, SYS_creat} \<and> g_pending_open s \<and> succeeded i)" "\<not> (g_pending_dup s \<and> succeeded i)"
    by blast
  then show ?thesis
  proof cases
    case 1
    then have "event_post_syscall api cfg n res s = post_open api cfg n (res_value i) s"
      using Some by (auto simp: event_post_syscall_def)
    with assms(1) [OF Some] 1 show ?thesis by (simp add: get_post_open)
  next
    case 2
    then have "event_post_syscall api cfg n res s = post_dup api cfg (res_value i) s"
      using Some by (auto simp: event_post_syscall_def)
    with assms(2) [OF Some] 2 show ?thesis by (simp add: post_dup_def Let_def get_copy_other split: if_splits)
  next
    case 3
    then have "g_fd_shadow (event_post_syscall api cfg n res s) = g_fd_shadow s"
      using Some by (auto simp: event_post_syscall_def shadow_post_memory)
    then show ?thesis by (rule fun_cong [OF fd_shadow_get_cong])
  qed
qed (simp add: event_post_syscall_def)

section \<open>An entry through rounds\<close>

definition reports :: "bool \<times> sandbox \<Rightarrow> bool" where
  "reports r = (fst r \<or> (\<exists>e. failed_with e (snd r)))"

lemma reports_rules:
  "reports (True, s)" "reports (deny e s)" "reports (pass_remapped api i a orig r s)"
  using pass_remapped_verdict(2) [of api i a orig r s] by (auto simp: reports_def)

lemma pre_open_refused: "\<not> fst (pre_open api cfg n s) \<Longrightarrow> \<exists>e. failed_with e (snd (pre_open api cfg n s))"
proof -
  have "reports (pre_open api cfg n s)"
    by (auto simp: pre_open_def Let_def split: option.splits prod.splits list.splits intro: reports_rules)
  then show "\<not> fst (pre_open api cfg n s) \<Longrightarrow> \<exists>e. failed_with e (snd (pre_open api cfg n s))"
    by (simp add: reports_def)
qed

text \<open>A refused open reports a failure; a duplication is never refused.\<close>

lemma refused_round:
  assumes "event_pre_syscall api cfg n s = (ok, s1)" and "\<not> ok"
  shows "(\<forall>i. sys_result s1 = Some i \<longrightarrow> \<not> succeeded i) \<or>
    \<not> (is_dup n s \<or> n \<in> {SYS_open, SYS_openat, SYS_creat})"
proof (cases "n \<in> {SYS_open, SYS_openat, SYS_creat}")
  case True
  let ?r = "check_cpuish_budget api cfg n (pre_reset n s)"
  have "\<exists>e. failed_with e s1"
  proof (cases "fst ?r")
    case ok: True
    then have "pre_open api cfg n (snd ?r) = (ok, s1)"
      using True assms(1) by (auto simp: event_pre_syscall_def split_beta Let_def pre_dispatch_def always_allowed_def)
    with assms(2) pre_open_refused [of api cfg n "snd ?r"] show ?thesis by simp
  next
    case False
    then have "s1 = snd ?r" using assms(1) by (simp add: event_pre_syscall_def split_beta Let_def)
    with cpuish_result(2) [OF False] show ?thesis by auto
  qed
  then show ?thesis by (auto simp: failed_with_def)
next
  case False
  have "\<not> is_dup n s"
  proof
    assume "is_dup n s"
    from dup_event [OF this, of api cfg] assms show False
      by (auto simp: pre_fcntl_def pre_dup_def Let_def split: if_splits)
  qed
  with False show ?thesis by blast
qed

lemma round_keeps_entry:
  assumes "spares fd r"
  shows "fd_shadow_get (run_round api cfg r s) fd = fd_shadow_get s fd"
proof -
  let ?c = "rd_call r"
  let ?n = "call_nr ?c" and ?e = "enter ?c s"
  obtain ok s1 where pre: "event_pre_syscall api cfg ?n ?e = (ok, s1)" by fastforce
  have keep1: "fd_shadow_get s1 fd = fd_shadow_get s fd"
    using pre_keeps_entry [of ?n ?e fd api cfg] sparesD(1,2) [OF assms] pre by auto
  have post: "fd_shadow_get (event_post_syscall api cfg ?n res s1) fd = fd_shadow_get s1 fd"
    if res: "res = rd_result r \<or> (\<forall>i. res = Some i \<longrightarrow> \<not> succeeded i) \<or>
      \<not> (is_dup ?n ?e \<or> ?n \<in> {SYS_open, SYS_openat, SYS_creat})" for res
  proof (rule post_keeps_entry)
    fix i assume i: "res = Some i" "succeeded i"
    show "int_of_reg (res_value i) \<noteq> fd" if "?n \<in> {SYS_open, SYS_openat, SYS_creat}"
    proof -
      have "rd_result r = Some i" using res i that by blast
      with sparesD(3) [OF assms] i(2) that show ?thesis by blast
    qed
    assume "g_pending_dup s1"
    then have dup: "is_dup ?n ?e" using pre_notes_dup [of api cfg ?n ?e] pre by simp
    with res i have r: "rd_result r = Some i" by blast
    show "(if g_pending_dup_has_dst s1 then g_pending_dup_dst s1 else int_of_reg (res_value i)) \<noteq> fd"
    proof (cases "g_pending_dup_has_dst s1")
      case True
      with dup_pre_state(3,4) [OF dup pre] sparesD(2) [OF assms] show ?thesis by simp
    next
      case False
      then have "?n \<in> {SYS_open, SYS_openat, SYS_creat, SYS_dup} \<or>
          ?n = SYS_fcntl \<and> int_of_reg (call_params ?c 1) \<in> {0, 1030}"
        using dup dup_pre_state(3) [OF dup pre] by (auto simp: is_dup_def)
      with False sparesD(3) [OF assms _ r i(2)] show ?thesis by simp
    qed
  qed
  have "fd_shadow_get (event_post_syscall api cfg ?n (sys_result s1) s1) fd = fd_shadow_get s1 fd" if "\<not> ok"
    using refused_round [OF pre that] by (intro post) auto
  with post [of "rd_result r"] keep1 show ?thesis by (simp add: run_round_def Let_def pre)
qed

lemma rounds_keep_entry:
  "list_all (spares fd) rs \<Longrightarrow> fd_shadow_get (fold (run_round api cfg) rs s) fd = fd_shadow_get s fd"
  by (induction rs arbitrary: s) (simp_all add: round_keeps_entry)

end
