(* ===== verification/Output_Race.thy ===== *)
theory Output_Race
  imports Machine
begin

text \<open>
  The output limit below the level of whole events. \<open>enforce_output_limit\<close> reads its counter, decides,
  and adds to the counter without holding a lock, and the events of different threads run at the same
  time. Here its steps are separated: \<open>output_check\<close> (1306--1333) decides and gives the byte count to
  be added, \<open>output_load\<close> and \<open>output_store\<close> are the two halves of \<open>*used += requested\<close> (1334).
  Run one after the other they are \<open>enforce_output_limit\<close>; \<open>write_step\<close> interleaves them between
  threads. Each of its runs is a run of the code; the code has finer ones too (the reads inside the
  check), which the results here do not need.
\<close>

section \<open>Definitions\<close>

text \<open>\<open>None\<close> refuses the write, \<open>Some k\<close> lets it go on with \<open>k\<close> bytes to be counted.\<close>

definition output_check ::
  "dr_api \<Rightarrow> config \<Rightarrow> int \<Rightarrow> int \<Rightarrow> size_t \<Rightarrow> sandbox \<Rightarrow> size_t option \<times> sandbox" where
  "output_check api cfg sysnum fd requested s =
     (case output_counter cfg fd of
        None \<Rightarrow> (Some 0, s)
      | Some (limit, name, used, put_used) \<Rightarrow>
          let act = (if g_output_truncate cfg then ''truncate'' else ''block'') in
          if used s \<ge> limit then
            let s1 = audit_resource_event api cfg name act sysnum (used s) limit s
            in (None, if g_output_truncate cfg then set_value_result 0 s1 else set_errno_result EFBIG s1)
          else
            let remaining = limit - used s in
            if requested > remaining then
              let s1 = audit_resource_event api cfg name act sysnum (used s + requested) limit s in
              if \<not> g_output_truncate cfg then (None, set_errno_result EFBIG s1)
              else
                (Some remaining,
                 if sysnum = SYS_write \<or> sysnum = SYS_pwrite64 then set_param 2 remaining s1 else s1)
            else (Some requested, s))"

definition output_load :: "config \<Rightarrow> int \<Rightarrow> sandbox \<Rightarrow> size_t" where
  "output_load cfg fd s =
     (case output_counter cfg fd of None \<Rightarrow> 0 | Some (limit, name, used, put_used) \<Rightarrow> used s)"

definition output_store :: "config \<Rightarrow> int \<Rightarrow> size_t \<Rightarrow> sandbox \<Rightarrow> sandbox" where
  "output_store cfg fd v s =
     (case output_counter cfg fd of None \<Rightarrow> s | Some (limit, name, used, put_used) \<Rightarrow> put_used v s)"

text \<open>
  Where a thread is inside the function, with the descriptor and the byte count it was granted; after
  the load also with the value it read.
\<close>

datatype writer = Checked int size_t | Loaded int size_t size_t

text \<open>
  The state with the threads inside the function, and the byte counts of the writes that returned true,
  in order.
\<close>

type_synonym writers = "sandbox \<times> (nat \<rightharpoonup> writer) \<times> size_t list"

inductive write_step :: "dr_api \<Rightarrow> config \<Rightarrow> nat set \<Rightarrow> writers \<Rightarrow> writers \<Rightarrow> bool"
  for api cfg T where
  check: "t \<in> T \<Longrightarrow> ws t = None \<Longrightarrow> call_nr c \<in> {SYS_write, SYS_pwrite64} \<Longrightarrow> fd = int_of_reg (call_params c 0) \<Longrightarrow>
    output_check api cfg (call_nr c) fd (call_params c 2) (enter c s) = (Some k, s1) \<Longrightarrow>
    write_step api cfg T (s, ws, ks) (s1, ws(t \<mapsto> Checked fd k), ks)"
| refuse: "t \<in> T \<Longrightarrow> ws t = None \<Longrightarrow> call_nr c \<in> {SYS_write, SYS_pwrite64} \<Longrightarrow> fd = int_of_reg (call_params c 0) \<Longrightarrow>
    output_check api cfg (call_nr c) fd (call_params c 2) (enter c s) = (None, s1) \<Longrightarrow>
    write_step api cfg T (s, ws, ks) (s1, ws, ks)"
| load: "t \<in> T \<Longrightarrow> ws t = Some (Checked fd k) \<Longrightarrow>
    write_step api cfg T (s, ws, ks) (s, ws(t \<mapsto> Loaded fd k (output_load cfg fd s)), ks)"
| store: "t \<in> T \<Longrightarrow> ws t = Some (Loaded fd k v) \<Longrightarrow>
    write_step api cfg T (s, ws, ks) (output_store cfg fd (v + k) s, ws(t := None), ks @ [k])"

text \<open>A \<open>write\<close> of \<open>k\<close> bytes to a descriptor, for the runs.\<close>

definition write_call :: "reg_t \<Rightarrow> size_t \<Rightarrow> call" where
  "write_call fd k = \<lparr>call_nr = SYS_write, call_params = (\<lambda>i. if i = 0 then fd else k),
     call_mem = (\<lambda>_. None), call_clock = 0\<rparr>"

section \<open>The steps in sequence\<close>

text \<open>Check, load and store without interruption are the function of the code.\<close>

lemma enforce_output_limit_steps:
  "enforce_output_limit api cfg n fd k s =
    (case output_check api cfg n fd k s of
       (None, s1) \<Rightarrow> (False, s1)
     | (Some g, s1) \<Rightarrow> (True, output_store cfg fd (output_load cfg fd s1 + g) s1))"
proof (cases "output_counter cfg fd")
  case (Some c)
  obtain limit name used put_used where c: "c = (limit, name, used, put_used)" by (cases c)
  have used: "used = output_used fd" using output_counter_laws(2) Some c by blast
  show ?thesis
    by (simp add: enforce_output_limit_def output_check_def output_store_def output_load_def Let_def Some c used)
qed (simp add: enforce_output_limit_def output_check_def output_store_def)

section \<open>Two writers\<close>

lemma output_check_passes:
  assumes "fd = 1 \<or> fd = 2" and "k \<le> output_limit cfg fd" and "0 < k" and "output_used fd s = 0"
  shows "output_check api cfg n fd k s = (Some k, s)"
proof -
  have pos: "0 < output_limit cfg fd" using assms(2,3) by simp
  then obtain c where oc: "output_counter cfg fd = Some c" using output_counter_some [OF assms(1)] by blast
  obtain limit name used put_used where c: "c = (limit, name, used, put_used)" by (cases c)
  note laws = output_counter_laws(1,2) [OF oc [unfolded c]]
  have "output_limit cfg fd \<noteq> 0" "\<not> output_limit cfg fd < k" using pos assms(2) by auto
  with assms(4) show ?thesis by (simp add: output_check_def oc c laws Let_def)
qed

lemma output_load_store:
  assumes "fd = 1 \<or> fd = 2" and "0 < output_limit cfg fd"
  shows "output_load cfg fd s = output_used fd s" and "output_used fd (output_store cfg fd v s) = v"
proof -
  obtain c where oc: "output_counter cfg fd = Some c" using output_counter_some [OF assms] by blast
  obtain limit name used put_used where c: "c = (limit, name, used, put_used)" by (cases c)
  note laws = output_counter_laws(2,4) [OF oc [unfolded c]]
  show "output_load cfg fd s = output_used fd s" by (simp add: output_load_def oc c laws(1))
  show "output_used fd (output_store cfg fd v s) = v" by (simp add: output_store_def oc c laws(2))
qed

lemma output_used_enter [simp]: "output_used fd (enter c s) = output_used fd s"
  by (simp add: output_used_def enter_def)

lemma two_writers_checked:
  assumes "int_of_reg r = fd" and "fd = 1 \<or> fd = 2" and "0 < k" and "k \<le> output_limit cfg fd"
    and "t \<in> T" and "u \<in> T" and "t \<noteq> u" and "output_used fd s = 0"
  shows "\<exists>s2. (write_step api cfg T)\<^sup>*\<^sup>* (s, Map.empty, [])
      (s2, Map.empty(t \<mapsto> Checked fd k, u \<mapsto> Checked fd k), []) \<and> output_used fd s2 = 0"
proof -
  let ?c = "write_call r k" and ?s1 = "enter (write_call r k) s"
  have ck: "output_check api cfg (call_nr ?c) fd (call_params ?c 2) (enter ?c x) = (Some k, enter ?c x)"
    if "output_used fd x = 0" for x
    using output_check_passes [OF assms(2,4,3), of "enter ?c x"] that by (simp add: write_call_def)
  have nr: "call_nr ?c \<in> {SYS_write, SYS_pwrite64}" "fd = int_of_reg (call_params ?c 0)"
    using assms(1) by (simp_all add: write_call_def)
  have "write_step api cfg T (s, Map.empty, []) (?s1, Map.empty(t \<mapsto> Checked fd k), [])"
    by (rule write_step.check [OF assms(5) _ nr ck]) (use assms(8) in simp_all)
  moreover have "write_step api cfg T (?s1, Map.empty(t \<mapsto> Checked fd k), [])
      (enter ?c ?s1, Map.empty(t \<mapsto> Checked fd k, u \<mapsto> Checked fd k), [])"
    by (rule write_step.check [OF assms(6) _ nr ck]) (use assms(7,8) in simp_all)
  ultimately have "(write_step api cfg T)\<^sup>*\<^sup>* (s, Map.empty, [])
      (enter ?c ?s1, Map.empty(t \<mapsto> Checked fd k, u \<mapsto> Checked fd k), [])"
    by (rule converse_rtranclp_into_rtranclp [OF _ r_into_rtranclp])
  then show ?thesis using assms(8) by (intro exI [of _ "enter ?c ?s1"]) simp
qed

text \<open>One writer finishes after the other, or both load before either stores.\<close>

lemma writers_finish:
  fixes k :: size_t
  assumes "fd = 1 \<or> fd = 2" and "0 < output_limit cfg fd" and "t \<in> T" and "u \<in> T" and "t \<noteq> u"
    and "output_used fd s = 0"
  defines "ws \<equiv> Map.empty(t \<mapsto> Checked fd k, u \<mapsto> Checked fd k)"
  shows "\<exists>s' ws'. (write_step api cfg T)\<^sup>*\<^sup>* (s, ws, []) (s', ws', [k, k]) \<and> output_used fd s' = k + k"
    and "\<exists>s' ws'. (write_step api cfg T)\<^sup>*\<^sup>* (s, ws, []) (s', ws', [k, k]) \<and> output_used fd s' = k"
proof -
  note ls = output_load_store [OF assms(1,2)]
  let ?S = "write_step api cfg T" and ?st = "\<lambda>v x. output_store cfg fd v x"
  have ld: "?S (x, w, ks) (x, w(p \<mapsto> Loaded fd k (output_used fd x)), ks)"
    if "p \<in> T" "w p = Some (Checked fd k)" for p w x ks
    using write_step.load [of p T w fd k api cfg x ks] that ls(1) by simp
  have stp: "?S (x, w, ks) (?st (v + k) x, w(p := None), ks @ [k])"
    if "p \<in> T" "w p = Some (Loaded fd k v)" for p w x ks v
    using write_step.store [of p T w fd k v api cfg x ks] that by simp
  have "?S (s, ws, []) (s, ws(t \<mapsto> Loaded fd k 0), [])"
    using ld [of t ws s "[]"] assms(3,5,6) by (simp add: ws_def)
  also have "?S\<^sup>*\<^sup>* (s, ws(t \<mapsto> Loaded fd k 0), []) (?st k s, ws(t := None), [k])"
    using stp [of t "ws(t \<mapsto> Loaded fd k 0)" 0 s "[]"] assms(3) by auto
  also have "?S (?st k s, ws(t := None), [k]) (?st k s, ws(t := None, u \<mapsto> Loaded fd k k), [k])"
    using ld [of u "ws(t := None)" "?st k s" "[k]"] assms(4,5) by (simp add: ws_def ls)
  also have "?S (?st k s, ws(t := None, u \<mapsto> Loaded fd k k), [k])
      (?st (k + k) (?st k s), ws(t := None, u := None), [k, k])"
    using stp [of u "ws(t := None, u \<mapsto> Loaded fd k k)" k "?st k s" "[k]"] assms(4) by simp
  finally show "\<exists>s' ws'. ?S\<^sup>*\<^sup>* (s, ws, []) (s', ws', [k, k]) \<and> output_used fd s' = k + k"
    by (intro exI conjI) (assumption, simp add: ls)
  have "?S (s, ws, []) (s, ws(t \<mapsto> Loaded fd k 0), [])"
    using ld [of t ws s "[]"] assms(3,5,6) by (simp add: ws_def)
  also have "?S\<^sup>*\<^sup>* (s, ws(t \<mapsto> Loaded fd k 0), []) (s, ws(t \<mapsto> Loaded fd k 0, u \<mapsto> Loaded fd k 0), [])"
    using ld [of u "ws(t \<mapsto> Loaded fd k 0)" s "[]"] assms(4-6) by (auto simp: ws_def)
  also have "?S (s, ws(t \<mapsto> Loaded fd k 0, u \<mapsto> Loaded fd k 0), [])
      (?st k s, ws(t := None, u \<mapsto> Loaded fd k 0), [k])"
    using stp [of t "ws(t \<mapsto> Loaded fd k 0, u \<mapsto> Loaded fd k 0)" 0 s "[]"] assms(3,5) by (simp add: fun_upd_twist)
  also have "?S (?st k s, ws(t := None, u \<mapsto> Loaded fd k 0), [k])
      (?st k (?st k s), ws(t := None, u := None), [k, k])"
    using stp [of u "ws(t := None, u \<mapsto> Loaded fd k 0)" 0 "?st k s" "[k]"] assms(4) by simp
  finally show "\<exists>s' ws'. ?S\<^sup>*\<^sup>* (s, ws, []) (s', ws', [k, k]) \<and> output_used fd s' = k"
    by (intro exI conjI) (assumption, simp add: ls)
qed

section \<open>Properties\<close>

lemma overlapping_writes_exceed_limit_facts:
  assumes "int_of_reg r = fd" and "fd = 1 \<or> fd = 2" and "0 < k" and "k \<le> output_limit cfg fd"
    and "t \<in> T" and "u \<in> T" and "t \<noteq> u"
  shows "\<exists>s' ws'. (write_step api cfg T)\<^sup>*\<^sup>* (initial_sandbox, Map.empty, []) (s', ws', [k, k]) \<and>
      output_used fd s' = k + k"
    and "\<exists>s' ws'. (write_step api cfg T)\<^sup>*\<^sup>* (initial_sandbox, Map.empty, []) (s', ws', [k, k]) \<and>
      output_used fd s' = k"
proof -
  have z: "output_used fd initial_sandbox = 0" by (simp add: output_used_def initial_sandbox_def)
  obtain s2 where run: "(write_step api cfg T)\<^sup>*\<^sup>* (initial_sandbox, Map.empty, [])
      (s2, Map.empty(t \<mapsto> Checked fd k, u \<mapsto> Checked fd k), [])" and z2: "output_used fd s2 = 0"
    using two_writers_checked [OF assms z] by blast
  have pos: "0 < output_limit cfg fd" using assms(3,4) by simp
  note fin = writers_finish [OF assms(2) pos assms(5-7) z2, where k = k and api = api]
  show "\<exists>s' ws'. (write_step api cfg T)\<^sup>*\<^sup>* (initial_sandbox, Map.empty, []) (s', ws', [k, k]) \<and>
      output_used fd s' = k + k"
    using fin(1) rtranclp_trans [OF run] by blast
  show "\<exists>s' ws'. (write_step api cfg T)\<^sup>*\<^sup>* (initial_sandbox, Map.empty, []) (s', ws', [k, k]) \<and>
      output_used fd s' = k"
    using fin(2) rtranclp_trans [OF run] by blast
qed

text \<open>
  C26: Two threads that write at the same time get past the output limit. The steps of the model, run
  without interruption, are \<open>enforce_output_limit\<close>. When two threads run them interleaved, then for
  every byte count \<open>k\<close> up to the limit both writes of \<open>k\<close> bytes can pass with their full count: in
  one run the counter ends at \<open>2 k\<close>, which is above the limit when \<open>k\<close> is more than half of it, and
  in another one update is lost and the counter shows only \<open>k\<close> although \<open>2 k\<close> bytes were passed on.
\<close>
theorem overlapping_writes_exceed_limit:
  assumes "int_of_reg r = fd" and "fd = 1 \<or> fd = 2" and "0 < k" and "k \<le> output_limit cfg fd"
    and "t \<in> T" and "u \<in> T" and "t \<noteq> u"
  shows "(\<exists>s' ws'. (write_step api cfg T)\<^sup>*\<^sup>* (initial_sandbox, Map.empty, []) (s', ws', [k, k]) \<and>
      output_used fd s' = k + k) \<and>
    (\<exists>s' ws'. (write_step api cfg T)\<^sup>*\<^sup>* (initial_sandbox, Map.empty, []) (s', ws', [k, k]) \<and>
      output_used fd s' = k) \<and>
    enforce_output_limit api cfg n fd k s =
      (case output_check api cfg n fd k s of
         (None, s1) \<Rightarrow> (False, s1)
       | (Some g, s1) \<Rightarrow> (True, output_store cfg fd (output_load cfg fd s1 + g) s1))"
  using overlapping_writes_exceed_limit_facts [OF assms] enforce_output_limit_steps by blast

theorem overlapping_writes_exceed_limit_witness:
  "\<exists>s' ws'. (write_step plain_api (demo_output False) {0, 1})\<^sup>*\<^sup>* (initial_sandbox, Map.empty, [])
     (s', ws', [8, 8]) \<and> output_used 1 s' = 16 \<and> \<not> output_used 1 s' \<le> output_limit (demo_output False) 1"
proof -
  have l: "output_limit (demo_output False) 1 = 10" by (simp add: output_limit_def demo_output_def)
  have r: "int_of_reg 1 = 1" by (simp add: int_of_reg_def)
  have "\<exists>s' ws'. (write_step plain_api (demo_output False) {0, 1})\<^sup>*\<^sup>* (initial_sandbox, Map.empty, [])
      (s', ws', [8, 8]) \<and> output_used 1 s' = 8 + 8"
    using overlapping_writes_exceed_limit [OF r, of 8 "demo_output False" 0 "{0, 1}" 1 plain_api] by (simp add: l)
  then show ?thesis by (auto simp: l)
qed

end
