(* ===== verification/Spec2Isabelle.thy ===== *)
theory Spec2Isabelle
  imports Client_Main Rounds Output_Race
begin

text \<open>
  Verification of the syscall virtualisation client \<open>src/syscall_filter.c\<close>, a DynamoRIO client that
  confines an application by intercepting its syscalls.

  \<^bold>\<open>The program.\<close> \<open>dr_client_main\<close> reads \<open>DR_*\<close> environment variables into global settings, builds the
  session root \<open>/tmp/dr-sandbox/<id>/\<close> and registers three events. The filter event asks for every
  syscall. The pre-syscall event decides whether a syscall goes on, rewrites its parameters and notes
  what the post-syscall event needs; the post-syscall event records descriptors and charges memory once
  the kernel has answered. Policies: path rules (\<open>DR_PATH_POLICY\<close>), fd-write rules
  (\<open>DR_FD_WRITE_POLICY\<close>), network rules (\<open>DR_NETWORK_POLICY\<close>), switches for exec, executable memory,
  network and writes, limits on reads, output, memory, processes and time, and a JSONL audit log.

  \<^bold>\<open>The theories\<close>, in the order of the code:
    \<^item> \<open>Sandbox_Prelude\<close>: types, collections of facts, list and word lemmas, and the interface
      \<open>rule_table\<close> of first-match tables.
    \<^item> \<open>CLib\<close>: the C library functions used on strings (\<open>strtol\<close>, \<open>strtoull\<close>, \<open>strstr\<close>).
    \<^item> \<open>Syscalls\<close>: the syscall numbers (lines 22--319) and the constants of the headers.
    \<^item> \<open>Client_State\<close>: enums and structs, the globals as the records \<open>config\<close> (written by
      \<open>dr_client_main\<close> only) and \<open>sandbox\<close> (written by the events), application memory, the DynamoRIO
      functions as the record \<open>dr_api\<close>, \<open>set_errno_result\<close>, \<open>read_app_string\<close>.
    \<^item> \<open>Env_Config\<close>: the environment parsers (560--618).
    \<^item> \<open>Paths\<close>: \<open>canonicalize_path\<close>, the prefix test, the blocklist, private-write candidates, the join
      with the session root and directory creation. \<open>lexical_resolve\<close> is its specification.
    \<^item> \<open>Path_Policy\<close>, \<open>Network_Policy\<close>: rule parsers, lookups, \<open>read_ipv4_peer\<close>; both lookups are
      interpretations of \<open>rule_table\<close>.
    \<^item> \<open>Audit_Log\<close>: the bounded line buffers and the four audit records (430--558).
    \<^item> \<open>Budget\<close>: the allocation budget (620--652) and the interface \<open>meter\<close> of bounded counters.
    \<^item> \<open>Fd_Shadow\<close>: the descriptor table (1213--1263), an interpretation of the interface \<open>fd_table\<close>.
    \<^item> \<open>Limits\<close>: time budget and output limits (1270--1336); the counters are interpretations of
      \<open>meter\<close>.
    \<^item> \<open>Pre_Paths\<close>, \<open>Pre_Controls\<close>, \<open>Pre_Syscall\<close>: the pre-syscall event (1076--1131, 1346--1938), one
      definition per branch, composed in the order of the function. \<open>syscall_guard\<close> is the contract of a
      handler; it is interpreted on the path handlers, the controls and the whole event.
    \<^item> \<open>Post_Syscall\<close>: the post-syscall event (1940--2000).
    \<^item> \<open>Machine\<close>: threads, calls in flight and the step relation, one event per step;
      \<open>transition_invariant\<close> lifts one-step preservation to all runs and is interpreted for the client
      invariant and the budget.
    \<^item> \<open>Output_Race\<close>: the output limit in its separate reads and writes of the counter, interleaved
      between threads.
    \<^item> \<open>Client_Main\<close>: \<open>dr_client_main\<close> (2002--2103).
    \<^item> \<open>Event_Flow\<close>, \<open>Rounds\<close> and this theory: one syscall through both events, sequences of whole
      syscalls, and what initialisation gives the events.

  \<^bold>\<open>Correspondence.\<close> C strings are character lists without the NUL; a buffer of \<open>n\<close> bytes shows as a cut
  at \<open>n - 1\<close>. \<open>size_t\<close>, \<open>uint64\<close> and \<open>reg_t\<close> are 64-bit words, so every sum and difference wraps as in C;
  \<open>int\<close> casts of registers are \<open>int_of_reg\<close>. A handler maps the state to a verdict (false skips the
  syscall) and a new state. \<open>dr_syscall_get_param\<close>, \<open>dr_syscall_set_param\<close> and
  \<open>dr_syscall_set_result_ex\<close> act on fields of the state; directories created and audit lines written are
  lists. The functions of DynamoRIO that the code depends on (\<open>dr_safe_read\<close>, \<open>dr_safe_write\<close>,
  \<open>dr_global_alloc\<close>, \<open>dr_snprintf\<close>) are parameters; \<open>safe_read_ok\<close>, \<open>safe_write_ok\<close>, \<open>alloc_ok\<close> and
  \<open>snprintf_ok\<close> state their documented behaviour and \<open>plain_api\<close> is a concrete instance. Loops are total functions
  (recursion on the string or on a shorter rest), so no fuel is needed.

  \<^bold>\<open>What is shown.\<close> Paths: the canonicaliser computes lexical resolution up to its 128-entry stack, its
  results are normal forms, the blocklist is a test on the first component, joins without \<open>..\<close> stay
  below the session root. Policies: rule texts are parsed back, lookups are first-match. Audit: no record
  overruns its buffer, a strict JSON reader gets every string back, when a record is cut. Budget and limits: word
  arithmetic is exact arithmetic, output and memory stay within their limits over sequences of calls and
  over runs. Events: the contract of the pre-syscall event for all syscalls, deny by default in strict
  mode, the capability switches, redirection of private opens with the complete change of the state,
  protection of files (until their descriptor is closed or overwritten) and of their duplicates against
  \<open>write\<close>, \<open>writev\<close> and \<open>pwrite64\<close>, how memory requests are decided, exact charging of mappings. Initialisation: bounds of every setting, the mode defaults,
  the invariants the events start from.

  Some theorems state where the code does less than its documentation says: joins with \<open>..\<close> leave the
  session root, paths are judged by their first 511 characters, relative paths pass the strict blocklist,
  read-only rules let \<open>unlink\<close> and others through, path syscalls without a branch pass in observe mode,
  \<open>dup2\<close> can lift a write block, two threads racing on \<open>brk\<close> break the memory budget, mappings and heap
  are not added up, overlapping writes of two threads exceed the output limit, long records lose their
  line break, \<open>block:/\<close> covers only the root itself, sizes wrap around, the session id is not
  sanitised, strict mode refuses \<open>getpid\<close>.

  \<^bold>\<open>Scope.\<close> In \<open>step\<close> an event is one step: calls of several threads are in flight together and their
  events come in any order, but two events do not overlap. For one thread that is no restriction. For
  several threads it is: DynamoRIO runs callbacks concurrently and the code takes its mutex only around
  the budget updates (634--639, 646--651) and the process counter (1786--1788, 1803--1805). The
  invariant of the client is therefore shown for serialised events; \<open>Output_Race\<close> shows that it fails
  for overlapping ones, with the steps of \<open>enforce_output_limit\<close> (1306--1334) interleaved. In the
  post-syscall event of \<open>brk\<close>, \<open>dr_syscall_get_param\<close> (1988) is taken to return the parameter of the
  call; DynamoRIO documents it for the pre-syscall event.

  \<^bold>\<open>Not modelled.\<close> The human log (stderr only), event registration and mutex creation, the choice of the
  audit file handle, the Go command line wrapper, the launch script, the host stubs and the test
  programs. The kernel is the nondeterminism of \<open>step\<close>: any result may come back.
\<close>

section \<open>Shared facts\<close>

lemma budget_run:
  assumes "(step api cfg {t})\<^sup>*\<^sup>* (s, Map.empty) m" and "budget_ok cfg s" and "alloc_budget_enabled cfg"
  shows "g_alloc_bytes (fst m) \<le> g_max_alloc_bytes cfg"
proof -
  have "budget_machine_ok cfg t (s, Map.empty)" using assms(2) by (simp add: budget_machine_ok_def)
  from budget_inv.inv_star [OF assms(1) this] assms(3) show ?thesis
    by (simp add: budget_machine_ok_def budget_ok_def)
qed

text \<open>An open of \<open>path\<close>, then a call on the descriptor it returned.\<close>

definition open_call :: "string \<Rightarrow> sandbox" where
  "open_call path = demo_call path (\<lambda>_. 4096)"

definition fd_call :: "int \<Rightarrow> reg_t \<Rightarrow> call" where
  "fd_call n fd = \<lparr>call_nr = n, call_params = (\<lambda>_. fd), call_mem = (\<lambda>_. None), call_clock = 0\<rparr>"

definition protected_config :: config where
  "protected_config = demo_config\<lparr>g_redirect_tmp := False,
     g_fd_write_rules := [\<lparr>rule_action = PATH_POLICY_BLOCK, rule_prefix = ''/data''\<rparr>]\<rparr>"

lemma protected_open:
  "\<exists>s1. event_pre_syscall plain_api protected_config SYS_open (open_call ''/data/f'') = (True, s1)"
proof -
  let ?s = "pre_reset SYS_open (open_call ''/data/f'')"
  have args: "open_args SYS_open ?s = (4096, 0, ucast (4096 :: reg_t))"
    by (simp add: open_args_def open_call_def)
  have "app_mem ?s = app_mem (demo_call ''/data/f'' (\<lambda>_. 4096))" by (simp add: pre_reset_def open_call_def)
  then have "read_app_string plain_api (app_mem ?s) 4096 512 = Some ''/data/f''"
    using read_app_string_cstring [OF plain_api_ok(2) demo_call_string [of "''/data/f''" "\<lambda>_. 4096"], of 512]
    by simp
  moreover have "effective_path_policy_for protected_config ''/data/f'' = PATH_POLICY_PASS" by code_simp
  moreover have "\<not> strictly_blocked protected_config ''/data/f''"
    by (simp add: strictly_blocked_def protected_config_def demo_config_def)
  ultimately have "fst (pre_open plain_api protected_config SYS_open ?s)" using pre_open_pass [OF args] by blast
  moreover have "g_max_cpu_ms protected_config = 0" by (simp add: protected_config_def demo_config_def)
  ultimately have "fst (event_pre_syscall plain_api protected_config SYS_open (open_call ''/data/f''))"
    by (simp add: event_pre_syscall_def check_cpuish_budget_def pre_dispatch_def always_allowed_def)
  then show ?thesis by (metis prod.collapse)
qed

section \<open>Properties that span components\<close>

text \<open>
  C5: A file under a blocking fd-write rule stays protected for the life of its descriptor, against
  \<open>write\<close>, \<open>writev\<close> and \<open>pwrite64\<close>. Opened by its own path (not through \<open>/proc/self/fd\<close>), in whatever
  mode, once the kernel has returned a descriptor below 1024, and after any sequence of further
  syscalls of the thread that neither close this descriptor nor make it the destination of \<open>dup2\<close> or
  \<open>dup3\<close> (and in which the kernel does not hand it out again), every one of these three calls on it is
  refused, with whatever other parameters. Other calls that write (\<open>pwritev\<close>, \<open>sendfile\<close>) are not
  covered: the code does not look at them.
\<close>
theorem protected_file_not_written:
  assumes "safe_read_ok api" and "n \<in> {SYS_open, SYS_openat, SYS_creat}"
    and "open_args n s = (a, i, flags)" and "cstring_at (app_mem s) a orig" and "length orig \<le> 511"
    and "proc_self_fd_target orig = None" and "fd_write_policy_for cfg orig = PATH_POLICY_BLOCK"
    and "event_pre_syscall api cfg n s = (True, s1)" and "0 \<le> int_of_reg fd \<and> int_of_reg fd < 1024"
    and "list_all (spares (int_of_reg fd)) rs"
    and "call_nr c \<in> {SYS_write, SYS_writev, SYS_pwrite64}" and "call_params c 0 = fd"
  shows "\<not> fst (event_pre_syscall api cfg (call_nr c)
    (enter c (fold (run_round api cfg) rs (event_post_syscall api cfg n (Some (returned fd)) s1))))"
proof -
  let ?s = "pre_reset n s" and ?t = "event_post_syscall api cfg n (Some (returned fd)) s1"
  let ?u = "fold (run_round api cfg) rs ?t"
  have mem: "app_mem ?s = app_mem s" by (simp add: pre_reset_def)
  have args: "open_args n ?s = (a, i, flags)" using assms(3) unfolding open_args_def get_param_reset .
  have "read_app_string api (app_mem ?s) a 512 = Some orig"
    using read_app_string_cstring [OF assms(1,4), of 512] assms(5) mem by simp
  from pre_open_notes [OF args this pre_open_event [OF assms(2,8)]]
  have "noted s1 = (True, True, take 511 orig)" using noted_plain_open [OF assms(6)] assms(7) by simp
  from post_open_records [OF assms(2) this assms(9), of api cfg]
  have "fd_shadow_get ?u (int_of_reg fd) =
      Some \<lparr>in_use = True, block_write = True, shadow_path = take 511 (take 511 orig)\<rparr>"
    unfolding rounds_keep_entry [OF assms(10)] .
  then have "fd_shadow_get (enter c ?u) (int_of_reg (get_param (enter c ?u) 0)) =
      Some \<lparr>in_use = True, block_write = True, shadow_path = take 511 (take 511 orig)\<rparr>"
    using assms(12) by simp
  from write_refused [OF assms(11) this, of api cfg] show ?thesis by simp
qed

text \<open>Reading from the protected descriptor, closing another one and opening a second file, for the witness.\<close>

definition demo_rounds :: "round list" where
  "demo_rounds =
     [\<lparr>rd_call = fd_call SYS_read 5, rd_result = Some (returned 3), rd_post_refused = False\<rparr>,
      \<lparr>rd_call = fd_call SYS_close 4, rd_result = Some (returned 0), rd_post_refused = False\<rparr>,
      \<lparr>rd_call = fd_call SYS_open 4096, rd_result = Some (returned 6), rd_post_refused = True\<rparr>]"

theorem protected_file_not_written_witness:
  "\<exists>s1. event_pre_syscall plain_api protected_config SYS_open (open_call ''/data/f'') = (True, s1) \<and>
    \<not> fst (event_pre_syscall plain_api protected_config SYS_write
      (enter (fd_call SYS_write 5) (fold (run_round plain_api protected_config) demo_rounds
        (event_post_syscall plain_api protected_config SYS_open (Some (returned 5)) s1))))"
proof -
  obtain s1 where pre: "event_pre_syscall plain_api protected_config SYS_open (open_call ''/data/f'') = (True, s1)"
    using protected_open by blast
  have args: "open_args SYS_open (open_call ''/data/f'') = (4096, 0, ucast (4096 :: reg_t))"
    by (simp add: open_args_def open_call_def)
  have str: "cstring_at (app_mem (open_call ''/data/f'')) 4096 ''/data/f''"
    unfolding open_call_def by (rule demo_call_string) simp_all
  have pol: "proc_self_fd_target ''/data/f'' = None" "fd_write_policy_for protected_config ''/data/f'' = PATH_POLICY_BLOCK"
    by code_simp+
  have five: "0 \<le> int_of_reg 5 \<and> int_of_reg 5 < 1024" by (simp add: int_of_reg_def)
  have sp: "list_all (spares (int_of_reg 5)) demo_rounds"
    by (simp add: demo_rounds_def spares_def fd_call_def returned_def int_of_reg_def)
  have "\<not> fst (event_pre_syscall plain_api protected_config (call_nr (fd_call SYS_write 5))
      (enter (fd_call SYS_write 5) (fold (run_round plain_api protected_config) demo_rounds
        (event_post_syscall plain_api protected_config SYS_open (Some (returned 5)) s1))))"
    by (rule protected_file_not_written [OF plain_api_ok(2) _ args str _ pol pre five sp]) (simp_all add: fd_call_def)
  with pre show ?thesis by (simp add: fd_call_def)
qed

lemma duplicate_keeps_write_block_facts:
  assumes "shadow_ok s" and "is_dup n s" and "event_pre_syscall api cfg n s = (ok, s1)"
    and "0 \<le> dup_dst n s v \<and> dup_dst n s v < 1024" and "dup_dst n s v \<noteq> int_of_reg (get_param s 0)"
  shows "fd_shadow_get (event_post_syscall api cfg n (Some (returned v)) s1) (dup_dst n s v) =
      fd_shadow_get s (int_of_reg (get_param s 0))"
    and "fd_shadow_get s (int_of_reg (get_param s 0)) = Some sh \<Longrightarrow> block_write sh \<Longrightarrow>
      call_nr c \<in> {SYS_write, SYS_writev, SYS_pwrite64} \<Longrightarrow> int_of_reg (call_params c 0) = dup_dst n s v \<Longrightarrow>
      \<not> fst (event_pre_syscall api cfg (call_nr c)
        (enter c (event_post_syscall api cfg n (Some (returned v)) s1)))"
proof -
  show eq: "fd_shadow_get (event_post_syscall api cfg n (Some (returned v)) s1) (dup_dst n s v) =
      fd_shadow_get s (int_of_reg (get_param s 0))"
    using assms(4,5) dup_pre_state(5,6) [OF assms(2,3)] assms(1)
    by (simp add: dup_post [OF assms(2,3)] get_copy get_clear dup_dst_def split: if_splits)
  show "fd_shadow_get s (int_of_reg (get_param s 0)) = Some sh \<Longrightarrow> block_write sh \<Longrightarrow>
      call_nr c \<in> {SYS_write, SYS_writev, SYS_pwrite64} \<Longrightarrow> int_of_reg (call_params c 0) = dup_dst n s v \<Longrightarrow>
      \<not> fst (event_pre_syscall api cfg (call_nr c)
        (enter c (event_post_syscall api cfg n (Some (returned v)) s1)))"
    using write_refused [of "call_nr c" "enter c (event_post_syscall api cfg n (Some (returned v)) s1)" sh] eq
    by simp
qed

text \<open>
  C12: Duplicates are protected like the original. After a successful \<open>dup\<close>, \<open>dup2\<close>, \<open>dup3\<close> or
  \<open>fcntl\<close> duplication onto another descriptor below 1024, the new descriptor has the entry of the
  source, so when the source may not be written neither may the duplicate.
\<close>
theorem duplicate_keeps_write_block:
  assumes "shadow_ok s" and "is_dup n s" and "event_pre_syscall api cfg n s = (ok, s1)"
    and "0 \<le> dup_dst n s v \<and> dup_dst n s v < 1024" and "dup_dst n s v \<noteq> int_of_reg (get_param s 0)"
  shows "fd_shadow_get (event_post_syscall api cfg n (Some (returned v)) s1) (dup_dst n s v) =
      fd_shadow_get s (int_of_reg (get_param s 0)) \<and>
    (fd_shadow_get s (int_of_reg (get_param s 0)) = Some sh \<longrightarrow> block_write sh \<longrightarrow>
      call_nr c \<in> {SYS_write, SYS_writev, SYS_pwrite64} \<longrightarrow>
      int_of_reg (call_params c 0) = dup_dst n s v \<longrightarrow>
      \<not> fst (event_pre_syscall api cfg (call_nr c)
        (enter c (event_post_syscall api cfg n (Some (returned v)) s1))))"
  using duplicate_keeps_write_block_facts [OF assms] by blast

theorem duplicate_keeps_write_block_witness:
  "fd_shadow_get (event_post_syscall plain_api demo_config SYS_dup (Some (returned 9))
     (snd (event_pre_syscall plain_api demo_config SYS_dup (demo_table\<lparr>sys_params := (\<lambda>_. 3)\<rparr>)))) 9 =
   Some \<lparr>in_use = True, block_write = True, shadow_path = ''/var/log/x''\<rparr>"
proof -
  let ?s = "demo_table\<lparr>sys_params := (\<lambda>_. 3)\<rparr>"
  have ok: "shadow_ok ?s" using demo_table_ok by (simp add: shadow_ok_def)
  have dup: "is_dup SYS_dup ?s" by (simp add: is_dup_def)
  have v: "dup_dst SYS_dup ?s 9 = 9" "int_of_reg (get_param ?s 0) = 3"
    by (simp_all add: dup_dst_def int_of_reg_def get_param_def)
  have "fd_shadow_get ?s 3 = fd_shadow_get demo_table 3" by (rule fun_cong [OF fd_shadow_get_cong]) simp
  also have "\<dots> = Some \<lparr>in_use = True, block_write = True, shadow_path = ''/var/log/x''\<rparr>"
    by (simp add: demo_table_def get_set)
  finally show ?thesis
    using duplicate_keeps_write_block [OF ok dup prod.collapse [symmetric], of 9 plain_api demo_config]
    by (simp add: v)
qed

lemma dup2_lifts_write_block_facts:
  assumes "n = SYS_dup2 \<or> n = SYS_dup3" and "event_pre_syscall api cfg n s = (ok, s1)" and "shadow_ok s"
  shows "int_of_reg (get_param s 0) = int_of_reg (get_param s 1) \<Longrightarrow>
      fd_shadow_get (event_post_syscall api cfg n (Some (returned v)) s1) (int_of_reg (get_param s 1)) = None"
    and "\<not> succeeded info \<Longrightarrow>
      fd_shadow_get (event_post_syscall api cfg n (Some info) s1) (int_of_reg (get_param s 1)) = None"
proof -
  have dup: "is_dup n s" using assms(1) by (auto simp: is_dup_def)
  have none: "fd_shadow_get s1 (int_of_reg (get_param s 1)) = None"
    using dup_pre_state(5) [OF dup assms(2)] assms(1) by (auto simp: get_clear)
  show "int_of_reg (get_param s 0) = int_of_reg (get_param s 1) \<Longrightarrow>
      fd_shadow_get (event_post_syscall api cfg n (Some (returned v)) s1) (int_of_reg (get_param s 1)) = None"
    using none dup_pre_state(6) [OF dup assms(2,3)] by (simp add: dup_post [OF dup assms(2)] get_copy)
  show "\<not> succeeded info \<Longrightarrow>
      fd_shadow_get (event_post_syscall api cfg n (Some info) s1) (int_of_reg (get_param s 1)) = None"
    using none assms(1) by (auto simp: event_post_syscall_def)
qed

text \<open>
  C35: \<open>dup2\<close> and \<open>dup3\<close> can lift a write block. The entry of the destination is cleared before the
  call: \<open>dup2(fd, fd)\<close>, which the kernel treats as a no-op that succeeds, and every \<open>dup2\<close> or
  \<open>dup3\<close> onto \<open>fd\<close> that fails leave \<open>fd\<close> open and without an entry, so its writes are no longer
  blocked.
\<close>
theorem dup2_lifts_write_block:
  assumes "n = SYS_dup2 \<or> n = SYS_dup3" and "event_pre_syscall api cfg n s = (ok, s1)" and "shadow_ok s"
  shows "(int_of_reg (get_param s 0) = int_of_reg (get_param s 1) \<longrightarrow>
      fd_shadow_get (event_post_syscall api cfg n (Some (returned v)) s1) (int_of_reg (get_param s 1)) = None) \<and>
    (\<not> succeeded info \<longrightarrow>
      fd_shadow_get (event_post_syscall api cfg n (Some info) s1) (int_of_reg (get_param s 1)) = None)"
  using dup2_lifts_write_block_facts [OF assms] by blast

theorem dup2_lifts_write_block_witness:
  "fd_shadow_get demo_table 3 \<noteq> None \<and>
   fd_shadow_get (event_post_syscall plain_api demo_config SYS_dup2 (Some (returned 3))
     (snd (event_pre_syscall plain_api demo_config SYS_dup2 (demo_table\<lparr>sys_params := (\<lambda>_. 3)\<rparr>)))) 3 = None"
proof -
  let ?s = "demo_table\<lparr>sys_params := (\<lambda>_. 3)\<rparr>"
  have "shadow_ok ?s" using demo_table_ok by (simp add: shadow_ok_def)
  moreover have "int_of_reg (get_param ?s i) = 3" for i by (simp add: int_of_reg_def get_param_def)
  ultimately show ?thesis
    using dup2_lifts_write_block [OF _ prod.collapse [symmetric], of SYS_dup2 ?s plain_api demo_config 3]
    by (simp add: demo_table_def get_set)
qed

lemma mmap_charged_exactly_facts:
  assumes "alloc_budget_enabled cfg" and "budget_ok cfg s"
    and "event_pre_syscall api cfg SYS_mmap s = (True, s1)"
  shows "unat (g_alloc_bytes (event_post_syscall api cfg SYS_mmap (Some (returned v)) s1)) =
      unat (g_alloc_bytes s) + unat (get_param s 1)"
    and "budget_ok cfg (event_post_syscall api cfg SYS_mmap (Some (returned v)) s1)"
proof -
  note s1 = mmap_noted(1) [OF assms(3)]
  have le: "g_alloc_bytes s \<le> g_max_alloc_bytes cfg" using assms(1,2) by (simp add: budget_ok_def)
  have fit: "get_param s 1 \<le> g_max_alloc_bytes cfg - g_alloc_bytes s"
    using mmap_noted(2) [OF assms(3)] assms(1) by (simp add: alloc_budget_has_room_def)
  have post: "event_post_syscall api cfg SYS_mmap (Some (returned v)) s1 = post_mmap cfg (returned v) s1"
    by (simp add: event_post_syscall_def s1 pre_reset_def)
  have "g_alloc_bytes (post_mmap cfg (returned v) s1) = g_alloc_bytes s + get_param s 1"
  proof (cases "get_param s 1 = 0")
    case True
    then show ?thesis by (simp add: post_mmap_def s1 pre_reset_def returned_def)
  next
    case False
    then have "post_mmap cfg (returned v) s1 = alloc_budget_add cfg (get_param s 1) s1"
      by (simp add: post_mmap_def s1 pre_reset_def returned_def word_gt_0)
    with alloc_add_fits [of s1 cfg "get_param s 1"] le fit show ?thesis by (simp add: s1 pre_reset_def)
  qed
  with post unat_add_no_wrap [OF fit le]
  show "unat (g_alloc_bytes (event_post_syscall api cfg SYS_mmap (Some (returned v)) s1)) =
      unat (g_alloc_bytes s) + unat (get_param s 1)"
    and "budget_ok cfg (event_post_syscall api cfg SYS_mmap (Some (returned v)) s1)"
    by (simp_all add: budget_ok_def)
qed

text \<open>
  C13: A mapping is charged exactly what it asked for. With a budget set and kept so far, an \<open>mmap\<close> that
  was let through and succeeded raises the usage by its length as a natural number: the check before
  the call and the charge after it agree, and the charge neither wraps around nor is cut at the
  limit.
\<close>
theorem mmap_charged_exactly:
  assumes "alloc_budget_enabled cfg" and "budget_ok cfg s"
    and "event_pre_syscall api cfg SYS_mmap s = (True, s1)"
  shows "unat (g_alloc_bytes (event_post_syscall api cfg SYS_mmap (Some (returned v)) s1)) =
      unat (g_alloc_bytes s) + unat (get_param s 1) \<and>
    budget_ok cfg (event_post_syscall api cfg SYS_mmap (Some (returned v)) s1)"
  using mmap_charged_exactly_facts [OF assms] by blast

theorem mmap_charged_exactly_witness:
  "\<exists>s1. event_pre_syscall plain_api (demo_budget 100) SYS_mmap (set_param 1 40 initial_sandbox) = (True, s1) \<and>
    unat (g_alloc_bytes (event_post_syscall plain_api (demo_budget 100) SYS_mmap (Some (returned 4096)) s1)) = 40"
proof -
  let ?s = "set_param 1 40 initial_sandbox"
  have en: "alloc_budget_enabled (demo_budget 100)" by (simp add: alloc_budget_enabled_def demo_budget_def)
  have ok: "budget_ok (demo_budget 100) ?s" "g_alloc_bytes ?s = 0"
    by (simp_all add: budget_ok_def set_param_def initial_sandbox_def)
  have "fst (event_pre_syscall plain_api (demo_budget 100) SYS_mmap ?s)"
    by (simp add: mmap_event pre_mmap_def Let_def demo_budget_def demo_config_def alloc_budget_has_room_def
        pre_reset_def get_param_def set_param_def initial_sandbox_def)
  then obtain s1 where pre: "event_pre_syscall plain_api (demo_budget 100) SYS_mmap ?s = (True, s1)"
    by (metis prod.collapse)
  with mmap_charged_exactly [OF en ok(1) pre, of 4096] ok(2) show ?thesis by auto
qed

text \<open>
  C14: The budget an operator writes is the budget that holds. When \<open>DR_MAX_ALLOC_BYTES\<close> is the text of
  a positive number with a suffix whose product fits 64 bits, then after initialisation, in every
  state a single thread can reach, the memory accounted is at most that product.
\<close>
theorem configured_budget_holds:
  assumes "dr_client_main api getenv pid ts start ao = (cfg, s)"
    and "getenv ''DR_MAX_ALLOC_BYTES'' = Some (show_nat k @ suf)" and "0 < k"
    and "k * suffix_factor suf < 2 ^ 64" and "suf \<in> {[], ''k'', ''K'', ''m'', ''M'', ''g'', ''G''}"
    and "(step api cfg {t})\<^sup>*\<^sup>* (s, Map.empty) m"
  shows "unat (g_alloc_bytes (fst m)) \<le> k * suffix_factor suf"
proof -
  have cfg: "g_max_alloc_bytes cfg = word_of_nat (k * suffix_factor suf)" and alloc: "g_alloc_bytes s = 0"
    using assms(1,2) suffix_word [OF assms(4,5,3), of 0]
    by (auto simp: dr_client_main_def Let_def client_config_def ensure_private_dirs_def initial_sandbox_def)
  then have lim: "unat (g_max_alloc_bytes cfg) = k * suffix_factor suf"
    using assms(4) by (simp only: unat_of_nat) simp
  have "0 < k * suffix_factor suf" using assms(3) by (simp add: suffix_factor_def)
  then have "alloc_budget_enabled cfg" by (simp add: alloc_budget_enabled_def word_less_nat_alt lim)
  moreover have "budget_ok cfg s" by (simp add: budget_ok_def alloc)
  ultimately have "g_alloc_bytes (fst m) \<le> g_max_alloc_bytes cfg" using budget_run [OF assms(6)] by blast
  then show ?thesis using lim by (simp add: word_le_nat_alt)
qed

theorem configured_budget_holds_witness:
  "unat (g_alloc_bytes (snd (dr_client_main plain_api (env_of [(''DR_MAX_ALLOC_BYTES'', ''64m'')]) 7 1 2 False)))
     \<le> 67108864"
proof -
  let ?e = "env_of [(''DR_MAX_ALLOC_BYTES'', ''64m'')]"
  have e: "?e ''DR_MAX_ALLOC_BYTES'' = Some (show_nat 64 @ ''m'')" by (simp add: env_of_def show_nat.simps)
  show ?thesis
    using configured_budget_holds [of plain_api ?e 7 1 2 False _ _ 64 "''m''" 0, OF prod.collapse [symmetric] e
        _ _ _ rtranclp.rtrancl_refl]
    by (simp add: suffix_factor_def)
qed

text \<open>
  Strict mode without an override refuses every \<open>execve\<close> and \<open>execveat\<close>: for each environment
  that selects strict mode and leaves \<open>DR_EXEC\<close> unset, in every state of the client and with
  whatever arguments, the call fails with EPERM.
\<close>
lemma strict_mode_refuses_exec:
  assumes "dr_client_main api getenv pid ts start ao = (cfg, s0)"
    and "getenv ''DR_SANDBOX_MODE'' = Some ''strict''" and "getenv ''DR_EXEC'' = None"
    and "n \<in> {SYS_execve, SYS_execveat}"
  shows "\<not> fst (event_pre_syscall api cfg n s) \<and> failed_with EPERM (snd (event_pre_syscall api cfg n s))"
proof -
  have "g_block_exec cfg"
    using assms(1-3) by (auto simp: dr_client_main_def Let_def client_config_def client_mode_def env_policy_blocks_cases)
  then show ?thesis
    using pre_controlled [of n api cfg s] assms(4)
    by (auto simp: controlled_def cpuish_sysnums_def unknown_peer_sysnums_def pre_controls_def pre_exec_def)
qed

end
